(* ===== verification/Prelude.thy ===== *)
theory Prelude
  imports Main "HOL-Library.Word" "HOL-Library.Monad_Syntax"
begin

text \<open>
  Shared vocabulary of the development: the machine types of the Rust code, the way panics and
  effects are written, the few pieces of the Rust standard library that the code uses (saturating
  arithmetic, string trimming and splitting, decimal and hexadecimal numerals, \<open>BTreeMap\<close>,
  \<open>HashMap::remove\<close>) and the lemmas about them that several components need.

  Effects. Everything outside the repository (reth, Celestia, the clock, the file system) lives in
  a world of a type parameter \<open>'w\<close>; an operation that touches it takes the world and returns it.
  Panics. The release profile of the workspace says \<open>panic = "abort"\<close>, so a panic ends the
  process: an operation that can panic has an \<open>option\<close> type and \<open>None\<close> is the abort. Errors of
  type \<open>Result\<close> are values: \<open>Inl\<close> is \<open>Err\<close>, \<open>Inr\<close> is \<open>Ok\<close>.
\<close>

section \<open>Machine types\<close>

type_synonym u8 = "8 word"
type_synonym u16 = "16 word"
type_synonym u32 = "32 word"
type_synonym u64 = "64 word"
type_synonym u256 = "256 word"
type_synonym b256 = "256 word"
type_synonym address = "160 word"
type_synonym bytes = "8 word list"

text \<open>The bytes of a 32-byte hash, most significant first (\<open>B256::as_slice\<close>).\<close>

definition b256_bytes :: "b256 \<Rightarrow> bytes" where
  "b256_bytes w = map (\<lambda>i. ucast (drop_bit (8 * (31 - i)) w)) [0..<32]"

lemma length_b256_bytes [simp]: "length (b256_bytes w) = 32"
  by (simp add: b256_bytes_def)

section \<open>Effects, panics and errors\<close>

type_synonym ('w, 'a) io = "'w \<Rightarrow> 'a \<times> 'w"
type_synonym ('w, 'a) act = "'w \<Rightarrow> ('a \<times> 'w) option"

text \<open>
  An effect that cannot panic seen as one that might, the result of doing nothing, sequencing, and
  sequencing with the \<open>?\<close> operator, which returns an error at once.
\<close>

definition lift_io :: "('w, 'a) io \<Rightarrow> ('w, 'a) act" where
  "lift_io f w = Some (f w)"

definition ret :: "'a \<Rightarrow> ('w, 'a) act" where
  "ret a w = Some (a, w)"

definition bind_act :: "('w, 'a) act \<Rightarrow> ('a \<Rightarrow> ('w, 'b) act) \<Rightarrow> ('w, 'b) act" where
  "bind_act m k w = (case m w of None \<Rightarrow> None | Some (a, w') \<Rightarrow> k a w')"

definition bind_try ::
  "('w, 'e + 'a) act \<Rightarrow> ('a \<Rightarrow> ('w, 'e + 'b) act) \<Rightarrow> ('w, 'e + 'b) act" where
  "bind_try m k w =
     (case m w of None \<Rightarrow> None
      | Some (Inl e, w') \<Rightarrow> Some (Inl e, w')
      | Some (Inr a, w') \<Rightarrow> k a w')"

text \<open>The panic itself, and a value that may be a panic.\<close>

definition panic :: "('w, 'a) act" where
  "panic w = None"

definition unwrap :: "'a option \<Rightarrow> ('w, 'a) act" where
  "unwrap x w = map_option (\<lambda>a. (a, w)) x"

lemma act_simps [simp]:
  "lift_io f w = Some (f w)"
  "ret a w = Some (a, w)"
  "panic w = None"
  "unwrap None w = None"
  "unwrap (Some a) w = Some (a, w)"
  by (simp_all add: lift_io_def ret_def panic_def unwrap_def)

lemma bind_act_Some:
  "bind_act m k w = Some r \<longleftrightarrow> (\<exists>a w'. m w = Some (a, w') \<and> k a w' = Some r)"
  by (auto simp: bind_act_def split: option.splits)

lemma bind_act_None:
  "bind_act m k w = None \<longleftrightarrow> m w = None \<or> (\<exists>a w'. m w = Some (a, w') \<and> k a w' = None)"
  by (auto simp: bind_act_def split: option.splits)

lemma bind_try_Some:
  "bind_try m k w = Some r \<longleftrightarrow>
     (\<exists>e w'. m w = Some (Inl e, w') \<and> r = (Inl e, w')) \<or>
     (\<exists>a w'. m w = Some (Inr a, w') \<and> k a w' = Some r)"
  by (auto simp: bind_try_def split: option.splits sum.splits)

lemma bind_try_Inr:
  "bind_try m k w = Some (Inr b, w'') \<longleftrightarrow>
     (\<exists>a w'. m w = Some (Inr a, w') \<and> k a w' = Some (Inr b, w''))"
  by (auto simp: bind_try_Some)

lemma bind_try_None:
  "bind_try m k w = None \<longleftrightarrow> m w = None \<or> (\<exists>a w'. m w = Some (Inr a, w') \<and> k a w' = None)"
  by (auto simp: bind_try_def split: option.splits sum.splits)

lemmas act_splits = bind_act_def bind_try_def

text \<open>
  The same facts as elimination rules, for case analysis of a run that returned, and panic freedom
  as a predicate with introduction rules.
\<close>

named_theorems act_elims
named_theorems no_panic_intros

lemma bind_act_SomeE [act_elims]:
  assumes "bind_act m k w = Some r"
  obtains a w' where "m w = Some (a, w')" "k a w' = Some r"
  using assms by (auto simp: bind_act_Some)

lemma bind_try_SomeE [act_elims]:
  assumes "bind_try m k w = Some r"
  obtains e w' where "m w = Some (Inl e, w')" "r = (Inl e, w')"
  | a w' where "m w = Some (Inr a, w')" "k a w' = Some r"
  using assms by (auto simp: bind_try_Some)

lemma unwrap_Some [simp]: "unwrap x w = Some (a, w') \<longleftrightarrow> x = Some a \<and> w' = w"
  by (auto simp: unwrap_def)

definition no_panic :: "('w, 'a) act \<Rightarrow> 'w \<Rightarrow> bool" where
  "no_panic m w \<longleftrightarrow> m w \<noteq> None"

lemma no_panic_ret [no_panic_intros, simp]: "no_panic (ret a) w"
  by (simp add: no_panic_def)

lemma no_panic_lift_io [no_panic_intros, simp]: "no_panic (lift_io f) w"
  by (simp add: no_panic_def)

lemma no_panic_unwrap [simp]: "no_panic (unwrap x) w \<longleftrightarrow> x \<noteq> None"
  by (simp add: no_panic_def unwrap_def)

lemma no_panic_bind_act [no_panic_intros]:
  assumes "no_panic m w" and "\<And>a w'. m w = Some (a, w') \<Longrightarrow> no_panic (k a) w'"
  shows "no_panic (bind_act m k) w"
  using assms by (auto simp: no_panic_def bind_act_None)

lemma no_panic_bind_try [no_panic_intros]:
  assumes "no_panic m w" and "\<And>a w'. m w = Some (Inr a, w') \<Longrightarrow> no_panic (k a) w'"
  shows "no_panic (bind_try m k) w"
  using assms by (auto simp: no_panic_def bind_try_None)

lemma no_panicD: "no_panic m w \<Longrightarrow> \<exists>a w'. m w = Some (a, w')"
  by (auto simp: no_panic_def)

lemma bind_simps [simp]:
  "m w = Some (a, w') \<Longrightarrow> bind_act m k w = k a w'"
  "m w = None \<Longrightarrow> bind_act m k w = None"
  "m w = Some (Inl e, w') \<Longrightarrow> bind_try m k' w = Some (Inl e, w')"
  "m w = Some (Inr b, w') \<Longrightarrow> bind_try m k' w = k' b w'"
  "m w = None \<Longrightarrow> bind_try m k' w = None"
  by (simp_all add: bind_act_def bind_try_def)

text \<open>\<open>Result::map_err\<close>.\<close>

definition map_err :: "('e \<Rightarrow> 'f) \<Rightarrow> 'e + 'a \<Rightarrow> 'f + 'a" where
  "map_err f r = (case r of Inl e \<Rightarrow> Inl (f e) | Inr a \<Rightarrow> Inr a)"

lemma map_err_simps [simp]:
  "map_err f (Inl e) = Inl (f e)"
  "map_err f (Inr a) = Inr a"
  by (simp_all add: map_err_def)

lemma map_err_eq_Inr [simp]: "map_err f r = Inr a \<longleftrightarrow> r = Inr a"
  by (cases r) simp_all

lemma map_err_eq_Inl: "map_err f r = Inl e \<longleftrightarrow> (\<exists>e'. r = Inl e' \<and> e = f e')"
  by (cases r) auto

text \<open>Collecting an iterator of \<open>Result\<close>s into a \<open>Result\<close> of a vector: the first error wins.\<close>

fun collect_results :: "('a \<Rightarrow> 'e + 'b) \<Rightarrow> 'a list \<Rightarrow> 'e + 'b list" where
  "collect_results f [] = Inr []"
| "collect_results f (x # xs) =
     (case f x of Inl e \<Rightarrow> Inl e
      | Inr y \<Rightarrow> (case collect_results f xs of Inl e \<Rightarrow> Inl e | Inr ys \<Rightarrow> Inr (y # ys)))"

lemma collect_results_Inr:
  "collect_results f xs = Inr ys \<longleftrightarrow> map f xs = map Inr ys"
proof (induction xs arbitrary: ys)
  case Nil
  then show ?case by auto
next
  case (Cons x xs)
  show ?case
  proof (cases "f x")
    case (Inl e)
    then show ?thesis by (cases ys) simp_all
  next
    case (Inr y)
    show ?thesis
    proof (cases "collect_results f xs")
      case Inl
      with Inr Cons.IH show ?thesis by (cases ys) auto
    next
      case (Inr zs)
      with \<open>f x = Inr y\<close> Cons.IH show ?thesis by (cases ys) auto
    qed
  qed
qed

lemma collect_results_length:
  "collect_results f xs = Inr ys \<Longrightarrow> length ys = length xs"
  by (metis collect_results_Inr length_map)

section \<open>Saturating arithmetic\<close>

definition sat_sub :: "'a::len word \<Rightarrow> 'a word \<Rightarrow> 'a word" where
  "sat_sub a b = (if a < b then 0 else a - b)"

definition sat_mul :: "'a::len word \<Rightarrow> 'a word \<Rightarrow> 'a word" where
  "sat_mul a b = (if unat a * unat b < 2 ^ LENGTH('a) then a * b else - 1)"

definition sat_pow :: "'a::len word \<Rightarrow> nat \<Rightarrow> 'a word" where
  "sat_pow a n = (if unat a ^ n < 2 ^ LENGTH('a) then a ^ n else - 1)"

lemma unat_minus_one_word_max: "unat (- 1 :: 'a::len word) = 2 ^ LENGTH('a) - 1"
  by (simp add: unsigned_minus_1_eq_mask mask_eq_exp_minus_1)

lemma unat_sat_sub: "unat (sat_sub a b) = unat a - unat b"
  by (auto simp: sat_sub_def word_less_nat_alt unat_sub_if_size word_size)

lemma unat_mult_small:
  fixes a b :: "'a::len word"
  shows "unat a * unat b < 2 ^ LENGTH('a) \<Longrightarrow> unat (a * b) = unat a * unat b"
  by (simp add: unat_word_ariths)

lemma unat_sat_mul:
  fixes a b :: "'a::len word"
  shows "unat (sat_mul a b) = min (unat a * unat b) (2 ^ LENGTH('a) - 1)"
  by (auto simp: sat_mul_def unat_mult_small unat_minus_one_word_max)

lemma unat_power_small:
  fixes a :: "'a::len word"
  shows "unat a ^ n < 2 ^ LENGTH('a) \<Longrightarrow> unat (a ^ n) = unat a ^ n"
proof (induction n)
  case 0
  then show ?case by simp
next
  case (Suc n)
  have "unat a ^ n < 2 ^ LENGTH('a)"
  proof (cases "unat a = 0")
    case True
    then show ?thesis
      using one_less_power [of "2::nat" "LENGTH('a)"] by (cases n) simp_all
  next
    case False
    then have "unat a ^ n \<le> unat a ^ Suc n" by simp
    with Suc.prems show ?thesis by linarith
  qed
  with Suc show ?case by (simp add: unat_mult_small)
qed

lemma unat_sat_pow:
  fixes a :: "'a::len word"
  shows "unat (sat_pow a n) = min (unat a ^ n) (2 ^ LENGTH('a) - 1)"
  by (auto simp: sat_pow_def unat_power_small unat_minus_one_word_max)

end
