(* ===== verification/Finality.thy ===== *)
theory Finality
  imports Prelude "HOL-Library.Multiset"
begin

text \<open>
  The finality tracker (crates/celestia, \<open>src/finality.rs\<close>, and \<open>BlobSubmission\<close> of \<open>src/lib.rs\<close>):
  the submitted blocks that wait for Celestia, and what a finalized Celestia header releases. The
  hash map is visited in an order that Rust does not fix: it is the argument \<open>order\<close>, which lists the
  keys of a map. Instants are milliseconds of the monotonic clock.
\<close>

record blob_submission =
  bs_block_hash :: b256
  bs_block_height :: u64
  bs_celestia_height :: u64
  bs_commitment :: bytes

record finality_confirmation =
  cf_block_hash :: b256
  cf_block_height :: u64
  cf_celestia_height :: u64
  cf_celestia_header_hash :: b256
  cf_submitted_at :: nat
  cf_confirmed_at :: nat

record pending_finality =
  pf_block_height :: u64
  pf_celestia_height :: u64
  pf_submitted_at :: nat

record finality_tracker =
  ft_pending :: "b256 \<rightharpoonup> pending_finality"
  ft_finalized_height :: u64

definition latency_ms :: "finality_confirmation \<Rightarrow> nat" where
  "latency_ms c = cf_confirmed_at c - cf_submitted_at c"

definition tracker_new :: finality_tracker where
  "tracker_new = \<lparr>ft_pending = Map.empty, ft_finalized_height = 0\<rparr>"

definition track :: "nat \<Rightarrow> blob_submission \<Rightarrow> finality_tracker \<Rightarrow> finality_tracker" where
  "track now s t =
     t\<lparr>ft_pending := (ft_pending t)(bs_block_hash s \<mapsto>
         \<lparr>pf_block_height = bs_block_height s,
          pf_celestia_height = bs_celestia_height s,
          pf_submitted_at = now\<rparr>)\<rparr>"

definition build_confirmation :: "b256 \<Rightarrow> pending_finality \<Rightarrow> b256 \<Rightarrow> nat \<Rightarrow> finality_confirmation" where
  "build_confirmation block_hash p celestia_header_hash now =
     \<lparr>cf_block_hash = block_hash,
      cf_block_height = pf_block_height p,
      cf_celestia_height = pf_celestia_height p,
      cf_celestia_header_hash = celestia_header_hash,
      cf_submitted_at = pf_submitted_at p,
      cf_confirmed_at = now\<rparr>"

text \<open>\<open>HashMap::retain\<close>: the closure keeps or removes each entry and pushes what it removes.\<close>

fun retain_pending ::
  "u64 \<Rightarrow> b256 \<Rightarrow> nat \<Rightarrow> b256 list \<Rightarrow> (b256 \<rightharpoonup> pending_finality)
    \<Rightarrow> finality_confirmation list \<Rightarrow> finality_confirmation list \<times> (b256 \<rightharpoonup> pending_finality)" where
  "retain_pending celestia_height hdr now [] m confirmations = (confirmations, m)"
| "retain_pending celestia_height hdr now (k # ks) m confirmations =
     (case m k of
        None \<Rightarrow> retain_pending celestia_height hdr now ks m confirmations
      | Some p \<Rightarrow>
          if pf_celestia_height p > celestia_height
          then retain_pending celestia_height hdr now ks m confirmations
          else retain_pending celestia_height hdr now ks (m(k := None))
                 (confirmations @ [build_confirmation k p hdr now]))"

definition on_celestia_finality ::
  "((b256 \<rightharpoonup> pending_finality) \<Rightarrow> b256 list) \<Rightarrow> nat \<Rightarrow> u64 \<Rightarrow> b256 \<Rightarrow> finality_tracker
    \<Rightarrow> finality_confirmation list \<times> finality_tracker" where
  "on_celestia_finality order now celestia_height celestia_header_hash t =
     (let (confirmations, rest) =
            retain_pending celestia_height celestia_header_hash now (order (ft_pending t))
              (ft_pending t) []
      in (sort_key cf_block_height confirmations,
          t\<lparr>ft_finalized_height := celestia_height, ft_pending := rest\<rparr>))"

definition pending_count ::
  "((b256 \<rightharpoonup> pending_finality) \<Rightarrow> b256 list) \<Rightarrow> finality_tracker \<Rightarrow> nat" where
  "pending_count order t = length (order (ft_pending t))"

definition finalized_height :: "finality_tracker \<Rightarrow> u64" where
  "finalized_height t = ft_finalized_height t"

section \<open>Lemmas\<close>

text \<open>What \<open>order\<close> is: a listing of the keys of every finite map, each once.\<close>

definition key_order :: "(('k \<rightharpoonup> 'v) \<Rightarrow> 'k list) \<Rightarrow> bool" where
  "key_order order \<longleftrightarrow> (\<forall>m. finite (dom m) \<longrightarrow> distinct (order m) \<and> set (order m) = dom m)"

definition is_due :: "u64 \<Rightarrow> (b256 \<rightharpoonup> pending_finality) \<Rightarrow> b256 \<Rightarrow> bool" where
  "is_due h m k = (case m k of None \<Rightarrow> False | Some p \<Rightarrow> pf_celestia_height p \<le> h)"

lemma retain_pending_spec:
  "distinct ks \<Longrightarrow> retain_pending h hdr now ks m acc =
     (acc @ map (\<lambda>k. build_confirmation k (the (m k)) hdr now) (filter (is_due h m) ks),
      \<lambda>k. if k \<in> set ks \<and> is_due h m k then None else m k)"
proof (induction ks arbitrary: m acc)
  case Nil
  then show ?case by simp
next
  case (Cons k ks)
  show ?case
  proof (cases "is_due h m k")
    case False
    with Cons show ?thesis
      by (auto simp: is_due_def not_le split: option.splits intro!: ext)
  next
    case True
    then obtain p where p: "m k = Some p" "pf_celestia_height p \<le> h"
      by (auto simp: is_due_def split: option.splits)
    have same: "is_due h (m(k := None)) k' = is_due h m k'" if "k' \<in> set ks" for k'
      using that Cons.prems by (auto simp: is_due_def)
    have "filter (is_due h (m(k := None))) ks = filter (is_due h m) ks"
      using same by (intro filter_cong) auto
    moreover have "map (\<lambda>k'. build_confirmation k' (the ((m(k := None)) k')) hdr now) (filter (is_due h m) ks)
        = map (\<lambda>k'. build_confirmation k' (the (m k')) hdr now) (filter (is_due h m) ks)"
      using Cons.prems by (intro map_cong) auto
    ultimately show ?thesis
      using Cons p True same by (auto simp: not_less intro!: ext)
  qed
qed

lemma build_confirmation_fields [simp]:
  "cf_block_hash (build_confirmation k p hdr now) = k"
  "cf_block_height (build_confirmation k p hdr now) = pf_block_height p"
  "cf_celestia_height (build_confirmation k p hdr now) = pf_celestia_height p"
  by (simp_all add: build_confirmation_def)

lemma on_celestia_finality_spec:
  assumes "key_order order" "finite (dom (ft_pending t))"
    and "on_celestia_finality order now h hdr t = (cs, t')"
  shows "mset cs = mset (map (\<lambda>k. build_confirmation k (the (ft_pending t k)) hdr now)
      (filter (is_due h (ft_pending t)) (order (ft_pending t))))"
    and "sorted (map cf_block_height cs)"
    and "ft_pending t' = (\<lambda>k. if is_due h (ft_pending t) k then None else ft_pending t k)"
    and "ft_finalized_height t' = h"
proof -
  have o: "distinct (order (ft_pending t))" "set (order (ft_pending t)) = dom (ft_pending t)"
    using assms(1,2) by (auto simp: key_order_def)
  have "is_due h (ft_pending t) k \<Longrightarrow> k \<in> dom (ft_pending t)" for k
    by (auto simp: is_due_def split: option.splits)
  then show "mset cs = mset (map (\<lambda>k. build_confirmation k (the (ft_pending t k)) hdr now)
      (filter (is_due h (ft_pending t)) (order (ft_pending t))))"
    and "sorted (map cf_block_height cs)"
    and "ft_pending t' = (\<lambda>k. if is_due h (ft_pending t) k then None else ft_pending t k)"
    and "ft_finalized_height t' = h"
    using assms(3) by (auto simp: on_celestia_finality_def retain_pending_spec o intro!: ext)
qed

lemma finality_releases:
  assumes "key_order order" "finite (dom (ft_pending t))"
    and "on_celestia_finality order now h hdr t = (cs, t')"
  shows "set (map cf_block_hash cs) = {k. is_due h (ft_pending t) k}"
    and "distinct (map cf_block_hash cs)"
    and "ft_pending t' = (\<lambda>k. if k \<in> set (map cf_block_hash cs) then None else ft_pending t k)"
proof -
  let ?due = "filter (is_due h (ft_pending t)) (order (ft_pending t))"
  note spec = on_celestia_finality_spec [OF assms]
  have o: "distinct ?due" "set ?due = {k. is_due h (ft_pending t) k}"
    using assms(1,2) by (auto simp: key_order_def is_due_def split: option.splits)
  have "mset (map cf_block_hash cs) = image_mset cf_block_hash (mset cs)" by simp
  also have "\<dots> = mset ?due"
    unfolding spec(1) by (simp add: multiset.map_comp comp_def flip: mset_map)
  finally have hashes: "mset (map cf_block_hash cs) = mset ?due" .
  then show set: "set (map cf_block_hash cs) = {k. is_due h (ft_pending t) k}"
    using o(2) mset_eq_setD by metis
  show "distinct (map cf_block_hash cs)"
    using hashes o(1) mset_eq_imp_distinct_iff by blast
  show "ft_pending t' = (\<lambda>k. if k \<in> set (map cf_block_hash cs) then None else ft_pending t k)"
    unfolding set spec(3) by simp
qed

section \<open>Properties\<close>

text \<open>
  A finalized header releases exactly the blocks it covers. For every iteration order of the hash
  map, the confirmations are the pending blocks submitted at or below the finalized Celestia height,
  each once and in the order of their heights, and the pending blocks that remain are the others,
  unchanged.
\<close>

theorem finality_releases_due:
  assumes "key_order order" "finite (dom (ft_pending t))"
    and "on_celestia_finality order now h hdr t = (cs, t')"
  shows "set (map cf_block_hash cs) =
      {k. case ft_pending t k of None \<Rightarrow> False | Some p \<Rightarrow> pf_celestia_height p \<le> h} \<and>
    distinct (map cf_block_hash cs) \<and> sorted (map cf_block_height cs) \<and>
    ft_pending t' = (\<lambda>k. if k \<in> set (map cf_block_hash cs) then None else ft_pending t k)"
  using finality_releases [OF assms] on_celestia_finality_spec(2) [OF assms]
  unfolding is_due_def by (intro conjI)

text \<open>One listing of the keys: in ascending order.\<close>

definition ascending_keys :: "('k::linorder \<rightharpoonup> 'v) \<Rightarrow> 'k list" where
  "ascending_keys m = sorted_list_of_set (dom m)"

lemma key_order_ascending: "key_order ascending_keys"
  by (simp add: key_order_def ascending_keys_def)

definition sample_submission :: blob_submission where
  "sample_submission =
     \<lparr>bs_block_hash = 5, bs_block_height = 1, bs_celestia_height = 100, bs_commitment = [1, 2, 3]\<rparr>"

theorem finality_releases_due_witness:
  "\<exists>cs t'. on_celestia_finality ascending_keys 9 100 0 (track 1 sample_submission tracker_new) = (cs, t') \<and>
     set (map cf_block_hash cs) = {5} \<and> distinct (map cf_block_hash cs) \<and> ft_pending t' 5 = None"
proof -
  obtain cs t' where r: "on_celestia_finality ascending_keys 9 100 0
      (track 1 sample_submission tracker_new) = (cs, t')"
    by (cases "on_celestia_finality ascending_keys 9 100 0 (track 1 sample_submission tracker_new)")
  have "finite (dom (ft_pending (track 1 sample_submission tracker_new)))"
    by (simp add: track_def tracker_new_def)
  note due = finality_releases_due [OF key_order_ascending this r]
  have "set (map cf_block_hash cs) = {5}"
    using due by (auto simp: track_def tracker_new_def sample_submission_def split: option.splits if_splits)
  with due r show ?thesis by auto
qed

text \<open>The life of a tracker: submissions and finalized headers in any interleaving.\<close>

datatype finality_event = FE_Track nat blob_submission | FE_Header nat u64 b256

fun tracker_step ::
  "((b256 \<rightharpoonup> pending_finality) \<Rightarrow> b256 list) \<Rightarrow> finality_event \<Rightarrow> finality_tracker
    \<Rightarrow> finality_confirmation list \<times> finality_tracker" where
  "tracker_step order (FE_Track now s) t = ([], track now s t)"
| "tracker_step order (FE_Header now h hdr) t = on_celestia_finality order now h hdr t"

fun run_tracker ::
  "((b256 \<rightharpoonup> pending_finality) \<Rightarrow> b256 list) \<Rightarrow> finality_event list \<Rightarrow> finality_tracker
    \<Rightarrow> finality_confirmation list \<times> finality_tracker" where
  "run_tracker order [] t = ([], t)"
| "run_tracker order (e # es) t =
     (let (cs, t1) = tracker_step order e t; (cs', t2) = run_tracker order es t1 in (cs @ cs', t2))"

fun tracked_hashes :: "finality_event list \<Rightarrow> b256 list" where
  "tracked_hashes [] = []"
| "tracked_hashes (FE_Track now s # es) = bs_block_hash s # tracked_hashes es"
| "tracked_hashes (FE_Header now h hdr # es) = tracked_hashes es"

lemma run_tracker_conserves:
  assumes "key_order order" "finite (dom (ft_pending t))" "run_tracker order es t = (cs, t')"
  shows "mset (map cf_block_hash cs) + mset_set (dom (ft_pending t')) \<subseteq>#
      mset_set (dom (ft_pending t)) + mset (tracked_hashes es) \<and>
    set_mset (mset (map cf_block_hash cs) + mset_set (dom (ft_pending t'))) =
      dom (ft_pending t) \<union> set (tracked_hashes es)"
  using assms(2-)
proof (induction es arbitrary: t cs)
  case Nil
  then show ?case by simp
next
  case (Cons e es)
  obtain c1 t1 where step: "tracker_step order e t = (c1, t1)" by (cases "tracker_step order e t")
  obtain c2 where rest: "run_tracker order es t1 = (c2, t')" and cs: "cs = c1 @ c2"
    using Cons.prems(2) step by (auto split: prod.splits)
  show ?case
  proof (cases e)
    case (FE_Track now s)
    with step have t1: "c1 = []" "dom (ft_pending t1) = insert (bs_block_hash s) (dom (ft_pending t))"
      by (auto simp: track_def)
    then have fin: "finite (dom (ft_pending t1))" using Cons.prems(1) by simp
    note IH = Cons.IH [OF fin rest]
    have "mset_set (dom (ft_pending t1)) \<subseteq># add_mset (bs_block_hash s) (mset_set (dom (ft_pending t)))"
      unfolding t1(2) using Cons.prems(1)
      by (cases "bs_block_hash s \<in> dom (ft_pending t)") (simp_all add: insert_absorb)
    then have "mset_set (dom (ft_pending t1)) + mset (tracked_hashes es) \<subseteq>#
        mset_set (dom (ft_pending t)) + mset (tracked_hashes (e # es))"
      unfolding FE_Track by simp
    with IH show ?thesis
      by (auto simp: cs t1 FE_Track intro: subset_mset.order_trans)
  next
    case (FE_Header now h hdr)
    with step have fin: "on_celestia_finality order now h hdr t = (c1, t1)" by simp
    note due = finality_releases [OF assms(1) Cons.prems(1) fin]
    let ?C = "set (map cf_block_hash c1)"
    have dom: "dom (ft_pending t1) = dom (ft_pending t) - ?C"
      unfolding due(3) by (auto split: if_splits)
    have sub: "?C \<subseteq> dom (ft_pending t)"
      unfolding due(1) by (auto simp: is_due_def split: option.splits)
    have "mset (map cf_block_hash c1) = mset_set ?C"
      by (rule mset_set_set [symmetric, OF due(2)])
    moreover have "mset_set (dom (ft_pending t)) = mset_set ?C + mset_set (dom (ft_pending t1))"
      using Cons.prems(1) dom sub mset_set_Diff [of "dom (ft_pending t)" ?C]
        subset_imp_msubset_mset_set [of ?C "dom (ft_pending t)"]
      by (metis subset_mset.add_diff_inverse)
    moreover have "finite (dom (ft_pending t1))" using Cons.prems(1) dom by simp
    note Cons.IH [OF this rest]
    ultimately show ?thesis
      using sub dom by (auto simp: cs FE_Header add.assoc)
  qed
qed

lemma run_tracker_finite:
  "key_order order \<Longrightarrow> run_tracker order es t = (cs, t') \<Longrightarrow> finite (dom (ft_pending t)) \<Longrightarrow>
     finite (dom (ft_pending t'))"
proof (induction es arbitrary: t cs)
  case (Cons e es)
  obtain c1 t1 where step: "tracker_step order e t = (c1, t1)" by (cases "tracker_step order e t")
  with Cons.prems(2) obtain c2 where rest: "run_tracker order es t1 = (c2, t')"
    by (auto split: prod.splits)
  have "dom (ft_pending t1) \<subseteq> dom (ft_pending t) \<union> set (tracked_hashes [e])"
  proof (cases e)
    case (FE_Header now h hdr)
    with step have "on_celestia_finality order now h hdr t = (c1, t1)" by simp
    from finality_releases(3) [OF Cons.prems(1,3) this] show ?thesis by (auto split: if_splits)
  qed (use step in \<open>auto simp: track_def\<close>)
  then have "finite (dom (ft_pending t1))"
    by (rule finite_subset) (use Cons.prems(3) in simp)
  then show ?case by (rule Cons.IH [OF Cons.prems(1) rest])
qed simp

lemma distinct_subset_mset:
  assumes "M \<subseteq># mset xs" "set_mset M = set xs" "distinct xs"
  shows "M = mset xs"
proof (rule multiset_eqI)
  fix x
  have "count M x \<le> count (mset xs) x" using assms(1) by (rule mset_subset_eq_count)
  moreover have "count (mset xs) x \<le> 1" using assms(3) by (simp add: distinct_count_atmost_1)
  moreover have "count M x = 0 \<longleftrightarrow> count (mset xs) x = 0"
    using assms(2) by (simp add: count_eq_zero_iff)
  ultimately show "count M x = count (mset xs) x" by linarith
qed

text \<open>
  C20: no submission is lost or confirmed too often. Over every interleaving of submissions and
  finalized headers, starting from an empty tracker and for every iteration order of the hash map:
  every tracked hash is still pending or was confirmed at least once; it was confirmed, counting it
  once more while it is pending, at most as often as it was tracked; and when no hash was tracked
  twice, the confirmed hashes and the pending ones are together the tracked ones, each exactly once.
  A hash that is tracked again while it is pending replaces its entry, so that its two submissions
  have one confirmation.
\<close>

theorem tracker_conserves_submissions:
  assumes "key_order order" "run_tracker order es tracker_new = (cs, t)"
  shows "set (map cf_block_hash cs) \<union> dom (ft_pending t) = set (tracked_hashes es) \<and>
    mset (map cf_block_hash cs) + mset_set (dom (ft_pending t)) \<subseteq># mset (tracked_hashes es) \<and>
    (distinct (tracked_hashes es) \<longrightarrow>
      mset (map cf_block_hash cs) + mset_set (dom (ft_pending t)) = mset (tracked_hashes es))"
proof -
  have "finite (dom (ft_pending tracker_new))" by (simp add: tracker_new_def)
  note conserves = run_tracker_conserves [OF assms(1) this assms(2)]
  then have "mset (map cf_block_hash cs) + mset_set (dom (ft_pending t)) \<subseteq># mset (tracked_hashes es)"
      "set_mset (mset (map cf_block_hash cs) + mset_set (dom (ft_pending t))) = set (tracked_hashes es)"
    by (simp_all add: tracker_new_def)
  moreover have "finite (dom (ft_pending t))"
    by (rule run_tracker_finite [OF assms]) (simp add: tracker_new_def)
  ultimately show ?thesis
    using distinct_subset_mset [of _ "tracked_hashes es"] by simp
qed

theorem tracker_conserves_submissions_witness:
  "\<exists>cs t. run_tracker ascending_keys [FE_Track 1 sample_submission, FE_Header 2 99 0,
       FE_Track 3 sample_submission, FE_Header 4 100 0] tracker_new = (cs, t) \<and>
     mset (map cf_block_hash cs) + mset_set (dom (ft_pending t)) \<subseteq># {#5, 5#} \<and>
     set (map cf_block_hash cs) \<union> dom (ft_pending t) = {5}"
proof -
  obtain cs t where r: "run_tracker ascending_keys [FE_Track 1 sample_submission, FE_Header 2 99 0,
      FE_Track 3 sample_submission, FE_Header 4 100 0] tracker_new = (cs, t)"
    by (metis prod.collapse)
  from tracker_conserves_submissions [OF key_order_ascending r] r show ?thesis
    by (simp add: sample_submission_def)
qed

end
