(* ===== verification/Host.thy ===== *)
theory Host
  imports Prelude
begin

text \<open>
  What the components ask of the operating system, as functions over a world \<open>'x\<close> that is a type
  parameter: the wall clock (seconds since the epoch, \<open>None\<close> before it), sleeping, and reading a
  file. And the loops that try an operation a bounded number of times with pauses between: the
  locale \<open>bounded_retry\<close> states once what such a loop returns and after how many attempts.
\<close>

record 'x host =
  clock :: "('x, u64 option) io"
  sleep_ms :: "u64 \<Rightarrow> 'x \<Rightarrow> 'x"
  read_file :: "string \<Rightarrow> ('x, string + string) io"

text \<open>The wall clock in seconds, 0 before the epoch.\<close>

definition wall_clock_timestamp :: "'x host \<Rightarrow> ('x, u64) io" where
  "wall_clock_timestamp H x = (let (t, x') = clock H x in (case t of Some d \<Rightarrow> d | None \<Rightarrow> 0, x'))"

section \<open>Bounded retry\<close>

text \<open>
  One attempt, numbered from 1, either stops with a result or, after its pause, lets the loop go on
  (\<open>None\<close>). \<open>after_attempts a k i w\<close> is the world after \<open>k\<close> attempts from number \<open>i\<close> on that all
  let the loop go on.
\<close>

fun after_attempts :: "(nat \<Rightarrow> ('w, 'r option) act) \<Rightarrow> nat \<Rightarrow> nat \<Rightarrow> 'w \<Rightarrow> 'w option" where
  "after_attempts a 0 i w = Some w"
| "after_attempts a (Suc k) i w =
     (case a i w of Some (None, w') \<Rightarrow> after_attempts a k (Suc i) w' | _ \<Rightarrow> None)"

locale bounded_retry =
  fixes attempt :: "nat \<Rightarrow> ('w, 'r option) act"
    and exhausted :: "('w, 'r) act"
    and loop :: "nat \<Rightarrow> nat \<Rightarrow> ('w, 'r) act"
  assumes loop_0: "loop 0 i w = exhausted w"
    and loop_Suc: "loop (Suc n) i w =
      (case attempt i w of None \<Rightarrow> None
       | Some (Some r, w') \<Rightarrow> Some (r, w')
       | Some (None, w') \<Rightarrow> loop n (Suc i) w')"
begin

text \<open>
  The loop returns what the first stopping attempt returns, and what \<open>exhausted\<close> returns when all
  \<open>n\<close> attempts let it go on; so it makes at most \<open>n\<close> attempts.
\<close>

lemma loop_result:
  "loop n i w = Some out \<longleftrightarrow>
     (\<exists>k < n. \<exists>w1 r w'. after_attempts attempt k i w = Some w1 \<and>
        attempt (i + k) w1 = Some (Some r, w') \<and> out = (r, w')) \<or>
     (\<exists>w1. after_attempts attempt n i w = Some w1 \<and> exhausted w1 = Some out)"
proof (induction n arbitrary: i w out)
  case 0
  then show ?case by (simp add: loop_0)
next
  case (Suc n)
  have split: "(\<exists>k < Suc n. P k) \<longleftrightarrow> P 0 \<or> (\<exists>k < n. P (Suc k))" for P
    by (auto simp: less_Suc_eq_0_disj)
  show ?case
  proof (cases "attempt i w")
    case None
    then show ?thesis unfolding loop_Suc split by simp
  next
    case (Some a)
    obtain x w' where a: "a = (x, w')" by (cases a)
    show ?thesis
    proof (cases x)
      case None
      with Some a show ?thesis unfolding loop_Suc split by (simp add: Suc.IH)
    next
      case (Some r)
      with \<open>attempt i w = Some a\<close> a show ?thesis unfolding loop_Suc split by auto
    qed
  qed
qed

text \<open>If no attempt panics and giving up does not panic, the loop returns.\<close>

lemma loop_total:
  assumes "\<And>i w. attempt i w \<noteq> None" and "\<And>w. exhausted w \<noteq> None"
  shows "loop n i w \<noteq> None"
proof (induction n arbitrary: i w)
  case 0
  then show ?case using assms(2) by (simp add: loop_0)
next
  case (Suc n)
  then show ?case
    using assms(1) [of i w] by (auto simp: loop_Suc split: option.splits)
qed

text \<open>If the last attempt always stops, the loop never gives up.\<close>

lemma loop_last_stops:
  assumes "\<And>w r. attempt (i + n) w = Some r \<Longrightarrow> fst r \<noteq> None"
  shows "after_attempts attempt (Suc n) i w = None"
  using assms
proof (induction n arbitrary: i w)
  case 0
  then show ?case by (force split: option.splits)
next
  case (Suc n)
  have "after_attempts attempt (Suc n) (Suc i) w' = None" for w'
    by (rule Suc.IH) (use Suc.prems in auto)
  then show ?case
    by (subst after_attempts.simps(2)) (auto simp del: after_attempts.simps split: option.splits)
qed

text \<open>Then it also returns, although giving up may panic.\<close>

lemma loop_last_returns:
  assumes total: "\<And>i w. attempt i w \<noteq> None"
    and last: "\<And>w r. attempt (i + n) w = Some r \<Longrightarrow> fst r \<noteq> None"
  shows "loop (Suc n) i w \<noteq> None"
  using last
proof (induction n arbitrary: i w)
  case 0
  then show ?case
    using total [of i w] by (fastforce simp: loop_Suc split: option.splits)
next
  case (Suc n)
  have "loop (Suc n) (Suc i) w' \<noteq> None" for w'
    by (rule Suc.IH) (use Suc.prems in auto)
  then show ?case
    using total [of i w] by (subst loop_Suc) (auto split: option.splits)
qed

end

end
