(* ===== verification/Rust_Strings.thy ===== *)
theory Rust_Strings
  imports Prelude
begin

text \<open>
  The string functions of the Rust standard library that the repository uses, on strings as lists
  of characters: \<open>trim\<close>, \<open>starts_with\<close>, \<open>trim_start_matches\<close>, \<open>split_once\<close>,
  \<open>u64::from_str\<close>, \<open>u64::from_str_radix\<close> with base 16, and the decimal printing of integers that
  \<open>format!\<close> does. White space is ASCII white space: the configuration and key files that are
  trimmed hold hexadecimal digits.
\<close>

section \<open>Trimming and splitting\<close>

definition is_whitespace :: "char \<Rightarrow> bool" where
  "is_whitespace c \<longleftrightarrow> c \<in> set [CHR 0x09, CHR 0x0A, CHR 0x0B, CHR 0x0C, CHR 0x0D, CHR 0x20]"

definition trim :: "string \<Rightarrow> string" where
  "trim s = rev (dropWhile is_whitespace (rev (dropWhile is_whitespace s)))"

definition starts_with :: "string \<Rightarrow> string \<Rightarrow> bool" where
  "starts_with s p \<longleftrightarrow> take (length p) s = p"

text \<open>\<open>s.trim_start_matches("0x")\<close> strips the prefix as often as it is there.\<close>

fun trim_start_0x :: "string \<Rightarrow> string" where
  "trim_start_0x (a # b # s) = (if [a, b] = ''0x'' then trim_start_0x s else a # b # s)"
| "trim_start_0x s = s"

fun split_once :: "char \<Rightarrow> string \<Rightarrow> (string \<times> string) option" where
  "split_once c [] = None"
| "split_once c (x # xs) =
     (if x = c then Some ([], xs) else map_option (\<lambda>(a, b). (x # a, b)) (split_once c xs))"

lemma starts_with_append [simp]: "starts_with (p @ s) p"
  by (simp add: starts_with_def)

lemma split_once_Some:
  "split_once c s = Some (a, b) \<longleftrightarrow> s = a @ c # b \<and> c \<notin> set a"
proof (induction s arbitrary: a)
  case Nil
  then show ?case by simp
next
  case (Cons x xs)
  show ?case
    by (cases a) (auto simp: Cons.IH)
qed

lemma split_once_None: "split_once c s = None \<longleftrightarrow> c \<notin> set s"
  by (induction s) auto

lemma trim_trim [simp]: "trim (trim s) = trim s"
proof -
  define t where "t = dropWhile is_whitespace s"
  have hd_t: "t = [] \<or> \<not> is_whitespace (hd t)"
    unfolding t_def using hd_dropWhile by blast
  have drop: "dropWhile is_whitespace (rev (dropWhile is_whitespace (rev t)))
      = rev (dropWhile is_whitespace (rev t))"
  proof (cases "rev (dropWhile is_whitespace (rev t))")
    case (Cons x xs)
    have "t = rev (takeWhile is_whitespace (rev t) @ dropWhile is_whitespace (rev t))"
      by simp
    also have "\<dots> = x # xs @ rev (takeWhile is_whitespace (rev t))"
      unfolding rev_append using Cons by simp
    finally have "hd t = x" and "t \<noteq> []" by (metis list.sel(1), metis list.distinct(1))
    with hd_t have "\<not> is_whitespace x" by simp
    then show ?thesis by (simp add: Cons)
  next
    case Nil
    then show ?thesis by (simp only: dropWhile.simps rev.simps)
  qed
  show ?thesis
    unfolding trim_def t_def [symmetric] using drop by simp
qed

text \<open>The bytes of a string (\<open>as_bytes\<close>), and splitting at a character (\<open>split\<close>).\<close>

definition string_bytes :: "string \<Rightarrow> bytes" where
  "string_bytes s = map (\<lambda>c. of_nat (of_char c)) s"

fun split_on :: "char \<Rightarrow> string \<Rightarrow> string list" where
  "split_on c [] = [[]]"
| "split_on c (x # xs) =
     (if x = c then [] # split_on c xs
      else (case split_on c xs of [] \<Rightarrow> [[x]] | p # ps \<Rightarrow> (x # p) # ps))"

lemma split_on_not_in: "c \<notin> set s \<Longrightarrow> split_on c s = [s]"
  by (induction s) auto

lemma split_on_append: "c \<notin> set s \<Longrightarrow> split_on c (s @ c # t) = s # split_on c t"
  by (induction s) auto

section \<open>Numerals\<close>

definition dec_digit :: "nat \<Rightarrow> char" where
  "dec_digit n = char_of (48 + n)"

fun show_nat :: "nat \<Rightarrow> string" where
  "show_nat n = (if n < 10 then [dec_digit n] else show_nat (n div 10) @ [dec_digit (n mod 10)])"

declare show_nat.simps [simp del]

text \<open>The value of a digit, in any base up to 36, as \<open>char::to_digit\<close> reads it.\<close>

definition digit_val :: "char \<Rightarrow> nat option" where
  "digit_val c =
     (let n = of_char c :: nat in
      if 48 \<le> n \<and> n \<le> 57 then Some (n - 48)
      else if 97 \<le> n \<and> n \<le> 122 then Some (n - 87)
      else if 65 \<le> n \<and> n \<le> 90 then Some (n - 55)
      else None)"

text \<open>Accumulating digits with the overflow check of the unsigned 64-bit parser.\<close>

fun parse_digits :: "nat \<Rightarrow> nat \<Rightarrow> string \<Rightarrow> nat option" where
  "parse_digits radix acc [] = Some acc"
| "parse_digits radix acc (c # cs) =
     (case digit_val c of
        None \<Rightarrow> None
      | Some d \<Rightarrow>
          if radix \<le> d then None
          else if 2 ^ 64 \<le> acc * radix + d then None
          else parse_digits radix (acc * radix + d) cs)"

text \<open>\<open>u64::from_str_radix\<close>: the empty string and a lone sign are errors, a leading plus is read.\<close>

definition parse_u64 :: "nat \<Rightarrow> string \<Rightarrow> u64 option" where
  "parse_u64 radix s =
     (if s = [] \<or> s = ''+'' \<or> s = ''-'' then None
      else map_option of_nat
        (parse_digits radix 0 (if hd s = CHR ''+'' then tl s else s)))"

lemma parse_digits_bound:
  "parse_digits radix acc s = Some n \<Longrightarrow> acc < 2 ^ 64 \<Longrightarrow> n < 2 ^ 64"
  by (induction radix acc s rule: parse_digits.induct) (auto split: option.splits if_splits)

lemma of_char_dec_digit: "n < 10 \<Longrightarrow> (of_char (dec_digit n) :: nat) = 48 + n"
  by (simp add: dec_digit_def)

lemma digit_val_dec_digit: "n < 10 \<Longrightarrow> digit_val (dec_digit n) = Some n"
  by (simp add: digit_val_def dec_digit_def Let_def)

lemma parse_digits_append:
  "parse_digits radix acc (s @ t) =
     (case parse_digits radix acc s of None \<Rightarrow> None | Some n \<Rightarrow> parse_digits radix n t)"
  by (induction radix acc s rule: parse_digits.induct) (auto split: option.splits)

lemma parse_digits_show_nat:
  "n < 2 ^ 64 \<Longrightarrow> parse_digits 10 0 (show_nat n) = Some n"
proof (induction n rule: show_nat.induct)
  case (1 n)
  show ?case
  proof (cases "n < 10")
    case True
    with 1 show ?thesis
      by (subst show_nat.simps) (simp add: digit_val_dec_digit)
  next
    case False
    with 1 have IH: "parse_digits 10 0 (show_nat (n div 10)) = Some (n div 10)"
      by simp
    have "n div 10 * 10 + n mod 10 = n" by simp
    with False 1 IH show ?thesis
      by (subst show_nat.simps) (simp add: parse_digits_append digit_val_dec_digit)
  qed
qed

lemma show_nat_not_Nil [simp]: "show_nat n \<noteq> []"
  by (subst show_nat.simps) simp

lemma show_nat_digits: "c \<in> set (show_nat n) \<Longrightarrow> \<exists>d < 10. c = dec_digit d"
proof (induction n rule: show_nat.induct)
  case (1 n)
  show ?case
  proof (cases "n < 10")
    case True
    with 1 show ?thesis by (subst (asm) show_nat.simps) auto
  next
    case False
    with 1 have "c \<in> set (show_nat (n div 10)) \<or> c = dec_digit (n mod 10)"
      by (subst (asm) (2) show_nat.simps) auto
    with False 1 show ?thesis by (metis mod_less_divisor zero_less_numeral)
  qed
qed

lemma dec_digit_not_sign: "d < 10 \<Longrightarrow> dec_digit d \<noteq> CHR ''+'' \<and> dec_digit d \<noteq> CHR ''-''
    \<and> dec_digit d \<noteq> CHR ''@''"
  using of_char_dec_digit [of d] by auto

lemma show_nat_no_at: "CHR ''@'' \<notin> set (show_nat n)"
  using show_nat_digits dec_digit_not_sign by metis

lemma parse_u64_show_nat: "n < 2 ^ 64 \<Longrightarrow> parse_u64 10 (show_nat n) = Some (of_nat n)"
proof -
  assume n: "n < 2 ^ 64"
  have "hd (show_nat n) \<in> set (show_nat n)" by simp
  then have "hd (show_nat n) \<noteq> CHR ''+'' \<and> hd (show_nat n) \<noteq> CHR ''-''"
    using show_nat_digits dec_digit_not_sign by metis
  then have "show_nat n \<noteq> ''+''" "show_nat n \<noteq> ''-''" "hd (show_nat n) \<noteq> CHR ''+''"
    by (metis list.sel(1))+
  with n show ?thesis
    by (simp add: parse_u64_def parse_digits_show_nat)
qed

lemma parse_u64_unat: "parse_u64 radix s = Some w \<Longrightarrow>
    parse_digits radix 0 (if hd s = CHR ''+'' then tl s else s) = Some (unat w)"
  using parse_digits_bound [of radix 0]
  by (auto simp: parse_u64_def unat_of_nat split: if_splits)

end
