(* ===== verification/Retry.thy ===== *)
theory Retry
  imports Host Rust_Strings
begin

text \<open>
  The errors of the Celestia client (crates/celestia, \<open>src/error.rs\<close>), the retry loop of
  \<open>src/retry.rs\<close> and the backoff of \<open>src/client.rs\<close>, with what bounds them: the number of attempts,
  the pauses, and the values the 64-bit arithmetic can take.
\<close>

datatype celestia_error =
    Cel_ConnectionFailed string
  | Cel_SubmissionFailed string
  | Cel_SubscriptionFailed string
  | Cel_EncodeFailed string
  | Cel_DecodeFailed string
  | Cel_BlobNotFound u64
  | Cel_InvalidConfig string
  | Cel_Internal string

section \<open>Retry with linear backoff\<close>

definition default_max_retries :: u32 where "default_max_retries = 3"
definition default_retry_delay_ms :: u64 where "default_retry_delay_ms = 1000"
definition default_reconnect_delay_ms :: u64 where "default_reconnect_delay_ms = 5000"

definition retry_error :: "string \<Rightarrow> u32 \<Rightarrow> string \<Rightarrow> celestia_error" where
  "retry_error operation_name attempts e =
     Cel_SubmissionFailed (operation_name @ '' failed after '' @ show_nat (unat attempts)
       @ '' attempts: '' @ e)"

lemma unat_inc_below:
  fixes a b :: "'a::len word"
  assumes "a < b"
  shows "unat (a + 1) = unat a + 1"
proof -
  have "unat b < 2 ^ LENGTH('a)" by (rule unsigned_less)
  moreover from assms have "unat a < unat b" by (simp add: word_less_nat_alt)
  ultimately have "unat a + 1 < 2 ^ LENGTH('a)" by linarith
  then show ?thesis by (simp add: unat_word_ariths)
qed

lemma retry_counter_decreases:
  "\<not> m \<le> a + 1 \<Longrightarrow> unat m - unat (a + 1 + 1) < unat m - unat (a + 1)" for m a :: u32
  using unat_inc_below [of "a + 1" m] by (simp add: word_less_nat_alt not_le)

text \<open>
  The loop with its counter. The counter only moves below \<open>max_retries\<close>, so it cannot wrap around;
  the product of the delay can.
\<close>

function with_retry_loop ::
  "'w host \<Rightarrow> string \<Rightarrow> u32 \<Rightarrow> u64 \<Rightarrow> ('w, string + 'a) io \<Rightarrow> u32 \<Rightarrow> ('w, celestia_error + 'a) io"
where
  "with_retry_loop H operation_name max_retries base_delay_ms operation attempts w =
     (let attempts = attempts + 1;
          (r, w1) = operation w
      in case r of
           Inr result \<Rightarrow> (Inr result, w1)
         | Inl e \<Rightarrow>
             if attempts \<ge> max_retries
             then (Inl (retry_error operation_name attempts e), w1)
             else with_retry_loop H operation_name max_retries base_delay_ms operation attempts
                    (sleep_ms H (base_delay_ms * ucast attempts) w1))"
  by pat_completeness auto

termination
  by (relation "measure (\<lambda>(H, n, m, d, f, a, w). unat m - unat (a + 1))")
    (use retry_counter_decreases in auto)

declare with_retry_loop.simps [simp del]

definition with_retry ::
  "'w host \<Rightarrow> string \<Rightarrow> u32 \<Rightarrow> u64 \<Rightarrow> ('w, string + 'a) io \<Rightarrow> ('w, celestia_error + 'a) io" where
  "with_retry H operation_name max_retries base_delay_ms operation =
     with_retry_loop H operation_name max_retries base_delay_ms operation 0"

section \<open>Exponential backoff\<close>

definition calculate_backoff :: "u32 \<Rightarrow> u64 \<Rightarrow> u64 \<Rightarrow> u64" where
  "calculate_backoff failures base_delay_ms max_delay_ms =
     (let backoff = sat_mul base_delay_ms (sat_pow 2 (unat (sat_sub failures 1)))
      in min backoff max_delay_ms)"

section \<open>Properties\<close>

text \<open>One attempt and its pause, the reference for the loop.\<close>

definition retry_attempt ::
  "'w host \<Rightarrow> string \<Rightarrow> u32 \<Rightarrow> u64 \<Rightarrow> ('w, string + 'a) io \<Rightarrow> nat
    \<Rightarrow> ('w, (celestia_error + 'a) option) act" where
  "retry_attempt H operation_name max_retries base_delay_ms operation i w =
     (case operation w of
        (Inr result, w1) \<Rightarrow> Some (Some (Inr result), w1)
      | (Inl e, w1) \<Rightarrow>
          if unat max_retries \<le> i then Some (Some (Inl (retry_error operation_name (of_nat i) e)), w1)
          else Some (None, sleep_ms H (base_delay_ms * of_nat i) w1))"

lemma with_retry_loop_attempts:
  assumes "a = 0 \<or> a < m"
  shows "\<exists>k < max 1 (unat m - unat a). \<exists>w1 r w'.
     after_attempts (retry_attempt H n m d f) k (unat a + 1) w = Some w1 \<and>
     retry_attempt H n m d f (unat a + 1 + k) w1 = Some (Some r, w') \<and>
     with_retry_loop H n m d f a w = (r, w') \<and>
     (\<forall>e. r = Inl e \<longrightarrow> unat a + 1 + k = max 1 (unat m))"
  using assms
proof (induction H n m d f a w rule: with_retry_loop.induct)
  case (1 H n m d f a w)
  obtain r0 w0 where f: "f w = (r0, w0)" by (cases "f w")
  have inc: "unat (a + 1) = unat a + 1"
    using 1(2) unat_inc_below [of a m] by auto
  have cast: "of_nat (unat a + 1) = a + 1" "of_nat (unat a + 1) = (ucast (a + 1) :: u64)"
    using inc by (metis of_nat_unat ucast_id, metis of_nat_unat inc)
  show ?case
  proof (cases r0)
    case (Inr result)
    with f show ?thesis
      by (intro exI [of _ 0]) (simp add: retry_attempt_def with_retry_loop.simps [of H n m d f a])
  next
    case (Inl e)
    show ?thesis
    proof (cases "a + 1 \<ge> m")
      case True
      then have "unat m \<le> unat a + 1" using inc by (simp add: word_le_nat_alt)
      moreover have "unat a + 1 = max 1 (unat m)"
        using 1(2) calculation by (auto simp: word_less_nat_alt)
      ultimately show ?thesis
        using f Inl True cast
        by (intro exI [of _ 0]) (simp add: retry_attempt_def with_retry_loop.simps [of H n m d f a])
    next
      case False
      then have lt: "a + 1 < m" by simp
      then have below: "\<not> unat m \<le> unat a + 1" using inc by (simp add: word_less_nat_alt)
      obtain k w1 r w' where k: "k < max 1 (unat m - unat (a + 1))"
        "after_attempts (retry_attempt H n m d f) k (unat (a + 1) + 1)
          (sleep_ms H (d * ucast (a + 1)) w0) = Some w1"
        "retry_attempt H n m d f (unat (a + 1) + 1 + k) w1 = Some (Some r, w')"
        "with_retry_loop H n m d f (a + 1) (sleep_ms H (d * ucast (a + 1)) w0) = (r, w')"
        "\<forall>e. r = Inl e \<longrightarrow> unat (a + 1) + 1 + k = max 1 (unat m)"
        using 1(1) [OF refl f [symmetric] refl Inl False] lt by auto
      have "retry_attempt H n m d f (unat a + 1) w = Some (None, sleep_ms H (d * ucast (a + 1)) w0)"
        using f Inl below cast(2) by (simp add: retry_attempt_def)
      with k f Inl False below inc show ?thesis
        by (intro exI [of _ "Suc k"]) (auto simp: with_retry_loop.simps [of H n m d f a w])
    qed
  qed
qed

text \<open>
  The retry loop returns, and what it returns is accounted for attempt by attempt. It makes at
  most \<open>max_retries\<close> attempts (one if that is zero), every attempt but the last failed and was
  followed by a pause of the base delay times its number, and the result is that of the last attempt:
  an error only if it was number \<open>max_retries\<close>. The pauses grow linearly, not exponentially.
\<close>

theorem with_retry_result:
  "\<exists>k < max 1 (unat max_retries). \<exists>w1 r w'.
     after_attempts (retry_attempt H name max_retries delay operation) k 1 w = Some w1 \<and>
     retry_attempt H name max_retries delay operation (1 + k) w1 = Some (Some r, w') \<and>
     with_retry H name max_retries delay operation w = (r, w') \<and>
     (1 + k = max 1 (unat max_retries) \<or> (\<exists>result. r = Inr result))"
proof -
  obtain k w1 r w' where k: "k < max 1 (unat max_retries)"
    "after_attempts (retry_attempt H name max_retries delay operation) k 1 w = Some w1"
    "retry_attempt H name max_retries delay operation (1 + k) w1 = Some (Some r, w')"
    "with_retry H name max_retries delay operation w = (r, w')"
    "\<forall>e. r = Inl e \<longrightarrow> 1 + k = max 1 (unat max_retries)"
    using with_retry_loop_attempts [of 0 max_retries H name delay operation w]
    by (auto simp: with_retry_def)
  from k(5) have "1 + k = max 1 (unat max_retries) \<or> (\<exists>result. r = Inr result)"
    by (cases r) simp_all
  with k(1-4) show ?thesis by blast
qed

text \<open>
  The backoff is the doubled base, capped: with every saturation of the 64-bit arithmetic, the
  value is the unbounded \<open>base * 2 ^ (failures - 1)\<close>, or the cap when that is larger, for all
  inputs.
\<close>

theorem calculate_backoff_value:
  "unat (calculate_backoff failures base cap) =
     min (unat base * 2 ^ (unat failures - 1)) (unat cap)"
proof -
  let ?M = "2 ^ 64 - 1 :: nat" and ?n = "unat failures - 1"
  have "unat cap < 2 ^ 64"
    using unsigned_less [where w = cap, where ?'a = nat] by simp
  then have cap: "unat cap \<le> ?M" by simp
  have "unat (calculate_backoff failures base cap) =
      min (min (unat base * min (2 ^ ?n) ?M) ?M) (unat cap)"
    by (simp add: calculate_backoff_def Let_def min_def word_le_nat_alt unat_sat_mul unat_sat_pow
        unat_sat_sub)
  also have "\<dots> = min (unat base * 2 ^ ?n) (unat cap)"
  proof (cases "(2::nat) ^ ?n \<le> ?M \<or> unat base = 0")
    case True
    with cap show ?thesis by (auto simp: min_def)
  next
    case False
    then have "1 \<le> unat base" "?M \<le> 2 ^ ?n" by linarith+
    then have "1 * ?M \<le> unat base * ?M" "1 * ?M \<le> unat base * 2 ^ ?n"
      by (intro mult_le_mono; simp)+
    then have "min (unat base * ?M) ?M = ?M" "min (unat base * 2 ^ ?n) (unat cap) = unat cap"
      using cap by (intro min_absorb2; simp)+
    moreover have "min (2 ^ ?n) ?M = ?M" "min ?M (unat cap) = unat cap"
      using False cap by (intro min_absorb2; simp)+
    ultimately show ?thesis by (simp only:)
  qed
  finally show ?thesis .
qed

end
