(* ===== verification/Chain_Config.thy ===== *)
theory Chain_Config
  imports Host Rust_Strings Complex_Main
begin

text \<open>
  The configuration: its types and defaults (crates/types, \<open>src/config.rs\<close>), loading and validation
  (crates/sequencer, \<open>src/config.rs\<close>). The TOML parser, keccak256 and the derivation of an ed25519
  key from a seed are arguments; paths are strings; the gas price, a float the code only passes on,
  is the rational number it is written as.
\<close>

section \<open>Configuration types\<close>

datatype block_timing = Vanilla | Subsecond

record consensus_config =
  cs_validator_seeds :: "u64 list"
  cs_validators :: "address list"
  cs_private_key_path :: string
  cs_validator_seed :: "u64 option"
  cs_listen_addr :: string
  cs_dialable_addr :: "string option"
  cs_p2p_port :: u16
  cs_peers :: "string list"
  cs_leader_timeout_ms :: u64
  cs_notarization_timeout_ms :: u64
  cs_nullify_retry_ms :: u64
  cs_namespace :: string
  cs_storage_dir :: string
  cs_allow_private_ips :: bool
  cs_block_timing :: block_timing

record celestia_config =
  ce_bridge_addr :: string
  ce_bridge_auth_token :: string
  ce_bridge_tls_enabled :: bool
  ce_core_grpc_addr :: string
  ce_core_grpc_auth_token :: string
  ce_core_grpc_tls_enabled :: bool
  ce_celestia_key_path :: string
  ce_namespace :: string
  ce_gas_price :: rat
  ce_batch_interval_ms :: u64
  ce_max_batch_size_bytes :: u64
  ce_genesis_da_height :: u64
  ce_genesis_block_hash :: "string option"
  ce_index_path :: string

record execution_config =
  xc_reth_url :: string
  xc_jwt_secret_path :: string

record chain_config =
  cg_chain_id :: u64
  cg_consensus :: consensus_config
  cg_celestia :: celestia_config
  cg_execution :: execution_config

section \<open>Defaults\<close>

definition P2P_PORT :: u16 where "P2P_PORT = 26656"
definition LEADER_TIMEOUT_MS :: u64 where "LEADER_TIMEOUT_MS = 2000"
definition NOTARIZATION_TIMEOUT_MS :: u64 where "NOTARIZATION_TIMEOUT_MS = 3000"
definition NULLIFY_RETRY_MS :: u64 where "NULLIFY_RETRY_MS = 10000"
definition ALLOW_PRIVATE_IPS :: bool where "ALLOW_PRIVATE_IPS = True"
definition GAS_PRICE :: rat where "GAS_PRICE = 2 / 1000"
definition BATCH_INTERVAL_MS :: u64 where "BATCH_INTERVAL_MS = 5000"
definition MAX_BATCH_SIZE_BYTES :: u64 where "MAX_BATCH_SIZE_BYTES = 1500000"
definition storage_dir :: string where "storage_dir = ''./consensus-data''"
definition index_path :: string where "index_path = ''data/celestia-index''"
definition namespace_default :: string where "namespace_default = ''rkb-sequencer''"

section \<open>Loading\<close>

datatype config_error = CE_Io string | CE_Parse string

text \<open>\<open>ChainConfig::load\<close>.\<close>

definition chain_config_load ::
  "'w host \<Rightarrow> (string \<Rightarrow> string + chain_config) \<Rightarrow> string \<Rightarrow> ('w, config_error + chain_config) io" where
  "chain_config_load H toml path w =
     (let (content, w1) = read_file H path w in
      case content of
        Inl e \<Rightarrow> (Inl (CE_Io e), w1)
      | Inr text \<Rightarrow> (map_err CE_Parse (toml text), w1))"

text \<open>The last twenty bytes of the hash are its low 160 bits.\<close>

definition derive_address :: "(bytes \<Rightarrow> b256) \<Rightarrow> bytes \<Rightarrow> address" where
  "derive_address keccak256 pubkey = ucast (keccak256 pubkey)"

definition validate_chain :: "chain_config \<Rightarrow> string + unit" where
  "validate_chain c = (if cg_chain_id c = 0 then Inl ''chain_id must be non-zero'' else Inr ())"

definition validate_consensus :: "chain_config \<Rightarrow> string + unit" where
  "validate_consensus c =
     (if cs_validators (cg_consensus c) = []
      then Inl ''at least one validator is required (set validator_seeds or validators)''
      else Inr ())"

definition validate_celestia :: "chain_config \<Rightarrow> string + unit" where
  "validate_celestia c =
     (if ce_bridge_addr (cg_celestia c) = [] then Inl ''celestia bridge_addr is required''
      else if ce_core_grpc_addr (cg_celestia c) = [] then Inl ''celestia core_grpc_addr is required''
      else Inr ())"

definition validate_execution :: "chain_config \<Rightarrow> string + unit" where
  "validate_execution c =
     (if xc_reth_url (cg_execution c) = [] then Inl ''reth_url is required'' else Inr ())"

definition validate :: "chain_config \<Rightarrow> string + unit" where
  "validate c =
     (case validate_chain c of Inl e \<Rightarrow> Inl e | Inr _ \<Rightarrow>
     (case validate_consensus c of Inl e \<Rightarrow> Inl e | Inr _ \<Rightarrow>
     (case validate_celestia c of Inl e \<Rightarrow> Inl e | Inr _ \<Rightarrow>
     (case validate_execution c of Inl e \<Rightarrow> Inl e | Inr _ \<Rightarrow> Inr ()))))"

definition derive_validators ::
  "(bytes \<Rightarrow> b256) \<Rightarrow> (u64 \<Rightarrow> bytes) \<Rightarrow> chain_config \<Rightarrow> chain_config" where
  "derive_validators keccak256 pubkey_of_seed c =
     (if cs_validators (cg_consensus c) = [] \<and> cs_validator_seeds (cg_consensus c) \<noteq> []
      then c\<lparr>cg_consensus := (cg_consensus c)\<lparr>cs_validators :=
             map (\<lambda>seed. derive_address keccak256 (pubkey_of_seed seed))
               (cs_validator_seeds (cg_consensus c))\<rparr>\<rparr>
      else c)"

definition config_load ::
  "'w host \<Rightarrow> (string \<Rightarrow> string + chain_config) \<Rightarrow> (bytes \<Rightarrow> b256) \<Rightarrow> (u64 \<Rightarrow> bytes) \<Rightarrow> string
    \<Rightarrow> ('w, string + chain_config) io" where
  "config_load H toml keccak256 pubkey_of_seed path w =
     (let (contents, w1) = read_file H path w in
      case contents of
        Inl e \<Rightarrow> (Inl (''failed to read config file: '' @ path @ '': '' @ e), w1)
      | Inr text \<Rightarrow>
          (case toml text of
             Inl e \<Rightarrow> (Inl (''failed to parse configuration: '' @ e), w1)
           | Inr config \<Rightarrow>
               (let config = derive_validators keccak256 pubkey_of_seed config in
                case validate config of
                  Inl e \<Rightarrow> (Inl e, w1)
                | Inr _ \<Rightarrow> (Inr config, w1))))"

section \<open>The default configuration\<close>

definition default_consensus :: "address \<Rightarrow> consensus_config" where
  "default_consensus validator_addr =
     \<lparr>cs_validator_seeds = [0],
      cs_validators = [validator_addr],
      cs_private_key_path = ''validator.key'',
      cs_validator_seed = Some 0,
      cs_listen_addr = ''0.0.0.0:26656'',
      cs_dialable_addr = None,
      cs_p2p_port = 26656,
      cs_peers = [],
      cs_leader_timeout_ms = 2000,
      cs_notarization_timeout_ms = 3000,
      cs_nullify_retry_ms = 10000,
      cs_namespace = ''rkb-sequencer'',
      cs_storage_dir = ''./consensus-data'',
      cs_allow_private_ips = True,
      cs_block_timing = Vanilla\<rparr>"

definition default_celestia :: celestia_config where
  "default_celestia =
     \<lparr>ce_bridge_addr = ''http://localhost:26658'',
      ce_bridge_auth_token = [],
      ce_bridge_tls_enabled = False,
      ce_core_grpc_addr = ''localhost:9090'',
      ce_core_grpc_auth_token = [],
      ce_core_grpc_tls_enabled = False,
      ce_celestia_key_path = ''celestia.key'',
      ce_namespace = ''726b62'',
      ce_gas_price = 2 / 1000,
      ce_batch_interval_ms = 5000,
      ce_max_batch_size_bytes = 1500000,
      ce_genesis_da_height = 0,
      ce_genesis_block_hash = None,
      ce_index_path = ''data/celestia-index''\<rparr>"

definition default_execution :: execution_config where
  "default_execution =
     \<lparr>xc_reth_url = ''http://localhost:8551'', xc_jwt_secret_path = ''jwt.hex''\<rparr>"

definition default_config :: "(bytes \<Rightarrow> b256) \<Rightarrow> (u64 \<Rightarrow> bytes) \<Rightarrow> chain_config" where
  "default_config keccak256 pubkey_of_seed =
     (let validator_addr = derive_address keccak256 (pubkey_of_seed 0) in
      \<lparr>cg_chain_id = 1337,
       cg_consensus = default_consensus validator_addr,
       cg_celestia = default_celestia,
       cg_execution = default_execution\<rparr>)"

section \<open>Properties\<close>

text \<open>What a valid configuration is.\<close>

definition config_valid :: "chain_config \<Rightarrow> bool" where
  "config_valid c \<longleftrightarrow> cg_chain_id c \<noteq> 0 \<and> cs_validators (cg_consensus c) \<noteq> [] \<and>
     ce_bridge_addr (cg_celestia c) \<noteq> [] \<and> ce_core_grpc_addr (cg_celestia c) \<noteq> [] \<and>
     xc_reth_url (cg_execution c) \<noteq> []"

lemma validate_iff: "validate c = Inr () \<longleftrightarrow> config_valid c"
  by (simp add: validate_def validate_chain_def validate_consensus_def validate_celestia_def
      validate_execution_def config_valid_def)

text \<open>
  A configuration that loads is valid and is the one in the file. Loading succeeds exactly when
  the file reads, parses, and is valid once missing validator addresses are derived from the seeds,
  one address per seed and in their order; nothing else of the parsed configuration changes.
\<close>

theorem config_load_result:
  "config_load H toml keccak256 pubkey_of_seed path w = (Inr c, w') \<longleftrightarrow>
     (\<exists>text c0. read_file H path w = (Inr text, w') \<and> toml text = Inr c0 \<and>
        c = derive_validators keccak256 pubkey_of_seed c0 \<and> config_valid c \<and>
        (if cs_validators (cg_consensus c0) \<noteq> [] then c = c0
         else length (cs_validators (cg_consensus c)) = length (cs_validator_seeds (cg_consensus c0))))"
proof -
  have "if cs_validators (cg_consensus c0) \<noteq> []
      then derive_validators keccak256 pubkey_of_seed c0 = c0
      else length (cs_validators (cg_consensus (derive_validators keccak256 pubkey_of_seed c0))) =
        length (cs_validator_seeds (cg_consensus c0))" for c0
    by (simp add: derive_validators_def)
  then show ?thesis
    by (cases "read_file H path w")
      (auto simp: config_load_def Let_def validate_iff [symmetric] simp del: split_paired_Ex
        split: sum.splits if_splits)
qed

text \<open>
  The generated default configuration is valid, so that it loads again, and agrees with the
  defaults that a configuration file gets for the fields it leaves out.
\<close>

theorem default_config_agrees:
  "let c = default_config keccak256 pubkey_of_seed in
     validate c = Inr () \<and> derive_validators keccak256 pubkey_of_seed c = c \<and>
     cs_validators (cg_consensus c) =
       map (\<lambda>seed. derive_address keccak256 (pubkey_of_seed seed)) (cs_validator_seeds (cg_consensus c)) \<and>
     cs_p2p_port (cg_consensus c) = P2P_PORT \<and>
     cs_leader_timeout_ms (cg_consensus c) = LEADER_TIMEOUT_MS \<and>
     cs_notarization_timeout_ms (cg_consensus c) = NOTARIZATION_TIMEOUT_MS \<and>
     cs_nullify_retry_ms (cg_consensus c) = NULLIFY_RETRY_MS \<and>
     cs_allow_private_ips (cg_consensus c) = ALLOW_PRIVATE_IPS \<and>
     cs_namespace (cg_consensus c) = namespace_default \<and>
     cs_storage_dir (cg_consensus c) = storage_dir \<and>
     ce_gas_price (cg_celestia c) = GAS_PRICE \<and>
     ce_batch_interval_ms (cg_celestia c) = BATCH_INTERVAL_MS \<and>
     ce_max_batch_size_bytes (cg_celestia c) = MAX_BATCH_SIZE_BYTES \<and>
     ce_index_path (cg_celestia c) = index_path"
  by (simp add: default_config_def default_consensus_def default_celestia_def default_execution_def
      validate_iff config_valid_def derive_validators_def P2P_PORT_def LEADER_TIMEOUT_MS_def
      NOTARIZATION_TIMEOUT_MS_def NULLIFY_RETRY_MS_def ALLOW_PRIVATE_IPS_def namespace_default_def
      storage_dir_def GAS_PRICE_def BATCH_INTERVAL_MS_def MAX_BATCH_SIZE_BYTES_def index_path_def)

end
