(* ===== verification/Block_Types.thy ===== *)
theory Block_Types
  imports Prelude Rust_Strings
begin

text \<open>
  The shared data of crates/types: transactions, block headers, blocks and their construction
  (\<open>src/transaction.rs\<close>, \<open>src/block.rs\<close>), validator signatures, and the serde helpers that write
  byte arrays as hexadecimal strings (\<open>src/serde_helpers.rs\<close>). The hash function keccak256, the
  derived RLP encoding, the codec and verification of ed25519 and the crate \<open>hex\<close> are not part of
  the repository: they are arguments of the definitions that call them.
\<close>

section \<open>Transactions\<close>

record transaction =
  tx_data :: bytes

definition transaction_new :: "bytes \<Rightarrow> transaction" where
  "transaction_new d = \<lparr>tx_data = d\<rparr>"

definition transaction_into_data :: "transaction \<Rightarrow> bytes" where
  "transaction_into_data t = tx_data t"

definition transaction_len :: "transaction \<Rightarrow> nat" where
  "transaction_len t = length (tx_data t)"

definition transaction_is_empty :: "transaction \<Rightarrow> bool" where
  "transaction_is_empty t \<longleftrightarrow> tx_data t = []"

definition transaction_hash :: "(bytes \<Rightarrow> b256) \<Rightarrow> transaction \<Rightarrow> b256" where
  "transaction_hash keccak256 t = keccak256 (tx_data t)"

lemma tx_data_new [simp]: "tx_data (transaction_new d) = d"
  by (simp add: transaction_new_def)

lemma transaction_new_data [simp]: "transaction_new (tx_data t) = t"
  by (simp add: transaction_new_def)

section \<open>Blocks\<close>

record block_header =
  hdr_height :: u64
  hdr_timestamp :: u64
  hdr_parent_hash :: b256
  hdr_proposer :: address

record signature =
  sig_validator :: address
  sig_public_key_bytes :: bytes
  sig_signature_bytes :: bytes

record block =
  blk_header :: block_header
  blk_transactions :: "transaction list"
  blk_signatures :: "signature list"
  blk_state_root :: b256
  blk_receipts_root :: b256
  blk_logs_bloom :: bytes
  blk_prev_randao :: b256
  blk_extra_data :: bytes
  blk_gas_used :: u64
  blk_gas_limit :: u64
  blk_base_fee_per_gas :: u64
  blk_block_hash :: b256

record block_params =
  bp_header :: block_header
  bp_transactions :: "transaction list"
  bp_state_root :: b256
  bp_receipts_root :: b256
  bp_logs_bloom :: bytes
  bp_prev_randao :: b256
  bp_extra_data :: bytes
  bp_gas_used :: u64
  bp_gas_limit :: u64
  bp_base_fee_per_gas :: u64
  bp_block_hash :: b256

definition block_new :: "block_params \<Rightarrow> block" where
  "block_new p =
     \<lparr>blk_header = bp_header p,
      blk_transactions = bp_transactions p,
      blk_signatures = [],
      blk_state_root = bp_state_root p,
      blk_receipts_root = bp_receipts_root p,
      blk_logs_bloom = bp_logs_bloom p,
      blk_prev_randao = bp_prev_randao p,
      blk_extra_data = bp_extra_data p,
      blk_gas_used = bp_gas_used p,
      blk_gas_limit = bp_gas_limit p,
      blk_base_fee_per_gas = bp_base_fee_per_gas p,
      blk_block_hash = bp_block_hash p\<rparr>"

definition block_header_hash :: "(bytes \<Rightarrow> b256) \<Rightarrow> (block_header \<Rightarrow> bytes) \<Rightarrow> block \<Rightarrow> b256" where
  "block_header_hash keccak256 rlp_encode b = keccak256 (rlp_encode (blk_header b))"

definition block_height :: "block \<Rightarrow> u64" where
  "block_height b = hdr_height (blk_header b)"

definition block_timestamp :: "block \<Rightarrow> u64" where
  "block_timestamp b = hdr_timestamp (blk_header b)"

definition block_parent_hash :: "block \<Rightarrow> b256" where
  "block_parent_hash b = hdr_parent_hash (blk_header b)"

definition block_tx_count :: "block \<Rightarrow> nat" where
  "block_tx_count b = length (blk_transactions b)"

lemmas block_access = block_height_def block_timestamp_def block_parent_hash_def block_tx_count_def

text \<open>\<open>Block::test_block\<close>, the block the unit tests of the repository use.\<close>

definition test_block :: "block_header \<Rightarrow> transaction list \<Rightarrow> block" where
  "test_block h txs =
     \<lparr>blk_header = h,
      blk_transactions = txs,
      blk_signatures = [],
      blk_state_root = 0,
      blk_receipts_root = 0,
      blk_logs_bloom = [],
      blk_prev_randao = 0,
      blk_extra_data = [],
      blk_gas_used = 0,
      blk_gas_limit = 30000000,
      blk_base_fee_per_gas = 1000000000,
      blk_block_hash = 0\<rparr>"

section \<open>Signatures\<close>

text \<open>
  Writing into a zeroed fixed-size buffer through a \<open>BufMut\<close> slice: too much data panics, too
  little leaves the zeros. The functions \<open>write\<close> and \<open>read\<close> of the codec and the verification are
  arguments.
\<close>

definition write_fixed :: "nat \<Rightarrow> bytes \<Rightarrow> bytes option" where
  "write_fixed n bs = (if length bs \<le> n then Some (bs @ replicate (n - length bs) 0) else None)"

definition signature_new ::
  "('pk \<Rightarrow> bytes) \<Rightarrow> ('sg \<Rightarrow> bytes) \<Rightarrow> address \<Rightarrow> 'pk \<Rightarrow> 'sg \<Rightarrow> signature option" where
  "signature_new pk_write sg_write validator pk sg =
     do {
       pk_bytes \<leftarrow> write_fixed 32 (pk_write pk);
       sig_bytes \<leftarrow> write_fixed 64 (sg_write sg);
       Some \<lparr>sig_validator = validator,
             sig_public_key_bytes = pk_bytes,
             sig_signature_bytes = sig_bytes\<rparr>
     }"

definition signature_public_key :: "(bytes \<Rightarrow> 'pk option) \<Rightarrow> signature \<Rightarrow> 'pk option" where
  "signature_public_key pk_read s = pk_read (sig_public_key_bytes s)"

definition signature_signature :: "(bytes \<Rightarrow> 'sg option) \<Rightarrow> signature \<Rightarrow> 'sg option" where
  "signature_signature sg_read s = sg_read (sig_signature_bytes s)"

definition signature_verify ::
  "(bytes \<Rightarrow> 'pk option) \<Rightarrow> (bytes \<Rightarrow> 'sg option) \<Rightarrow> ('pk \<Rightarrow> bytes \<Rightarrow> bytes \<Rightarrow> 'sg \<Rightarrow> bool)
    \<Rightarrow> signature \<Rightarrow> bytes \<Rightarrow> bytes \<Rightarrow> bool" where
  "signature_verify pk_read sg_read ed_verify s namespace message =
     (case signature_public_key pk_read s of
        None \<Rightarrow> False
      | Some public_key \<Rightarrow>
          (case signature_signature sg_read s of
             None \<Rightarrow> False
           | Some sg \<Rightarrow> ed_verify public_key namespace message sg))"

lemma write_fixed_exact: "length bs = n \<Longrightarrow> write_fixed n bs = Some bs"
  by (simp add: write_fixed_def)

lemma write_fixed_length: "write_fixed n bs = Some out \<Longrightarrow> length out = n"
  by (auto simp: write_fixed_def split: if_splits)

lemma signature_new_widths:
  "signature_new pk_write sg_write v pk sg = Some s \<Longrightarrow>
     length (sig_public_key_bytes s) = 32 \<and> length (sig_signature_bytes s) = 64"
  by (auto simp: signature_new_def bind_eq_Some_conv dest: write_fixed_length)

section \<open>Hexadecimal serde helpers\<close>

definition hex_fixed_serialize :: "(bytes \<Rightarrow> string) \<Rightarrow> bytes \<Rightarrow> string" where
  "hex_fixed_serialize hex_encode bs = hex_encode bs"

definition hex_fixed_deserialize ::
  "(string \<Rightarrow> string + bytes) \<Rightarrow> nat \<Rightarrow> string \<Rightarrow> string + bytes" where
  "hex_fixed_deserialize hex_decode n s =
     (case hex_decode s of
        Inl e \<Rightarrow> Inl e
      | Inr bs \<Rightarrow>
          if length bs = n then Inr bs
          else Inl (''expected '' @ show_nat n @ '' bytes, got '' @ show_nat (length bs)))"

definition hex_vec_serialize :: "(bytes \<Rightarrow> string) \<Rightarrow> bytes \<Rightarrow> string" where
  "hex_vec_serialize hex_encode bs = hex_encode bs"

definition hex_vec_deserialize :: "(string \<Rightarrow> string + bytes) \<Rightarrow> string \<Rightarrow> string + bytes" where
  "hex_vec_deserialize hex_decode s = hex_decode s"

lemma hex_fixed_deserialize_Inr:
  "hex_fixed_deserialize hex_decode n s = Inr bs \<longleftrightarrow> hex_decode s = Inr bs \<and> length bs = n"
  by (auto simp: hex_fixed_deserialize_def split: sum.splits)

end
