(* ===== verification/Celestia_Client.thy ===== *)
theory Celestia_Client
  imports Finality Retry Chain_Config Block_Types
begin

text \<open>
  The Celestia client (crates/celestia, \<open>src/client.rs\<close> and the trait of \<open>src/lib.rs\<close>): building it
  from the configuration, submitting blocks as blobs, fetching and verifying them, and the finality
  tracker loop over header subscriptions. The Lumina and RPC clients, bincode, blobs (\<open>'b\<close>) and
  headers (\<open>'h\<close>) belong to other packages: they are the fields of \<open>da_env\<close>. A header subscription
  is the list of what it delivers until it ends.
\<close>

section \<open>Building the client\<close>

record lumina_builder =
  lb_rpc_url :: string
  lb_grpc_url :: string
  lb_private_key_hex :: string
  lb_rpc_auth_token :: "string option"
  lb_grpc_metadata :: "(string \<times> string) list"

record 'w celestia_libs =
  cl_hex_decode :: "string \<Rightarrow> string + bytes"
  cl_namespace_new_v0 :: "bytes \<Rightarrow> string + bytes"
  cl_path_exists :: "string \<Rightarrow> ('w, bool) io"
  cl_build_lumina :: "lumina_builder \<Rightarrow> ('w, string + unit) io"
  cl_build_rpc :: "string \<Rightarrow> string option \<Rightarrow> ('w, string + unit) io"

definition validate_config :: "celestia_config \<Rightarrow> celestia_error + unit" where
  "validate_config c =
     (if ce_bridge_addr c = [] then Inl (Cel_InvalidConfig ''bridge_addr cannot be empty'')
      else if ce_core_grpc_addr c = []
      then Inl (Cel_InvalidConfig ''core_grpc_addr cannot be empty'')
      else Inr ())"

definition parse_namespace :: "'w celestia_libs \<Rightarrow> string \<Rightarrow> celestia_error + bytes" where
  "parse_namespace L namespace_hex =
     (case map_err (\<lambda>e. Cel_InvalidConfig (''invalid namespace hex: '' @ e))
             (cl_hex_decode L namespace_hex) of
        Inl e \<Rightarrow> Inl e
      | Inr bs \<Rightarrow> map_err (\<lambda>e. Cel_InvalidConfig (''invalid namespace: '' @ e))
                  (cl_namespace_new_v0 L bs))"

definition load_celestia_key ::
  "'w celestia_libs \<Rightarrow> 'w host \<Rightarrow> string \<Rightarrow> ('w, celestia_error + string) io" where
  "load_celestia_key L H path w =
     (let (found, w1) = cl_path_exists L path w in
      if \<not> found then (Inl (Cel_InvalidConfig (''celestia key not found at '' @ path)), w1)
      else let (key, w2) = read_file H path w1 in
        case key of
          Inl e \<Rightarrow> (Inl (Cel_InvalidConfig (''failed to read celestia key: '' @ e)), w2)
        | Inr k \<Rightarrow> (Inr (trim k), w2))"

definition build_grpc_url :: "string \<Rightarrow> bool \<Rightarrow> string" where
  "build_grpc_url addr tls_enabled =
     (if starts_with addr ''http://'' \<or> starts_with addr ''https://'' then addr
      else if tls_enabled then ''https://'' @ addr
      else ''http://'' @ addr)"

definition build_lumina_client ::
  "'w celestia_libs \<Rightarrow> celestia_config \<Rightarrow> string \<Rightarrow> string \<Rightarrow> ('w, celestia_error + unit) io" where
  "build_lumina_client L c grpc_url private_key_hex w =
     (let builder = \<lparr>lb_rpc_url = ce_bridge_addr c, lb_grpc_url = grpc_url,
                     lb_private_key_hex = private_key_hex,
                     lb_rpc_auth_token = None, lb_grpc_metadata = []\<rparr>;
          builder = (if ce_bridge_auth_token c \<noteq> []
                     then builder\<lparr>lb_rpc_auth_token := Some (ce_bridge_auth_token c)\<rparr> else builder);
          builder = (if ce_core_grpc_auth_token c \<noteq> []
                     then builder\<lparr>lb_grpc_metadata := lb_grpc_metadata builder @
                            [(''authorization'', ce_core_grpc_auth_token c)]\<rparr> else builder);
          (r, w1) = cl_build_lumina L builder w
      in (map_err (\<lambda>e. Cel_ConnectionFailed (''lumina client: '' @ e)) r, w1))"

definition build_rpc_client ::
  "'w celestia_libs \<Rightarrow> celestia_config \<Rightarrow> ('w, celestia_error + unit) io" where
  "build_rpc_client L c w =
     (let auth = (if ce_bridge_auth_token c = [] then None else Some (ce_bridge_auth_token c));
          (r, w1) = cl_build_rpc L (ce_bridge_addr c) auth w
      in (map_err (\<lambda>e. Cel_ConnectionFailed (''rpc client: '' @ e)) r, w1))"

text \<open>The result of \<open>new\<close> is the parsed namespace; the rest of the client is its configuration.\<close>

definition celestia_new ::
  "'w celestia_libs \<Rightarrow> 'w host \<Rightarrow> celestia_config \<Rightarrow> ('w, celestia_error + bytes) io" where
  "celestia_new L H c w =
     (case validate_config c of Inl e \<Rightarrow> (Inl e, w) | Inr _ \<Rightarrow>
     (case parse_namespace L (ce_namespace c) of Inl e \<Rightarrow> (Inl e, w) | Inr namespace \<Rightarrow>
      let (key, w1) = load_celestia_key L H (ce_celestia_key_path c) w in
     (case key of Inl e \<Rightarrow> (Inl e, w1) | Inr private_key_hex \<Rightarrow>
      let grpc_url = build_grpc_url (ce_core_grpc_addr c) (ce_core_grpc_tls_enabled c);
          (lumina, w2) = build_lumina_client L c grpc_url private_key_hex w1 in
     (case lumina of Inl e \<Rightarrow> (Inl e, w2) | Inr _ \<Rightarrow>
      let (rpc, w3) = build_rpc_client L c w2 in
     (case rpc of Inl e \<Rightarrow> (Inl e, w3) | Inr _ \<Rightarrow> (Inr namespace, w3))))))"

section \<open>The environment of a client\<close>

record ('w, 'b, 'h) da_env =
  da_config :: celestia_config
  da_host :: "'w host"
  da_namespace :: bytes
  da_address :: "string + string"
  da_encode :: "block \<Rightarrow> string + bytes"
  da_decode :: "bytes \<Rightarrow> string + block"
  da_blob_new :: "bytes \<Rightarrow> bytes \<Rightarrow> string \<Rightarrow> string + 'b"
  da_blob_data :: "'b \<Rightarrow> bytes"
  da_blob_commitment :: "'b \<Rightarrow> bytes"
  da_submit :: "'b list \<Rightarrow> rat \<Rightarrow> ('w, string + u64) io"
  da_get_all :: "u64 \<Rightarrow> bytes \<Rightarrow> ('w, string + 'b list option) io"
  da_subscribe :: "('w, (string + 'h) list) io"
  da_header_height :: "'h \<Rightarrow> u64"
  da_header_hash :: "'h \<Rightarrow> bytes"
  da_now :: "('w, nat) io"
  da_pending_order :: "(b256 \<rightharpoonup> pending_finality) \<Rightarrow> b256 list"

text \<open>
  The mutable part of a client: the tracker, what has been sent on the finality channel and to the
  broadcast subscribers, and whether the receiver of the channel still exists.
\<close>

record da_state =
  ds_tracker :: finality_tracker
  ds_finality_tx :: "finality_confirmation list"
  ds_broadcast :: "finality_confirmation list"
  ds_receiver_dropped :: bool

section \<open>Submitting\<close>

definition encode_block :: "('w, 'b, 'h) da_env \<Rightarrow> block \<Rightarrow> celestia_error + bytes" where
  "encode_block E b = map_err Cel_EncodeFailed (da_encode E b)"

definition decode_block :: "('w, 'b, 'h) da_env \<Rightarrow> bytes \<Rightarrow> celestia_error + block" where
  "decode_block E data = map_err Cel_DecodeFailed (da_decode E data)"

definition submit_with_retry ::
  "('w, 'b, 'h) da_env \<Rightarrow> 'b \<Rightarrow> ('w, celestia_error + u64 \<times> bytes) io" where
  "submit_with_retry E blob w =
     (let commitment = da_blob_commitment E blob;
          (r, w1) = with_retry (da_host E) ''Blob submission'' default_max_retries
             default_retry_delay_ms (da_submit E [blob] (ce_gas_price (da_config E))) w
      in (case r of Inl e \<Rightarrow> Inl e | Inr height \<Rightarrow> Inr (height, commitment), w1))"

definition submit_block ::
  "('w, 'b, 'h) da_env \<Rightarrow> block \<Rightarrow> ('w, celestia_error + blob_submission) io" where
  "submit_block E b w =
     (case encode_block E b of Inl e \<Rightarrow> (Inl e, w) | Inr blob_data \<Rightarrow>
     (case da_address E of
        Inl e \<Rightarrow> (Inl (Cel_Internal (''failed to get address: '' @ e)), w)
      | Inr address \<Rightarrow>
     (case da_blob_new E (da_namespace E) blob_data address of
        Inl e \<Rightarrow> (Inl (Cel_EncodeFailed (''failed to create blob: '' @ e)), w)
      | Inr blob \<Rightarrow>
      let (r, w1) = submit_with_retry E blob w in
     (case r of
        Inl e \<Rightarrow> (Inl e, w1)
      | Inr (celestia_height, commitment) \<Rightarrow>
          (Inr \<lparr>bs_block_hash = blk_block_hash b, bs_block_height = block_height b,
               bs_celestia_height = celestia_height, bs_commitment = commitment\<rparr>, w1)))))"

definition create_blob_for_block :: "('w, 'b, 'h) da_env \<Rightarrow> block \<Rightarrow> celestia_error + 'b" where
  "create_blob_for_block E b =
     (case da_address E of
        Inl e \<Rightarrow> Inl (Cel_Internal (''failed to get address: '' @ e))
      | Inr address \<Rightarrow>
          (case encode_block E b of
             Inl e \<Rightarrow> Inl e
           | Inr data \<Rightarrow>
               map_err (\<lambda>e. Cel_EncodeFailed (''failed to create blob: '' @ e))
                 (da_blob_new E (da_namespace E) data address)))"

text \<open>The pushes of the loop give two lists of equal length: blobs and (hash, height) pairs.\<close>

fun create_blobs_for_blocks ::
  "('w, 'b, 'h) da_env \<Rightarrow> block list \<Rightarrow> celestia_error + 'b list \<times> (b256 \<times> u64) list" where
  "create_blobs_for_blocks E [] = Inr ([], [])"
| "create_blobs_for_blocks E (b # bs) =
     (case create_blob_for_block E b of
        Inl e \<Rightarrow> Inl e
      | Inr blob \<Rightarrow>
          (case create_blobs_for_blocks E bs of
             Inl e \<Rightarrow> Inl e
           | Inr (blobs, infos) \<Rightarrow>
               Inr (blob # blobs, (blk_block_hash b, block_height b) # infos)))"

definition submit_blobs_with_retry ::
  "('w, 'b, 'h) da_env \<Rightarrow> 'b list \<Rightarrow> ('w, celestia_error + u64) io" where
  "submit_blobs_with_retry E blobs =
     with_retry (da_host E) ''Batch submission'' default_max_retries default_retry_delay_ms
       (da_submit E blobs (ce_gas_price (da_config E)))"

definition build_submissions ::
  "('w, 'b, 'h) da_env \<Rightarrow> 'b list \<Rightarrow> (b256 \<times> u64) list \<Rightarrow> u64 \<Rightarrow> blob_submission list" where
  "build_submissions E blobs infos celestia_height =
     map (\<lambda>((hash, height), blob).
           \<lparr>bs_block_hash = hash, bs_block_height = height,
            bs_celestia_height = celestia_height,
            bs_commitment = da_blob_commitment E blob\<rparr>)
       (zip infos blobs)"

definition submit_blocks ::
  "('w, 'b, 'h) da_env \<Rightarrow> block list \<Rightarrow> ('w, celestia_error + blob_submission list) io" where
  "submit_blocks E blocks w =
     (if blocks = [] then (Inr [], w)
      else case create_blobs_for_blocks E blocks of
        Inl e \<Rightarrow> (Inl e, w)
      | Inr (blobs, block_infos) \<Rightarrow>
          (let (r, w1) = submit_blobs_with_retry E blobs w in
           (case r of
              Inl e \<Rightarrow> Inl e
            | Inr celestia_height \<Rightarrow> Inr (build_submissions E blobs block_infos celestia_height),
            w1)))"

section \<open>Fetching\<close>

definition fetch_blobs ::
  "('w, 'b, 'h) da_env \<Rightarrow> u64 \<Rightarrow> ('w, celestia_error + 'b list option) io" where
  "fetch_blobs E celestia_height w =
     (let (r, w1) = da_get_all E celestia_height (da_namespace E) w
      in (map_err (\<lambda>e. Cel_Internal (''failed to fetch blobs: '' @ e)) r, w1))"

definition try_decode_blob :: "('w, 'b, 'h) da_env \<Rightarrow> 'b \<Rightarrow> block option" where
  "try_decode_blob E blob =
     (case decode_block E (da_blob_data E blob) of Inr b \<Rightarrow> Some b | Inl e \<Rightarrow> None)"

fun decode_blobs :: "('w, 'b, 'h) da_env \<Rightarrow> 'b list \<Rightarrow> block list" where
  "decode_blobs E [] = []"
| "decode_blobs E (blob # blobs) =
     (case try_decode_blob E blob of
        None \<Rightarrow> decode_blobs E blobs
      | Some b \<Rightarrow> b # decode_blobs E blobs)"

definition get_blocks :: "('w, 'b, 'h) da_env \<Rightarrow> u64 \<Rightarrow> ('w, celestia_error + block list) io" where
  "get_blocks E celestia_height w =
     (let (r, w1) = fetch_blobs E celestia_height w in
      (case r of
         Inl e \<Rightarrow> Inl e
       | Inr None \<Rightarrow> Inr []
       | Inr (Some blobs) \<Rightarrow> Inr (decode_blobs E blobs), w1))"

definition get_block :: "('w, 'b, 'h) da_env \<Rightarrow> u64 \<Rightarrow> ('w, celestia_error + block option) io" where
  "get_block E celestia_height w =
     (let (r, w1) = get_blocks E celestia_height w in
      (case r of
         Inl e \<Rightarrow> Inl e
       | Inr [] \<Rightarrow> Inr None
       | Inr (b # bs) \<Rightarrow> Inr (Some b), w1))"

text \<open>The heights of \<open>start..=end\<close>, and the loop that stops at the first error.\<close>

definition inclusive_heights :: "u64 \<Rightarrow> u64 \<Rightarrow> u64 list" where
  "inclusive_heights lo hi = map of_nat [unat lo..<Suc (unat hi)]"

fun collect_range ::
  "('w, 'b, 'h) da_env \<Rightarrow> u64 list \<Rightarrow> (u64 \<times> block) list
    \<Rightarrow> ('w, celestia_error + (u64 \<times> block) list) io" where
  "collect_range E [] all_blocks w = (Inr all_blocks, w)"
| "collect_range E (height # heights) all_blocks w =
     (let (r, w1) = get_blocks E height w in
      case r of
        Inl e \<Rightarrow> (Inl e, w1)
      | Inr blocks \<Rightarrow>
          collect_range E heights (all_blocks @ map (\<lambda>b. (height, b)) blocks) w1)"

definition get_blocks_in_range ::
  "('w, 'b, 'h) da_env \<Rightarrow> u64 \<Rightarrow> u64 \<Rightarrow> ('w, celestia_error + (u64 \<times> block) list) io" where
  "get_blocks_in_range E start end_height w =
     (if start > end_height then (Inr [], w)
      else collect_range E (inclusive_heights start end_height) [] w)"

definition verify_inclusion ::
  "('w, 'b, 'h) da_env \<Rightarrow> u64 \<Rightarrow> bytes \<Rightarrow> ('w, celestia_error + bool) io" where
  "verify_inclusion E celestia_height commitment w =
     (let (r, w1) = fetch_blobs E celestia_height w in
      (case r of
         Inl e \<Rightarrow> Inl e
       | Inr None \<Rightarrow> Inr False
       | Inr (Some blobs) \<Rightarrow> Inr (list_ex (\<lambda>b. da_blob_commitment E b = commitment) blobs), w1))"

definition client_namespace :: "('w, 'b, 'h) da_env \<Rightarrow> string" where
  "client_namespace E = ce_namespace (da_config E)"

definition pending_finality_count :: "('w, 'b, 'h) da_env \<Rightarrow> da_state \<Rightarrow> nat" where
  "pending_finality_count E s = pending_count (da_pending_order E) (ds_tracker s)"

definition client_finalized_height :: "da_state \<Rightarrow> u64" where
  "client_finalized_height s = finalized_height (ds_tracker s)"

definition client_address :: "('w, 'b, 'h) da_env \<Rightarrow> celestia_error + string" where
  "client_address E =
     map_err (\<lambda>e. Cel_Internal (''failed to get address: '' @ e)) (da_address E)"

end
