(* ===== verification/Celestia_Tracker.thy ===== *)
theory Celestia_Tracker
  imports Celestia_Client
begin

text \<open>
  The finality tracker task of the Celestia client (crates/celestia, \<open>src/client.rs\<close>): sessions of a
  header subscription, the confirmations they release, and the reconnection loop with its backoff.
  The loop need not end for every client, so it is a partial function; \<open>None\<close> is a panic or a run
  without end, and the theorem below shows that neither happens.
\<close>

section \<open>Processing headers\<close>

text \<open>\<open>try_into\<close> and \<open>expect\<close>: 32 bytes, or a panic.\<close>

definition b256_of_bytes :: "bytes \<Rightarrow> b256 option" where
  "b256_of_bytes bs =
     (if length bs = 32 then Some (foldl (\<lambda>a b. 256 * a + ucast b) 0 bs) else None)"

definition header_to_b256 :: "('w, 'b, 'h) da_env \<Rightarrow> 'h \<Rightarrow> b256 option" where
  "header_to_b256 E header = b256_of_bytes (da_header_hash E header)"

definition send_confirmation :: "finality_confirmation \<Rightarrow> da_state \<Rightarrow> da_state" where
  "send_confirmation c s =
     (let s = (if ds_receiver_dropped s then s
               else s\<lparr>ds_finality_tx := ds_finality_tx s @ [c]\<rparr>)
      in s\<lparr>ds_broadcast := ds_broadcast s @ [c]\<rparr>)"

fun broadcast_confirmations :: "finality_confirmation list \<Rightarrow> da_state \<Rightarrow> da_state" where
  "broadcast_confirmations [] s = s"
| "broadcast_confirmations (c # cs) s = broadcast_confirmations cs (send_confirmation c s)"

definition process_header ::
  "('w, 'b, 'h) da_env \<Rightarrow> 'h \<Rightarrow> da_state \<times> 'w \<Rightarrow> ((celestia_error + unit) \<times> da_state \<times> 'w) option" where
  "process_header E header sw =
     (case header_to_b256 E header of
        None \<Rightarrow> None
      | Some header_hash \<Rightarrow>
          (let (s, w) = sw;
               (now, w1) = da_now E w;
               (confirmations, tracker) = on_celestia_finality (da_pending_order E) now
                  (da_header_height E header) header_hash (ds_tracker s)
           in Some (Inr (), broadcast_confirmations confirmations (s\<lparr>ds_tracker := tracker\<rparr>), w1)))"

fun process_items ::
  "('w, 'b, 'h) da_env \<Rightarrow> (string + 'h) list \<Rightarrow> da_state \<times> 'w
    \<Rightarrow> ((celestia_error + unit) \<times> da_state \<times> 'w) option" where
  "process_items E [] sw =
     Some (Inl (Cel_SubscriptionFailed ''subscription stream ended''), sw)"
| "process_items E (Inl e # items) sw = Some (Inl (Cel_SubscriptionFailed e), sw)"
| "process_items E (Inr header # items) sw =
     (case process_header E header sw of
        None \<Rightarrow> None
      | Some (Inl e, sw') \<Rightarrow> Some (Inl e, sw')
      | Some (Inr _, sw') \<Rightarrow> process_items E items sw')"

definition run_header_subscription ::
  "('w, 'b, 'h) da_env \<Rightarrow> da_state \<times> 'w \<Rightarrow> ((celestia_error + unit) \<times> da_state \<times> 'w) option" where
  "run_header_subscription E sw =
     (let (s, w) = sw; (items, w1) = da_subscribe E w in process_items E items (s, w1))"

definition track_finality :: "('w, 'b, 'h) da_env \<Rightarrow> blob_submission \<Rightarrow> da_state \<times> 'w \<Rightarrow> da_state \<times> 'w" where
  "track_finality E submission sw =
     (let (s, w) = sw; (now, w1) = da_now E w
      in (s\<lparr>ds_tracker := track now submission (ds_tracker s)\<rparr>, w1))"

text \<open>
  A stream of confirmations: what a broadcast receiver yields, confirmations and notices that it
  lagged by some, without the notices.
\<close>

definition finality_stream :: "(nat + finality_confirmation) list \<Rightarrow> finality_confirmation list" where
  "finality_stream items =
     List.map_filter (\<lambda>r. case r of Inr c \<Rightarrow> Some c | Inl lagged \<Rightarrow> None) items"

section \<open>The reconnection loop\<close>

definition MAX_CONSECUTIVE_FAILURES :: u32 where "MAX_CONSECUTIVE_FAILURES = 10"
definition MAX_BACKOFF_MS :: u64 where "MAX_BACKOFF_MS = 60000"

definition reconnect_pause :: "('w, 'b, 'h) da_env \<Rightarrow> u32 \<Rightarrow> da_state \<times> 'w \<Rightarrow> da_state \<times> 'w" where
  "reconnect_pause E consecutive_failures sw =
     (let backoff_ms = calculate_backoff consecutive_failures default_reconnect_delay_ms MAX_BACKOFF_MS
      in (fst sw, sleep_ms (da_host E) backoff_ms (snd sw)))"

partial_function (option) finality_loop ::
  "('w, 'b, 'h) da_env \<Rightarrow> u32 \<Rightarrow> da_state \<times> 'w \<Rightarrow> ((celestia_error + unit) \<times> da_state \<times> 'w) option" where
  "finality_loop E consecutive_failures sw =
     Option.bind (run_header_subscription E sw) (\<lambda>(r, sw').
     case r of
       Inr _ \<Rightarrow> finality_loop E 0 (reconnect_pause E 0 sw')
     | Inl e \<Rightarrow>
         (let consecutive_failures = consecutive_failures + 1 in
          if consecutive_failures \<ge> MAX_CONSECUTIVE_FAILURES
          then Some (Inl (Cel_SubscriptionFailed ''max consecutive failures (10) reached''), sw')
          else finality_loop E consecutive_failures (reconnect_pause E consecutive_failures sw')))"

definition run_finality_tracker ::
  "('w, 'b, 'h) da_env \<Rightarrow> da_state \<times> 'w \<Rightarrow> ((celestia_error + unit) \<times> da_state \<times> 'w) option" where
  "run_finality_tracker E sw = finality_loop E 0 sw"

section \<open>Properties\<close>

lemma broadcast_confirmations_channels:
  "ds_broadcast (broadcast_confirmations cs s) = ds_broadcast s @ cs"
  "ds_finality_tx (broadcast_confirmations cs s) =
     ds_finality_tx s @ (if ds_receiver_dropped s then [] else cs)"
  "ds_receiver_dropped (broadcast_confirmations cs s) = ds_receiver_dropped s"
  "ds_tracker (broadcast_confirmations cs s) = ds_tracker s"
  by (induction cs arbitrary: s) (auto simp: send_confirmation_def Let_def)

lemma process_items_fails:
  assumes "\<forall>h. length (da_header_hash E h) = 32"
  shows "\<exists>e sw'. process_items E items sw = Some (Inl (Cel_SubscriptionFailed e), sw')"
proof (induction items arbitrary: sw)
  case Nil
  then show ?case by simp
next
  case (Cons i items)
  then show ?case
    using assms
    by (cases i) (auto simp: process_header_def header_to_b256_def b256_of_bytes_def
        split: prod.split)
qed

lemma run_header_subscription_fails:
  assumes "\<forall>h. length (da_header_hash E h) = 32"
  shows "\<exists>e sw'. run_header_subscription E sw = Some (Inl (Cel_SubscriptionFailed e), sw')"
  using process_items_fails [OF assms] by (simp add: run_header_subscription_def split: prod.split)

text \<open>The reference: \<open>n\<close> sessions from failure count \<open>k\<close> on, with the pauses between them.\<close>

fun sessions ::
  "('w, 'b, 'h) da_env \<Rightarrow> nat \<Rightarrow> nat \<Rightarrow> da_state \<times> 'w \<Rightarrow> (da_state \<times> 'w) option" where
  "sessions E k 0 sw = Some sw"
| "sessions E k (Suc n) sw =
     (case run_header_subscription E sw of
        None \<Rightarrow> None
      | Some (r, sw') \<Rightarrow>
          if n = 0 then Some sw' else sessions E (Suc k) n (reconnect_pause E (of_nat (Suc k)) sw'))"

lemma finality_loop_sessions:
  assumes hash: "\<forall>h. length (da_header_hash E h) = 32" and "k + Suc n = 10"
  shows "\<exists>sw'. sessions E k (Suc n) sw = Some sw' \<and>
    finality_loop E (of_nat k) sw =
      Some (Inl (Cel_SubscriptionFailed ''max consecutive failures (10) reached''), sw')"
  using assms(2)
proof (induction n arbitrary: k sw)
  case 0
  then have k: "k = 9" by simp
  obtain e sw' where "run_header_subscription E sw = Some (Inl (Cel_SubscriptionFailed e), sw')"
    using run_header_subscription_fails [OF hash] by blast
  then show ?case
    by (simp add: k finality_loop.simps [of E 9] MAX_CONSECUTIVE_FAILURES_def)
next
  case (Suc n)
  obtain e sw' where s: "run_header_subscription E sw = Some (Inl (Cel_SubscriptionFailed e), sw')"
    using run_header_subscription_fails [OF hash] by blast
  have "\<not> MAX_CONSECUTIVE_FAILURES \<le> of_nat k + 1"
  proof -
    have "unat (of_nat (Suc k) :: u32) = Suc k"
      using Suc.prems by (simp only: unat_of_nat) (simp add: take_bit_nat_eq_self)
    then have "unat (of_nat k + 1 :: u32) = Suc k" by (simp add: add.commute)
    then show ?thesis
      using Suc.prems by (simp add: MAX_CONSECUTIVE_FAILURES_def word_le_nat_alt)
  qed
  with s have "finality_loop E (of_nat k) sw =
      finality_loop E (of_nat (Suc k)) (reconnect_pause E (of_nat (Suc k)) sw')"
    by (simp add: finality_loop.simps [of E "of_nat k"] add.commute Let_def)
  moreover from s have "sessions E k (Suc (Suc n)) sw =
      sessions E (Suc k) (Suc n) (reconnect_pause E (of_nat (Suc k)) sw')"
    by (subst sessions.simps(2)) simp
  ultimately show ?case
    using Suc.IH [of "Suc k" "reconnect_pause E (of_nat (Suc k)) sw'"] Suc.prems by (simp only:)
qed

text \<open>
  C40: the finality tracker ends after ten sessions. Whatever the subscriptions deliver, as long as
  each of them ends, the loop returns an error after exactly ten sessions, nine pauses among them:
  a session never ends with \<open>Ok\<close>, so the count of consecutive failures is never reset, also not
  by sessions that delivered headers.
\<close>

theorem finality_tracker_stops:
  assumes "\<forall>h. length (da_header_hash E h) = 32"
  shows "\<exists>sw'. sessions E 0 10 sw = Some sw' \<and>
    run_finality_tracker E sw =
      Some (Inl (Cel_SubscriptionFailed ''max consecutive failures (10) reached''), sw')"
proof -
  have "(10 :: nat) = Suc 9" by simp
  then show ?thesis
    using finality_loop_sessions [OF assms, of 0 9 sw] by (simp only: run_finality_tracker_def) simp
qed

text \<open>
  A header sends exactly its confirmations, in order, to the broadcast subscribers and, while the
  receiver exists, on the finality channel; the tracker afterwards is the one the finality
  tracker leaves, with the header's height.
\<close>

theorem process_header_sends:
  assumes "header_to_b256 E h = Some hh" "da_now E w = (now, w1)"
    and "on_celestia_finality (da_pending_order E) now (da_header_height E h) hh (ds_tracker s) = (cs, t)"
  shows "\<exists>s'. process_header E h (s, w) = Some (Inr (), s', w1) \<and> ds_tracker s' = t \<and>
    ft_finalized_height t = da_header_height E h \<and>
    ds_broadcast s' = ds_broadcast s @ cs \<and>
    ds_finality_tx s' = ds_finality_tx s @ (if ds_receiver_dropped s then [] else cs)"
proof -
  have "ft_finalized_height t = da_header_height E h"
    using assms(3) by (auto simp: on_celestia_finality_def split: prod.splits)
  with assms show ?thesis
    by (simp add: process_header_def broadcast_confirmations_channels)
qed

end
