(* ===== verification/Celestia_Props.thy ===== *)
theory Celestia_Props
  imports Celestia_Tracker
begin

text \<open>
  The properties of the Celestia client: what was submitted is found again, block by block, ranges
  are fetched in order, and the client is only built from a usable configuration; with a concrete
  node on which the witnesses evaluate.
\<close>

section \<open>Submitting and fetching\<close>

lemma create_blobs_spec:
  "create_blobs_for_blocks E bs = Inr (blobs, infos) \<Longrightarrow>
     length blobs = length bs \<and> infos = map (\<lambda>b. (blk_block_hash b, block_height b)) bs \<and>
     list_all2 (\<lambda>b blob. create_blob_for_block E b = Inr blob) bs blobs"
  by (induction bs arbitrary: blobs infos) (auto split: sum.splits prod.splits)

lemma create_blobs_length:
  "create_blobs_for_blocks E bs = Inr (blobs, infos) \<Longrightarrow> length infos = length blobs"
  by (drule create_blobs_spec) simp

lemma build_submissions_fields:
  "length infos = length blobs \<Longrightarrow>
     map (\<lambda>s. (bs_block_hash s, bs_block_height s)) (build_submissions E blobs infos h) = infos \<and>
     map bs_commitment (build_submissions E blobs infos h) = map (da_blob_commitment E) blobs \<and>
     (\<forall>s \<in> set (build_submissions E blobs infos h). bs_celestia_height s = h)"
  unfolding build_submissions_def
  by (induction infos blobs rule: list_induct2) auto

lemma decode_blobs_append: "decode_blobs E (xs @ ys) = decode_blobs E xs @ decode_blobs E ys"
  by (induction xs) (auto split: option.split)

text \<open>What the client relies on: decoding reads what encoding wrote, a blob keeps its data.\<close>

definition codec_ok :: "('w, 'b, 'h) da_env \<Rightarrow> bool" where
  "codec_ok E \<longleftrightarrow> (\<forall>b d. da_encode E b = Inr d \<longrightarrow> da_decode E d = Inr b) \<and>
     (\<forall>ns d a blob. da_blob_new E ns d a = Inr blob \<longrightarrow> da_blob_data E blob = d)"

lemma try_decode_created:
  "codec_ok E \<Longrightarrow> create_blob_for_block E b = Inr blob \<Longrightarrow> try_decode_blob E blob = Some b"
  by (auto simp: codec_ok_def create_blob_for_block_def encode_block_def try_decode_blob_def
      decode_block_def split: sum.splits)

lemma decode_created:
  "codec_ok E \<Longrightarrow> list_all2 (\<lambda>b blob. create_blob_for_block E b = Inr blob) bs blobs \<Longrightarrow>
     decode_blobs E blobs = bs"
  by (induction bs arbitrary: blobs) (auto simp: list_all2_Cons1 try_decode_created)

lemma with_retry_Ok:
  assumes "with_retry H name m d operation w = (Inr x, w')"
  shows "\<exists>w1. operation w1 = (Inr x, w')"
proof -
  obtain i w1 r w2 where last: "retry_attempt H name m d operation i w1 = Some (Some r, w2)"
    and r: "with_retry H name m d operation w = (r, w2)"
    using with_retry_result [of m H name d operation w] by blast
  from r assms have "r = Inr x" "w2 = w'" by simp_all
  with last have "operation w1 = (Inr x, w')"
    by (cases "operation w1"; cases "fst (operation w1)") (auto simp: retry_attempt_def split: if_splits)
  then show ?thesis ..
qed

text \<open>
  What Celestia documents: a submission that was included at a height is found there. Blobs made for
  a namespace and submitted with the answer \<open>h\<close> are returned by every later request for all
  blobs of that namespace at that height, among others before and after them. \<open>later\<close> says which
  states of the world are later ones.
\<close>

definition celestia_keeps_blobs :: "('w \<Rightarrow> 'w \<Rightarrow> bool) \<Rightarrow> ('w, 'b, 'h) da_env \<Rightarrow> bool" where
  "celestia_keeps_blobs later E \<longleftrightarrow>
     (\<forall>ns blobs price w h w1 w2.
        (\<forall>blob \<in> set blobs. \<exists>d a. da_blob_new E ns d a = Inr blob) \<and>
        da_submit E blobs price w = (Inr h, w1) \<and> later w1 w2 \<longrightarrow>
        (\<exists>pre post w3. da_get_all E h ns w2 = (Inr (Some (pre @ blobs @ post)), w3)))"

lemma created_in_namespace:
  assumes "create_blobs_for_blocks E bs = Inr (blobs, infos)" "blob \<in> set blobs"
  shows "\<exists>d a. da_blob_new E (da_namespace E) d a = Inr blob"
proof -
  from assms(2) obtain i where i: "i < length blobs" "blob = blobs ! i"
    by (auto simp: in_set_conv_nth)
  with create_blobs_spec [OF assms(1)] have "create_blob_for_block E (bs ! i) = Inr blob"
    by (auto dest: list_all2_nthD2)
  then show ?thesis by (auto simp: create_blob_for_block_def split: sum.splits)
qed

lemma submit_blocks_cases:
  assumes "submit_blocks E bs w = (Inr subs, w')" "bs \<noteq> []"
  obtains blobs infos h w1 where "create_blobs_for_blocks E bs = Inr (blobs, infos)"
    "da_submit E blobs (ce_gas_price (da_config E)) w1 = (Inr h, w')"
    "subs = build_submissions E blobs infos h"
proof -
  from assms obtain blobs infos h where blobs: "create_blobs_for_blocks E bs = Inr (blobs, infos)"
    and retry: "submit_blobs_with_retry E blobs w = (Inr h, w')"
    and subs: "subs = build_submissions E blobs infos h"
    by (auto simp: submit_blocks_def split: prod.splits sum.splits)
  from with_retry_Ok [OF retry [unfolded submit_blobs_with_retry_def]] obtain w1 where
    "da_submit E blobs (ce_gas_price (da_config E)) w1 = (Inr h, w')" by blast
  with blobs subs that show ?thesis by blast
qed

text \<open>
  C29: a submitted batch can be fetched again. Suppose that decoding reads what encoding wrote and
  that Celestia keeps what it included. When submitting blocks succeeds, the submissions name the
  blocks in order, and in every later state, at the Celestia height that a submission records,
  fetching returns the submitted blocks in order, among others before and after, and the
  submission's commitment verifies.
\<close>

theorem submitted_blocks_are_fetched:
  assumes codec: "codec_ok E" and keeps: "celestia_keeps_blobs later E"
    and submit: "submit_blocks E bs w = (Inr subs, w')"
  shows "map (\<lambda>s. (bs_block_hash s, bs_block_height s)) subs =
      map (\<lambda>b. (blk_block_hash b, block_height b)) bs \<and>
    (\<forall>s \<in> set subs. \<forall>w2. later w' w2 \<longrightarrow> (\<exists>pre post w3.
      get_blocks E (bs_celestia_height s) w2 = (Inr (pre @ bs @ post), w3) \<and>
      verify_inclusion E (bs_celestia_height s) (bs_commitment s) w2 = (Inr True, w3)))"
proof (cases "bs = []")
  case True
  with submit show ?thesis by (simp add: submit_blocks_def)
next
  case False
  from submit_blocks_cases [OF submit this] obtain blobs infos h w1 where
    blobs: "create_blobs_for_blocks E bs = Inr (blobs, infos)"
    and sent: "da_submit E blobs (ce_gas_price (da_config E)) w1 = (Inr h, w')"
    and subs: "subs = build_submissions E blobs infos h" .
  note spec = create_blobs_spec [OF blobs]
  note fields = build_submissions_fields [OF create_blobs_length [OF blobs], of E h]
  have "\<exists>pre post w3. get_blocks E (bs_celestia_height s) w2 = (Inr (pre @ bs @ post), w3) \<and>
      verify_inclusion E (bs_celestia_height s) (bs_commitment s) w2 = (Inr True, w3)"
    if s: "s \<in> set subs" and later: "later w' w2" for s w2
  proof -
    have "bs_commitment s \<in> set (map bs_commitment subs)" using s by simp
    then have commitment: "\<exists>blob \<in> set blobs. da_blob_commitment E blob = bs_commitment s"
      using fields subs by auto
    have height: "bs_celestia_height s = h" using fields subs s by blast
    obtain pre post w3 where "da_get_all E h (da_namespace E) w2 = (Inr (Some (pre @ blobs @ post)), w3)"
      using keeps [unfolded celestia_keeps_blobs_def, rule_format, OF conjI, OF _ conjI, OF _ sent later]
        created_in_namespace [OF blobs] by blast
    then show ?thesis
      using spec decode_created [OF codec, of bs blobs] commitment
      by (intro exI [of _ "decode_blobs E pre"] exI [of _ "decode_blobs E post"] exI [of _ w3])
        (auto simp: height get_blocks_def verify_inclusion_def fetch_blobs_def decode_blobs_append
          list_ex_iff)
  qed
  moreover have "map (\<lambda>s. (bs_block_hash s, bs_block_height s)) subs =
      map (\<lambda>b. (blk_block_hash b, block_height b)) bs"
    using fields spec subs by simp
  ultimately show ?thesis by blast
qed

section \<open>A Celestia node\<close>

text \<open>
  A node that stores batches under increasing heights and never fails, for the witnesses: blobs are
  their data, which is also their commitment, and the codec knows two blocks.
\<close>

record celestia_node =
  cn_height :: u64
  cn_batches :: "(u64 \<times> bytes list) list"

definition block_one :: block where
  "block_one = test_block \<lparr>hdr_height = 1, hdr_timestamp = 10, hdr_parent_hash = 0, hdr_proposer = 0\<rparr> []"

definition block_two :: block where
  "block_two = test_block \<lparr>hdr_height = 2, hdr_timestamp = 11, hdr_parent_hash = 0, hdr_proposer = 0\<rparr> []"

lemma block_one_two [simp]: "block_one \<noteq> block_two" "block_two \<noteq> block_one"
  "block_height block_one = 1" "block_height block_two = 2"
  "blk_block_hash block_one = 0" "blk_block_hash block_two = 0"
  by (simp_all add: block_one_def block_two_def test_block_def block_height_def)

definition node_env :: "(celestia_node, bytes, bytes) da_env" where
  "node_env =
     \<lparr>da_config = default_celestia,
      da_host = \<lparr>clock = (\<lambda>w. (Some 0, w)), sleep_ms = (\<lambda>d w. w), read_file = (\<lambda>p w. (Inl p, w))\<rparr>,
      da_namespace = [],
      da_address = Inr ''celestia1'',
      da_encode = (\<lambda>b. if b = block_one then Inr [1] else if b = block_two then Inr [2]
         else Inl ''unknown block''),
      da_decode = (\<lambda>d. if d = [1] then Inr block_one else if d = [2] then Inr block_two
         else Inl ''unknown data''),
      da_blob_new = (\<lambda>ns d a. Inr d),
      da_blob_data = (\<lambda>d. d),
      da_blob_commitment = (\<lambda>d. d),
      da_submit = (\<lambda>blobs price w. (Inr (cn_height w + 1),
         w\<lparr>cn_height := cn_height w + 1, cn_batches := (cn_height w + 1, blobs) # cn_batches w\<rparr>)),
      da_get_all = (\<lambda>h ns w. (Inr (map_of (cn_batches w) h), w)),
      da_subscribe = (\<lambda>w. ([Inr (replicate 32 0)], w)),
      da_header_height = (\<lambda>h. 100),
      da_header_hash = (\<lambda>h. replicate 32 0),
      da_now = (\<lambda>w. (7, w)),
      da_pending_order = ascending_keys\<rparr>"

definition empty_node :: celestia_node where
  "empty_node = \<lparr>cn_height = 41, cn_batches = []\<rparr>"

lemma node_env_fields [simp]:
  "da_config node_env = default_celestia" "da_namespace node_env = []"
  "da_address node_env = Inr ''celestia1''"
  "da_encode node_env b = (if b = block_one then Inr [1] else if b = block_two then Inr [2]
     else Inl ''unknown block'')"
  "da_decode node_env d = (if d = [1] then Inr block_one else if d = [2] then Inr block_two
     else Inl ''unknown data'')"
  "da_blob_new node_env ns d a = Inr d" "da_blob_data node_env d = d"
  "da_blob_commitment node_env d = d"
  "da_submit node_env blobs price w = (Inr (cn_height w + 1),
     w\<lparr>cn_height := cn_height w + 1, cn_batches := (cn_height w + 1, blobs) # cn_batches w\<rparr>)"
  "da_get_all node_env h ns w = (Inr (map_of (cn_batches w) h), w)"
  "da_subscribe node_env w = ([Inr (replicate 32 0)], w)" "da_header_height node_env x = 100"
  "da_header_hash node_env x = replicate 32 0" "da_now node_env w = (7, w)"
  "da_pending_order node_env = ascending_keys"
  by (simp_all add: node_env_def)

lemma codec_ok_node: "codec_ok node_env"
  by (auto simp: codec_ok_def split: if_splits)

text \<open>Later states of the node: more batches, under greater heights.\<close>

definition node_later :: "celestia_node \<Rightarrow> celestia_node \<Rightarrow> bool" where
  "node_later w w2 \<longleftrightarrow> (\<exists>more. cn_batches w2 = more @ cn_batches w \<and> (\<forall>(h, b) \<in> set more. h > cn_height w))"

lemma celestia_keeps_blobs_node: "celestia_keeps_blobs node_later node_env"
proof -
  have "\<exists>pre post w3. da_get_all node_env h ns w2 = (Inr (Some (pre @ blobs @ post)), w3)"
    if "da_submit node_env blobs price w = (Inr h, w1)" "node_later w1 w2" for blobs price w h w1 w2 ns
  proof -
    from that obtain more where more: "cn_batches w2 = more @ (h, blobs) # cn_batches w"
      "\<forall>(h', b) \<in> set more. h' > h"
      by (auto simp: node_later_def)
    then have "h \<notin> fst ` set more" by fastforce
    then have "map_of (cn_batches w2) h = Some blobs"
      using map_of_eq_None_iff [of more h] by (simp add: more(1) map_add_def)
    then show ?thesis by (intro exI [of _ "[]"]) simp
  qed
  then show ?thesis unfolding celestia_keeps_blobs_def by blast
qed

theorem submitted_blocks_are_fetched_witness:
  "\<exists>subs w'. submit_blocks node_env [block_one, block_two] empty_node = (Inr subs, w') \<and>
     map (\<lambda>s. (bs_block_hash s, bs_block_height s)) subs = [(0, 1), (0, 2)] \<and>
     (\<exists>pre post w3. get_blocks node_env 42 (w'\<lparr>cn_batches := (43, [[9]]) # cn_batches w'\<rparr>) =
       (Inr (pre @ [block_one, block_two] @ post), w3))"
proof -
  let ?sub = "\<lambda>n d. \<lparr>bs_block_hash = 0, bs_block_height = n, bs_celestia_height = 42, bs_commitment = d\<rparr>"
  let ?w = "\<lparr>cn_height = 42, cn_batches = [(42, [[1], [2]])]\<rparr>"
  have submit: "submit_blocks node_env [block_one, block_two] empty_node =
      (Inr [?sub 1 [1], ?sub 2 [2]], ?w)"
    by (simp add: submit_blocks_def create_blob_for_block_def encode_block_def submit_blobs_with_retry_def with_retry_def
        with_retry_loop.simps build_submissions_def empty_node_def)
  have later: "node_later ?w (?w\<lparr>cn_batches := (43, [[9]]) # cn_batches ?w\<rparr>)"
    by (simp add: node_later_def)
  have "?sub 1 [1] \<in> set [?sub 1 [1], ?sub 2 [2]]" by simp
  with submitted_blocks_are_fetched [OF codec_ok_node celestia_keeps_blobs_node submit] later
  have "\<exists>pre post w3. get_blocks node_env 42 (?w\<lparr>cn_batches := (43, [[9]]) # cn_batches ?w\<rparr>) =
      (Inr (pre @ [block_one, block_two] @ post), w3)" by fastforce
  with submit show ?thesis by simp
qed

section \<open>Ranges\<close>

lemma collect_range_results:
  assumes "\<forall>h \<in> set hs. get_blocks E h w = (r h, w)"
  shows "collect_range E hs acc w =
    (case collect_results (\<lambda>h. map_sum id (map (Pair h)) (r h)) hs of
       Inl e \<Rightarrow> Inl e | Inr bss \<Rightarrow> Inr (acc @ concat bss), w)"
  using assms
proof (induction hs arbitrary: acc)
  case Nil
  then show ?case by simp
next
  case (Cons h hs)
  then show ?case by (cases "r h") (auto split: sum.splits)
qed

text \<open>
  A range is fetched height by height. On a node whose answers do not change during the call, the
  result is the blocks of all heights from the first to the last, both included (also when the last
  is the largest 64-bit height), each tagged with its Celestia height, in order; the error of the
  first height that cannot be fetched if there is one; and nothing for an empty range.
\<close>

theorem range_fetches_every_height:
  assumes "\<forall>h. start \<le> h \<and> h \<le> end_height \<longrightarrow> get_blocks E h w = (r h, w)"
  shows "get_blocks_in_range E start end_height w =
    (if end_height < start then Inr []
     else case collect_results (\<lambda>h. map_sum id (map (Pair h)) (r h))
            (map of_nat [unat start..<Suc (unat end_height)]) of
       Inl e \<Rightarrow> Inl e | Inr bss \<Rightarrow> Inr (concat bss), w)"
proof -
  have "start \<le> h \<and> h \<le> end_height" if "h \<in> set (inclusive_heights start end_height)" for h
  proof -
    from that obtain n where n: "h = of_nat n" "unat start \<le> n" "n \<le> unat end_height"
      by (auto simp: inclusive_heights_def)
    have "unat end_height < 2 ^ 64" using unsigned_less [of end_height, where ?'a = nat] by simp
    with n have "unat h = n" by (simp add: unat_of_nat take_bit_nat_eq_self)
    with n show ?thesis by (simp add: word_le_nat_alt)
  qed
  with assms have "\<forall>h \<in> set (inclusive_heights start end_height). get_blocks E h w = (r h, w)"
    by blast
  from collect_range_results [OF this] show ?thesis
    by (auto simp: get_blocks_in_range_def inclusive_heights_def not_less split: sum.split)
qed

theorem range_fetches_every_height_witness:
  "let w = \<lparr>cn_height = 2, cn_batches = [(2, [[2], [9]]), (1, [[1]])]\<rparr> in
   get_blocks_in_range node_env 1 3 w = (Inr [(1, block_one), (2, block_two)], w)"
proof -
  let ?w = "\<lparr>cn_height = 2, cn_batches = [(2, [[2], [9]]), (1, [[1]])]\<rparr>"
  let ?r = "\<lambda>h :: u64. Inr (if h = 1 then [block_one] else if h = 2 then [block_two] else [])"
  have "\<forall>h. 1 \<le> h \<and> h \<le> 3 \<longrightarrow> get_blocks node_env h ?w = (?r h, ?w)"
    by (simp add: get_blocks_def fetch_blobs_def try_decode_blob_def decode_block_def)
  from range_fetches_every_height [OF this] show ?thesis
    by (simp add: upt_rec)
qed

section \<open>Configuration\<close>

text \<open>
  The gRPC address always has a scheme: one that has it is kept, another gets the scheme that the
  TLS setting asks for, and completing it twice changes nothing.
\<close>

theorem grpc_url_has_scheme:
  "(starts_with (build_grpc_url addr tls) ''http://'' \<or> starts_with (build_grpc_url addr tls) ''https://'') \<and>
   build_grpc_url (build_grpc_url addr tls) tls' = build_grpc_url addr tls"
  by (auto simp: build_grpc_url_def starts_with_def)

section \<open>Witnesses of the tracker\<close>

definition tracker_start :: da_state where
  "tracker_start =
     \<lparr>ds_tracker = track 1 sample_submission tracker_new, ds_finality_tx = [], ds_broadcast = [],
      ds_receiver_dropped = False\<rparr>"

theorem finality_tracker_stops_witness:
  "\<exists>sw'. sessions node_env 0 10 (tracker_start, empty_node) = Some sw' \<and>
    run_finality_tracker node_env (tracker_start, empty_node) =
      Some (Inl (Cel_SubscriptionFailed ''max consecutive failures (10) reached''), sw')"
  by (rule finality_tracker_stops) simp

theorem process_header_sends_witness:
  "\<exists>s' cs. process_header node_env [] (tracker_start, empty_node) = Some (Inr (), s', empty_node) \<and>
     ds_broadcast s' = cs \<and> ds_finality_tx s' = cs \<and> ft_finalized_height (ds_tracker s') = 100"
proof -
  have hash: "\<exists>hh. header_to_b256 node_env [] = Some hh"
    by (simp add: header_to_b256_def b256_of_bytes_def)
  then obtain hh where hh: "header_to_b256 node_env [] = Some hh" by blast
  have now: "da_now node_env empty_node = (7, empty_node)" by simp
  obtain cs t where due: "on_celestia_finality (da_pending_order node_env) 7
      (da_header_height node_env []) hh (ds_tracker tracker_start) = (cs, t)"
    by (metis prod.collapse)
  from process_header_sends [OF hh now due] show ?thesis
    by (auto simp: tracker_start_def)
qed

end
