(* ===== verification/Batch.thy ===== *)
theory Batch
  imports Celestia_Props
begin

text \<open>
  The batch submission task of the sequencer (crates/sequencer, \<open>src/simplex_sequencer.rs\<close>): the
  blocks that wait for Celestia, when a batch is submitted, and the loop that gives up after ten
  failures in a row. What wakes the loop is a list of events; the loop also returns the batches it
  has submitted, a history that the code does not keep. Byte counts are 64-bit words.
\<close>

section \<open>State and sizes\<close>

record batch_state =
  bt_pending_blocks :: "block list"
  bt_pending_size :: u64

datatype batch_action = BA_Continue | BA_Submit | BA_Shutdown

definition batch_new :: batch_state where
  "batch_new = \<lparr>bt_pending_blocks = [], bt_pending_size = 0\<rparr>"

definition batch_is_empty :: "batch_state \<Rightarrow> bool" where
  "batch_is_empty s \<longleftrightarrow> bt_pending_blocks s = []"

definition estimate_block_size :: "block \<Rightarrow> u64" where
  "estimate_block_size b =
     (let tx_size = sum_list (map (\<lambda>tx. of_nat (length (tx_data tx)) + 32) (blk_transactions b))
      in 68 + tx_size + 64)"

section \<open>Submitting\<close>

definition restore_failed_batch :: "batch_state \<Rightarrow> block list \<Rightarrow> batch_state" where
  "restore_failed_batch s blocks =
     s\<lparr>bt_pending_size := sum_list (map estimate_block_size blocks), bt_pending_blocks := blocks\<rparr>"

text \<open>Tracking runs in a spawned task of its own; here it is done at once.\<close>

definition log_batch_success ::
  "('w, 'b, 'h) da_env \<Rightarrow> blob_submission list \<Rightarrow> da_state \<times> 'w \<Rightarrow> da_state \<times> 'w" where
  "log_batch_success E submissions sw = fold (track_finality E) submissions sw"

definition submit_batch ::
  "('w, 'b, 'h) da_env \<Rightarrow> batch_state \<Rightarrow> da_state \<times> 'w \<Rightarrow> bool \<times> batch_state \<times> da_state \<times> 'w" where
  "submit_batch E s sw =
     (let blocks = bt_pending_blocks s;
          s = s\<lparr>bt_pending_blocks := [], bt_pending_size := 0\<rparr>
      in if blocks = [] then (True, s, sw)
         else (let (r, w1) = submit_blocks E blocks (snd sw) in
           case r of
             Inr submissions \<Rightarrow> (True, s, log_batch_success E submissions (fst sw, w1))
           | Inl e \<Rightarrow> (False, restore_failed_batch s blocks, fst sw, w1)))"

section \<open>The loop\<close>

definition handle_received_block ::
  "block option \<Rightarrow> batch_state \<Rightarrow> u64 \<Rightarrow> batch_action \<times> batch_state" where
  "handle_received_block received s max_batch_size_bytes =
     (case received of
        None \<Rightarrow> (BA_Shutdown, s)
      | Some b \<Rightarrow>
          (let block_size = estimate_block_size b;
               s = s\<lparr>bt_pending_blocks := bt_pending_blocks s @ [b],
                     bt_pending_size := bt_pending_size s + block_size\<rparr>
           in if bt_pending_size s \<ge> max_batch_size_bytes then (BA_Submit, s)
              else (BA_Continue, s)))"

text \<open>The ticker fires, a block arrives, or the channel is closed.\<close>

datatype batch_event = BE_Tick | BE_Recv "block option"

definition wait_for_batch_event ::
  "batch_event \<Rightarrow> batch_state \<Rightarrow> u64 \<Rightarrow> batch_action \<times> batch_state" where
  "wait_for_batch_event e s max_batch_size_bytes =
     (case e of
        BE_Tick \<Rightarrow> (if batch_is_empty s then BA_Continue else BA_Submit, s)
      | BE_Recv received \<Rightarrow> handle_received_block received s max_batch_size_bytes)"

definition MAX_BATCH_FAILURES :: u32 where "MAX_BATCH_FAILURES = 10"

datatype batch_outcome = BO_Waiting | BO_GaveUp | BO_Shutdown

text \<open>
  One turn of the loop: the event that arrived, the count of failures and the batch before, and after
  the turn whether the task goes on, the batches it submitted, the count and the batch.
\<close>

definition batch_turn ::
  "('w, 'b, 'h) da_env \<Rightarrow> u64 \<Rightarrow> batch_event \<Rightarrow> u32 \<Rightarrow> batch_state \<Rightarrow> da_state \<times> 'w
    \<Rightarrow> batch_outcome \<times> block list list \<times> u32 \<times> batch_state \<times> da_state \<times> 'w" where
  "batch_turn E max_size e failures s sw =
     (let (action, s1) = wait_for_batch_event e s max_size in
      case action of
        BA_Continue \<Rightarrow> (BO_Waiting, [], failures, s1, sw)
      | BA_Submit \<Rightarrow>
          (let (ok, s2, sw2) = submit_batch E s1 sw in
           if ok then (BO_Waiting, [bt_pending_blocks s1], 0, s2, sw2)
           else
             (let failures = failures + 1 in
              if failures \<ge> MAX_BATCH_FAILURES then (BO_GaveUp, [], failures, s2, sw2)
              else (BO_Waiting, [], failures, s2, sw2)))
      | BA_Shutdown \<Rightarrow>
          (let (ok, s2, sw2) = submit_batch E s1 sw
           in (BO_Shutdown, if ok then [bt_pending_blocks s1] else [], failures, s2, sw2)))"

text \<open>
  The loop over the events that arrive. It ends by a shutdown, after too many failures, or is still
  waiting when the events are used up; events after its end are not received by anyone.
\<close>

fun batch_loop ::
  "('w, 'b, 'h) da_env \<Rightarrow> u64 \<Rightarrow> batch_event list \<Rightarrow> u32 \<Rightarrow> batch_state \<Rightarrow> da_state \<times> 'w
    \<Rightarrow> batch_outcome \<times> block list list \<times> batch_state \<times> da_state \<times> 'w" where
  "batch_loop E max_size [] failures s sw = (BO_Waiting, [], s, sw)"
| "batch_loop E max_size (e # es) failures s sw =
     (let (out, submitted, failures, s, sw) = batch_turn E max_size e failures s sw in
      if out \<noteq> BO_Waiting then (out, submitted, s, sw)
      else (let (out, history, s, sw) = batch_loop E max_size es failures s sw
            in (out, submitted @ history, s, sw)))"

definition run_batch_submission_loop ::
  "('w, 'b, 'h) da_env \<Rightarrow> u64 \<Rightarrow> batch_event list \<Rightarrow> da_state \<times> 'w
    \<Rightarrow> batch_outcome \<times> block list list \<times> batch_state \<times> da_state \<times> 'w" where
  "run_batch_submission_loop E max_size es sw = batch_loop E max_size es 0 batch_new sw"

section \<open>Lemmas\<close>

definition batch_ok :: "batch_state \<Rightarrow> bool" where
  "batch_ok s \<longleftrightarrow> bt_pending_size s = sum_list (map estimate_block_size (bt_pending_blocks s))"

lemma submit_batch_cases:
  assumes "submit_batch E s sw = (ok, s', sw')"
  obtains (submitted) "ok" "bt_pending_blocks s' = []" "bt_pending_size s' = 0"
      "bt_pending_blocks s = [] \<or> (\<exists>subs w1. submit_blocks E (bt_pending_blocks s) (snd sw) = (Inr subs, w1))"
  | (failed) "\<not> ok" "bt_pending_blocks s' = bt_pending_blocks s" "bt_pending_blocks s \<noteq> []"
      "bt_pending_size s' = sum_list (map estimate_block_size (bt_pending_blocks s))"
      "\<exists>e w1. submit_blocks E (bt_pending_blocks s) (snd sw) = (Inl e, w1)"
  using assms unfolding submit_batch_def
  by (auto simp: Let_def restore_failed_batch_def split: if_splits prod.splits sum.splits)

lemma submit_batch_ok: "submit_batch E s sw = (ok, s', sw') \<Longrightarrow> batch_ok s'"
  by (erule submit_batch_cases) (simp_all add: batch_ok_def)

lemma wait_for_batch_event_ok:
  "wait_for_batch_event e s m = (a, s') \<Longrightarrow> batch_ok s \<Longrightarrow> batch_ok s'"
  by (auto simp: wait_for_batch_event_def handle_received_block_def batch_ok_def Let_def
      split: batch_event.splits option.splits if_splits)

text \<open>The blocks that a list of events brings, up to the end of the channel.\<close>

fun received_blocks :: "batch_event list \<Rightarrow> block list" where
  "received_blocks [] = []"
| "received_blocks (BE_Tick # es) = received_blocks es"
| "received_blocks (BE_Recv (Some b) # es) = b # received_blocks es"
| "received_blocks (BE_Recv None # es) = []"

fun event_blocks :: "batch_event \<Rightarrow> block list" where
  "event_blocks (BE_Recv (Some b)) = [b]"
| "event_blocks _ = []"

lemma received_blocks_Cons:
  "received_blocks (e # es) = event_blocks e @ (if e = BE_Recv None then [] else received_blocks es)"
  by (cases e rule: event_blocks.cases) simp_all

lemma batch_turn_blocks:
  assumes "batch_turn E m e f s sw = (out, h, f', s', sw')"
  shows "concat h @ bt_pending_blocks s' =
      bt_pending_blocks s @ event_blocks e"
    and "out = BO_Shutdown \<longleftrightarrow> e = BE_Recv None"
    and "batch_ok s \<Longrightarrow> batch_ok s'"
proof -
  obtain a s1 where w: "wait_for_batch_event e s m = (a, s1)" by (cases "wait_for_batch_event e s m")
  obtain ok s2 sw2 where sub: "submit_batch E s1 sw = (ok, s2, sw2)" by (cases "submit_batch E s1 sw") auto
  have s1: "bt_pending_blocks s1 = bt_pending_blocks s @ event_blocks e"
    and a: "a = BA_Shutdown \<longleftrightarrow> e = BE_Recv None"
    using w by (auto simp: wait_for_batch_event_def handle_received_block_def Let_def
        split: batch_event.splits option.splits if_splits)
  have s2: "concat (if ok then [bt_pending_blocks s1] else []) @ bt_pending_blocks s2 = bt_pending_blocks s1"
    using sub by (cases rule: submit_batch_cases) auto
  show "concat h @ bt_pending_blocks s' =
      bt_pending_blocks s @ event_blocks e"
    using assms s2 unfolding batch_turn_def w s1 [symmetric]
    by (cases a) (auto simp: Let_def sub split: if_splits)
  show "out = BO_Shutdown \<longleftrightarrow> e = BE_Recv None"
    using assms unfolding batch_turn_def w a [symmetric]
    by (cases a) (auto simp: Let_def sub split: if_splits)
  show "batch_ok s'" if "batch_ok s"
    using assms wait_for_batch_event_ok [OF w that] submit_batch_ok [OF sub] unfolding batch_turn_def w
    by (cases a) (auto simp: Let_def sub split: if_splits)
qed

lemma batch_loop_conserves:
  "batch_loop E m es f s sw = (out, history, s', sw') \<Longrightarrow>
     \<exists>unread. concat history @ bt_pending_blocks s' @ unread = bt_pending_blocks s @ received_blocks es \<and>
       (out \<noteq> BO_GaveUp \<longrightarrow> unread = [])"
proof (induction es arbitrary: f s sw history)
  case Nil
  then show ?case by simp
next
  case (Cons e es)
  obtain o1 h1 f1 s1 sw1 where t: "batch_turn E m e f s sw = (o1, h1, f1, s1, sw1)"
    by (metis prod.collapse)
  note turn = batch_turn_blocks(1,2) [OF t]
  show ?case
  proof (cases "o1 = BO_Waiting")
    case True
    with Cons.prems t obtain h2 where
      "batch_loop E m es f1 s1 sw1 = (out, h2, s', sw')" "history = h1 @ h2"
      by (auto split: prod.splits)
    moreover have "bt_pending_blocks s @ received_blocks (e # es) =
        concat h1 @ bt_pending_blocks s1 @ received_blocks es"
      using turn True by (simp add: received_blocks_Cons flip: append_assoc)
    ultimately show ?thesis using Cons.IH by fastforce
  next
    case False
    with Cons.prems t have "out = o1" "history = h1" "s' = s1" by auto
    moreover have "bt_pending_blocks s @ received_blocks (e # es) =
        concat h1 @ bt_pending_blocks s1 @ (if o1 = BO_Shutdown then [] else received_blocks es)"
      using turn by (simp add: received_blocks_Cons flip: append_assoc)
    ultimately show ?thesis using False by (cases o1) auto
  qed
qed

lemma batch_loop_ok:
  "batch_loop E m es f s sw = (out, history, s', sw') \<Longrightarrow> batch_ok s \<Longrightarrow> batch_ok s'"
  by (induction es arbitrary: f s sw history)
    (auto split: prod.splits if_splits dest: batch_turn_blocks(3))

text \<open>Celestia takes every batch.\<close>

definition accepts_batches :: "('w, 'b, 'h) da_env \<Rightarrow> bool" where
  "accepts_batches D \<longleftrightarrow> (\<forall>bs w. \<exists>subs w'. submit_blocks D bs w = (Inr subs, w'))"

lemma accepted_batch: "accepts_batches D \<Longrightarrow> fst (submit_batch D b sw)"
  unfolding accepts_batches_def submit_batch_def
  by (auto simp: Let_def split: prod.split sum.split) (metis prod.inject sum.distinct(1))

lemma accepted_turn:
  assumes "accepts_batches D" "e \<noteq> BE_Recv None"
  shows "\<exists>h f' b' sw'. batch_turn D m e f b sw = (BO_Waiting, h, f', b', sw')"
proof -
  obtain a b1 where w: "wait_for_batch_event e b m = (a, b1)" by force
  have "a \<noteq> BA_Shutdown"
    using w assms(2) by (auto simp: wait_for_batch_event_def handle_received_block_def Let_def
        split: batch_event.splits option.splits if_splits)
  moreover obtain b2 sw2 where "submit_batch D b1 sw = (True, b2, sw2)"
    using accepted_batch [OF assms(1), of b1 sw] by (cases "submit_batch D b1 sw") auto
  ultimately show ?thesis
    unfolding batch_turn_def w by (cases a) auto
qed

text \<open>Below the limit, or below it without its last block.\<close>

definition within_limit :: "u64 \<Rightarrow> block list \<Rightarrow> bool" where
  "within_limit m bs \<longleftrightarrow> sum_list (map estimate_block_size bs) < m \<or>
     sum_list (map estimate_block_size (butlast bs)) < m"

lemma accepted_turn_size:
  assumes "accepts_batches E" "batch_turn E m e f s sw = (out, h, f', s', sw')"
    and "batch_ok s" "bt_pending_size s < m"
  shows "(\<forall>b \<in> set h. within_limit m b) \<and> bt_pending_size s' < m"
proof -
  obtain a s1 where w: "wait_for_batch_event e s m = (a, s1)" by (cases "wait_for_batch_event e s m")
  have s1: "within_limit m (bt_pending_blocks s1)"
    and small: "a \<noteq> BA_Submit \<Longrightarrow> bt_pending_size s1 < m"
    using w assms(3,4)
    by (auto simp: wait_for_batch_event_def handle_received_block_def batch_is_empty_def Let_def
        batch_ok_def within_limit_def not_le split: batch_event.splits option.splits if_splits)
  obtain ok s2 sw2 where sub: "submit_batch E s1 sw = (ok, s2, sw2)" by (cases "submit_batch E s1 sw") auto
  then have "ok" using accepted_batch [OF assms(1), of s1 sw] by simp
  moreover from this have "bt_pending_size s2 = 0" using sub by (auto elim: submit_batch_cases)
  moreover have "0 < m" using assms(4) by (simp add: word_gt_0) (metis word_not_simps(1))
  ultimately show ?thesis
    using assms(2) s1 small unfolding batch_turn_def w
    by (cases a) (auto simp: sub Let_def)
qed

lemma accepted_loop_size:
  assumes "accepts_batches E"
  shows "batch_loop E m es f s sw = (out, history, s', sw') \<Longrightarrow> batch_ok s \<Longrightarrow> bt_pending_size s < m \<Longrightarrow>
    (\<forall>b \<in> set history. within_limit m b) \<and> bt_pending_size s' < m"
proof (induction es arbitrary: f s sw history)
  case Nil
  then show ?case by simp
next
  case (Cons e es)
  obtain o1 h1 f1 s1 sw1 where t: "batch_turn E m e f s sw = (o1, h1, f1, s1, sw1)"
    by (metis prod.collapse)
  note size = accepted_turn_size [OF assms t Cons.prems(2,3)] batch_turn_blocks(3) [OF t Cons.prems(2)]
  show ?case
  proof (cases "o1 = BO_Waiting")
    case True
    with Cons.prems(1) t obtain h2 where
      "batch_loop E m es f1 s1 sw1 = (out, h2, s', sw')" "history = h1 @ h2"
      by (auto split: prod.splits)
    with Cons.IH [OF this(1)] size show ?thesis by auto
  next
    case False
    with Cons.prems(1) t size show ?thesis by auto
  qed
qed

section \<open>Properties\<close>

text \<open>
  A failed submission keeps the batch. Submitting reports success exactly when there was nothing
  to submit or Celestia took all pending blocks in one call, and leaves an empty batch then; otherwise
  the pending blocks are the same, in the same order, and their size is counted anew.
\<close>

theorem submit_batch_result:
  assumes "submit_batch E s sw = (ok, s', sw')"
  shows "if ok then s' = batch_new \<and> (bt_pending_blocks s \<noteq> [] \<longrightarrow>
        (\<exists>subs. fst (submit_blocks E (bt_pending_blocks s) (snd sw)) = Inr subs))
    else bt_pending_blocks s' = bt_pending_blocks s \<and> batch_ok s' \<and> fst sw' = fst sw \<and>
        (\<exists>e. submit_blocks E (bt_pending_blocks s) (snd sw) = (Inl e, snd sw'))"
proof -
  have new: "s' = batch_new" if "bt_pending_blocks s' = []" "bt_pending_size s' = 0"
    using that by (cases s') (simp add: batch_new_def)
  from assms show ?thesis
    by (cases rule: submit_batch_cases)
      (use assms new submit_batch_ok [OF assms] in
        \<open>auto simp: submit_batch_def Let_def split: if_splits prod.splits sum.splits\<close>)
qed

text \<open>
  C13: the batch loop loses no block while it runs, and reorders none. For every sequence of ticks and
  received blocks and every behaviour of Celestia, the blocks of the submitted batches followed by
  the blocks that are still pending are the received blocks in their order, unless the loop gave
  up: then some received blocks are never looked at. The size counter is always that of the
  pending blocks.
\<close>

theorem batch_loop_keeps_blocks:
  assumes "run_batch_submission_loop E m es sw = (out, history, s, sw')"
  shows "(\<exists>unread. concat history @ bt_pending_blocks s @ unread = received_blocks es \<and>
      (out \<noteq> BO_GaveUp \<longrightarrow> unread = [])) \<and>
    bt_pending_size s = sum_list (map estimate_block_size (bt_pending_blocks s))"
  using batch_loop_conserves [OF assms [unfolded run_batch_submission_loop_def]]
    batch_loop_ok [OF assms [unfolded run_batch_submission_loop_def]]
  by (simp add: batch_new_def batch_ok_def)

text \<open>
  C18: batches stay below the limit plus one block. With a positive limit and a Celestia that takes
  every batch, each submitted batch is smaller than the limit, or is without its last block, and so
  is the batch that is pending, in the sizes that the code counts. Only a failed submission lets a
  batch grow: it is kept, and blocks are added to it.
\<close>

theorem batches_stay_small:
  assumes "accepts_batches E" "0 < m" "run_batch_submission_loop E m es sw = (out, history, s, sw')"
  shows "(\<forall>b \<in> set history. within_limit m b) \<and>
    sum_list (map estimate_block_size (bt_pending_blocks s)) < m"
  using accepted_loop_size [OF assms(1) assms(3) [unfolded run_batch_submission_loop_def]] assms(2)
    batch_loop_ok [OF assms(3) [unfolded run_batch_submission_loop_def]]
  by (simp add: batch_new_def batch_ok_def)

lemma node_submits:
  "submit_blocks node_env [b] w =
     (case da_encode node_env b of
        Inl e \<Rightarrow> (Inl (Cel_EncodeFailed e), w)
      | Inr d \<Rightarrow>
          (Inr [\<lparr>bs_block_hash = blk_block_hash b, bs_block_height = block_height b,
             bs_celestia_height = cn_height w + 1, bs_commitment = d\<rparr>],
           w\<lparr>cn_height := cn_height w + 1, cn_batches := (cn_height w + 1, [d]) # cn_batches w\<rparr>))"
  by (simp add: submit_blocks_def create_blob_for_block_def encode_block_def submit_blobs_with_retry_def
      with_retry_def with_retry_loop.simps build_submissions_def)

theorem submit_batch_result_witness:
  "\<exists>s' sw'. submit_batch node_env \<lparr>bt_pending_blocks = [block_one], bt_pending_size = 132\<rparr>
      (tracker_start, empty_node) = (True, s', sw') \<and> s' = batch_new"
proof -
  obtain ok s' sw' where r: "submit_batch node_env \<lparr>bt_pending_blocks = [block_one], bt_pending_size = 132\<rparr>
      (tracker_start, empty_node) = (ok, s', sw')" by (metis prod.collapse)
  moreover from r have ok by (simp add: submit_batch_def node_submits)
  ultimately show ?thesis using submit_batch_result [OF r] by simp
qed

theorem batch_loop_keeps_blocks_witness:
  "\<exists>out history s sw'. run_batch_submission_loop node_env 1000
      [BE_Tick, BE_Recv (Some block_one), BE_Tick, BE_Recv (Some block_two), BE_Recv None]
      (tracker_start, empty_node) = (out, history, s, sw') \<and> out = BO_Shutdown \<and>
     concat history @ bt_pending_blocks s = [block_one, block_two]"
proof -
  obtain out history s sw' where r: "run_batch_submission_loop node_env 1000
      [BE_Tick, BE_Recv (Some block_one), BE_Tick, BE_Recv (Some block_two), BE_Recv None]
      (tracker_start, empty_node) = (out, history, s, sw')" by (metis prod.collapse)
  moreover have "out = BO_Shutdown"
    using r by (simp add: run_batch_submission_loop_def batch_turn_def wait_for_batch_event_def handle_received_block_def
        submit_batch_def node_submits Let_def batch_new_def batch_is_empty_def
        split: if_splits prod.splits)
  ultimately show ?thesis using batch_loop_keeps_blocks [OF r] by auto
qed

text \<open>The node of \<open>Celestia_Props\<close> with a codec that encodes every block.\<close>

definition accepting_env :: "(celestia_node, bytes, bytes) da_env" where
  "accepting_env = node_env\<lparr>da_encode := (\<lambda>b. Inr [1])\<rparr>"

lemma accepting_blobs: "\<exists>blobs infos. create_blobs_for_blocks accepting_env bs = Inr (blobs, infos)"
  by (induction bs) (auto simp: create_blob_for_block_def encode_block_def accepting_env_def)

lemma accepting_accepts: "accepts_batches accepting_env"
proof -
  have "\<exists>subs w'. submit_blocks accepting_env bs w = (Inr subs, w')" for bs w
    using accepting_blobs [of bs]
    by (auto simp: submit_blocks_def submit_blobs_with_retry_def with_retry_def with_retry_loop.simps
        accepting_env_def)
  then show ?thesis by (simp add: accepts_batches_def)
qed

theorem batches_stay_small_witness:
  "\<exists>out history s sw'. run_batch_submission_loop accepting_env 200
      [BE_Recv (Some block_one), BE_Recv (Some block_two), BE_Recv (Some block_one)]
      (tracker_start, empty_node) = (out, history, s, sw') \<and>
    (\<forall>b \<in> set history. within_limit 200 b)"
proof -
  obtain out history s sw' where r: "run_batch_submission_loop accepting_env 200
      [BE_Recv (Some block_one), BE_Recv (Some block_two), BE_Recv (Some block_one)]
      (tracker_start, empty_node) = (out, history, s, sw')" by (metis prod.collapse)
  from batches_stay_small [OF accepting_accepts _ r] r show ?thesis by simp
qed

end
