(* ===== verification/BTree_Map.thy ===== *)
theory BTree_Map
  imports Prelude
begin

text \<open>
  The ordered map of the Rust standard library as the code uses it: insertion (which replaces),
  lookup, the keys and values in key order, the inclusive range. A \<open>BTreeMap\<close> is the list of its
  bindings in strictly increasing key order. The interface that the clients rely on is the locale
  \<open>ordered_map\<close>; the list model is its interpretation at the end of the theory.
\<close>

section \<open>The interface\<close>

locale ordered_map =
  fixes empty :: "'m"
    and insert :: "'k::linorder \<Rightarrow> 'v \<Rightarrow> 'm \<Rightarrow> 'm"
    and get :: "'m \<Rightarrow> 'k \<Rightarrow> 'v option"
    and entries :: "'m \<Rightarrow> ('k \<times> 'v) list"
    and invar :: "'m \<Rightarrow> bool"
  assumes get_empty: "get empty k = None"
    and invar_empty: "invar empty"
    and invar_insert: "invar m \<Longrightarrow> invar (insert k v m)"
    and get_insert: "invar m \<Longrightarrow> get (insert k v m) k' = (if k' = k then Some v else get m k')"
    and entries_sorted: "invar m \<Longrightarrow> sorted_wrt (<) (map fst (entries m))"
    and entries_get: "invar m \<Longrightarrow> (k, v) \<in> set (entries m) \<longleftrightarrow> get m k = Some v"
begin

definition insert_all :: "('a \<Rightarrow> 'k) \<Rightarrow> ('a \<Rightarrow> 'v) \<Rightarrow> 'a list \<Rightarrow> 'm \<Rightarrow> 'm" where
  "insert_all f g xs m = fold (\<lambda>x. insert (f x) (g x)) xs m"

lemma invar_insert_all: "invar m \<Longrightarrow> invar (insert_all f g xs m)"
  unfolding insert_all_def by (induction xs arbitrary: m) (auto simp: invar_insert)

text \<open>The last insertion under a key is the one that is found.\<close>

lemma get_insert_all:
  "invar m \<Longrightarrow> get (insert_all f g xs m) k =
     (case find (\<lambda>x. f x = k) (rev xs) of Some x \<Rightarrow> Some (g x) | None \<Rightarrow> get m k)"
proof (induction xs arbitrary: m)
  case Nil
  then show ?case by (simp add: insert_all_def)
next
  case (Cons x xs)
  have find_append: "find P (ys @ [y]) =
      (case find P ys of Some z \<Rightarrow> Some z | None \<Rightarrow> if P y then Some y else None)" for P ys and y :: 'a
    by (induction ys) auto
  from Cons.IH [OF invar_insert [OF Cons.prems]] Cons.prems show ?case
    by (auto simp: insert_all_def find_append get_insert split: option.splits)
qed

lemma distinct_keys: "invar m \<Longrightarrow> distinct (map fst (entries m))"
  using entries_sorted strict_sorted_iff by blast

text \<open>The greatest key is the key of the last entry.\<close>

lemma last_key:
  assumes "invar m" "get m k = Some v"
  shows "entries m \<noteq> [] \<and> k \<le> fst (last (entries m))"
proof -
  from assms have mem: "(k, v) \<in> set (entries m)" by (simp add: entries_get)
  then have ne: "entries m \<noteq> []" by auto
  have "sorted (map fst (entries m))"
    using assms(1) entries_sorted strict_sorted_iff by blast
  moreover from mem obtain i where i: "i < length (entries m)" "entries m ! i = (k, v)"
    by (auto simp: in_set_conv_nth)
  ultimately have "map fst (entries m) ! i \<le> map fst (entries m) ! (length (entries m) - 1)"
    by (intro sorted_nth_mono) auto
  with i ne show ?thesis by (simp add: last_conv_nth)
qed

lemma last_key_present:
  assumes "invar m" "entries m \<noteq> []"
  shows "get m (fst (last (entries m))) = Some (snd (last (entries m)))"
  using assms entries_get [of m] last_in_set by (metis prod.collapse)

end

section \<open>The model\<close>

type_synonym ('k, 'v) btree = "('k \<times> 'v) list"

fun btree_insert :: "'k::linorder \<Rightarrow> 'v \<Rightarrow> ('k, 'v) btree \<Rightarrow> ('k, 'v) btree" where
  "btree_insert k v [] = [(k, v)]"
| "btree_insert k v ((k', v') # m) =
     (if k = k' then (k, v) # m
      else if k < k' then (k, v) # (k', v') # m
      else (k', v') # btree_insert k v m)"

definition btree_get :: "('k, 'v) btree \<Rightarrow> 'k \<Rightarrow> 'v option" where
  "btree_get m k = map_of m k"

definition btree_last_key :: "('k, 'v) btree \<Rightarrow> 'k option" where
  "btree_last_key m = (if m = [] then None else Some (fst (last m)))"

text \<open>\<open>range(lo..=hi)\<close> panics when the bounds are in the wrong order.\<close>

definition btree_range :: "'k::linorder \<Rightarrow> 'k \<Rightarrow> ('k, 'v) btree \<Rightarrow> 'v list option" where
  "btree_range lo hi m =
     (if hi < lo then None
      else Some (map snd (filter (\<lambda>(k, v). lo \<le> k \<and> k \<le> hi) m)))"

definition btree_wf :: "('k::linorder, 'v) btree \<Rightarrow> bool" where
  "btree_wf m \<longleftrightarrow> sorted_wrt (<) (map fst m)"

lemma btree_wf_simps [simp]:
  "btree_wf []"
  "btree_wf ((k, v) # m) \<longleftrightarrow> (\<forall>x \<in> set m. k < fst x) \<and> btree_wf m"
  by (auto simp: btree_wf_def)

lemma set_btree_insert:
  "btree_wf m \<Longrightarrow> set (btree_insert k v m) = Set.insert (k, v) {x \<in> set m. fst x \<noteq> k}"
  by (induction k v m rule: btree_insert.induct) auto

lemma btree_wf_insert: "btree_wf m \<Longrightarrow> btree_wf (btree_insert k v m)"
  by (induction k v m rule: btree_insert.induct) (force simp: set_btree_insert)+

lemma btree_get_insert:
  "btree_get (btree_insert k v m) k' = (if k' = k then Some v else btree_get m k')"
  by (induction k v m rule: btree_insert.induct) (auto simp: btree_get_def)

lemma btree_mem_get:
  assumes "btree_wf m"
  shows "(k, v) \<in> set m \<longleftrightarrow> btree_get m k = Some v"
proof -
  from assms have "distinct (map fst m)"
    unfolding btree_wf_def using strict_sorted_iff by blast
  then show ?thesis by (simp add: btree_get_def)
qed

interpretation bt: ordered_map "[]" btree_insert btree_get "\<lambda>m. m" btree_wf
  by unfold_locales
    (auto simp: btree_get_def [of "[]"] btree_wf_insert btree_get_insert btree_mem_get
      dest: btree_wf_def [THEN iffD1])

lemma length_btree_insert:
  "btree_wf m \<Longrightarrow> length (btree_insert k v m) =
     (if btree_get m k = None then Suc (length m) else length m)"
  by (induction k v m rule: btree_insert.induct)
    (force simp: btree_get_def map_of_eq_None_iff)+

lemma btree_last_key_None [simp]: "btree_last_key m = None \<longleftrightarrow> m = []"
  by (simp add: btree_last_key_def)

lemma btree_last_key_max:
  "btree_wf m \<Longrightarrow> btree_get m k = Some v \<Longrightarrow> \<exists>l. btree_last_key m = Some l \<and> k \<le> l"
  using bt.last_key by (force simp: btree_last_key_def)

lemma btree_last_key_present:
  "btree_wf m \<Longrightarrow> btree_last_key m = Some l \<Longrightarrow> \<exists>v. btree_get m l = Some v"
  using bt.last_key_present by (force simp: btree_last_key_def split: if_splits)

lemma btree_range_mem:
  "btree_wf m \<Longrightarrow> btree_range lo hi m = Some vs \<Longrightarrow> v \<in> set vs \<longleftrightarrow>
     (\<exists>k. lo \<le> k \<and> k \<le> hi \<and> btree_get m k = Some v)"
  by (auto simp: btree_range_def btree_mem_get [symmetric] image_iff split: if_splits)

end
