(* ===== verification/Block_Index.thy ===== *)
theory Block_Index
  imports BTree_Map Retry Rust_Strings
begin

text \<open>
  The block index (crates/celestia, \<open>src/index.rs\<close>): where each sequencer block is stored on
  Celestia, by height and by hash, with an append-only file of one JSON entry per line that is
  replayed when the index is opened. The file system and the JSON codec are arguments: \<open>file_ops\<close>
  is a function per operation over a world \<open>'w\<close>, reading a file gives the lines that are delivered
  and the error, if any, that ends them.
\<close>

section \<open>State\<close>

record index_entry =
  ie_block_height :: u64
  ie_block_hash :: b256
  ie_celestia_height :: u64
  ie_commitment :: bytes

record block_index =
  bx_path :: string
  bx_by_height :: "(u64, index_entry) btree"
  bx_by_hash :: "b256 \<rightharpoonup> u64"
  bx_file :: bool

record 'w file_ops =
  fo_parent :: "string \<Rightarrow> string option"
  fo_create_dir_all :: "string \<Rightarrow> ('w, string + unit) io"
  fo_exists :: "string \<Rightarrow> ('w, bool) io"
  fo_open_read :: "string \<Rightarrow> ('w, string + unit) io"
  fo_lines :: "string \<Rightarrow> ('w, string list \<times> string option) io"
  fo_open_append :: "string \<Rightarrow> ('w, string + unit) io"
  fo_write_all :: "string \<Rightarrow> string \<Rightarrow> ('w, string + unit) io"
  fo_flush :: "string \<Rightarrow> ('w, string + unit) io"

record json_codec =
  json_to_string :: "index_entry \<Rightarrow> string + string"
  json_from_str :: "string \<Rightarrow> string + index_entry"

section \<open>Operations\<close>

definition insert_entry :: "index_entry \<Rightarrow> block_index \<Rightarrow> block_index" where
  "insert_entry e i =
     i\<lparr>bx_by_hash := (bx_by_hash i)(ie_block_hash e \<mapsto> ie_block_height e),
       bx_by_height := btree_insert (ie_block_height e) e (bx_by_height i)\<rparr>"

definition parse_and_insert :: "json_codec \<Rightarrow> string \<Rightarrow> block_index \<Rightarrow> bool \<times> block_index" where
  "parse_and_insert J line i =
     (case json_from_str J line of
        Inr entry \<Rightarrow> (True, insert_entry entry i)
      | Inl e \<Rightarrow> (False, i))"

text \<open>The loop of \<open>replay\<close> over the delivered lines, with its two counters.\<close>

fun replay_lines ::
  "json_codec \<Rightarrow> string list \<Rightarrow> nat \<Rightarrow> nat \<Rightarrow> block_index \<Rightarrow> nat \<times> nat \<times> block_index" where
  "replay_lines J [] count errors i = (count, errors, i)"
| "replay_lines J (line # lines) count errors i =
     (if line = [] then replay_lines J lines count errors i
      else let (ok, i') = parse_and_insert J line i
           in if ok then replay_lines J lines (count + 1) errors i'
              else replay_lines J lines count (errors + 1) i')"

definition replay ::
  "'w file_ops \<Rightarrow> json_codec \<Rightarrow> block_index \<Rightarrow> ('w, celestia_error + block_index) io" where
  "replay F J i w =
     (let (opened, w1) = fo_open_read F (bx_path i) w in
      case opened of
        Inl e \<Rightarrow> (Inl (Cel_Internal (''failed to open index for replay: '' @ e)), w1)
      | Inr _ \<Rightarrow>
          (let ((lines, err), w2) = fo_lines F (bx_path i) w1 in
           case err of
             None \<Rightarrow> (Inr (snd (snd (replay_lines J lines 0 0 i))), w2)
           | Some e \<Rightarrow> (Inl (Cel_Internal (''failed to read index line: '' @ e)), w2)))"

definition index_open ::
  "'w file_ops \<Rightarrow> json_codec \<Rightarrow> string \<Rightarrow> ('w, celestia_error + block_index) io" where
  "index_open F J path w =
     (let (dir, w1) = (case fo_parent F path of
            None \<Rightarrow> (Inr (), w) | Some parent \<Rightarrow> fo_create_dir_all F parent w)
      in case dir of
        Inl e \<Rightarrow> (Inl (Cel_Internal (''failed to create index directory: '' @ e)), w1)
      | Inr _ \<Rightarrow>
          (let index = \<lparr>bx_path = path, bx_by_height = [], bx_by_hash = Map.empty, bx_file = False\<rparr>;
               (found, w2) = fo_exists F path w1;
               (replayed, w3) = (if found then replay F J index w2 else (Inr index, w2))
           in case replayed of
             Inl e \<Rightarrow> (Inl e, w3)
           | Inr index \<Rightarrow>
               (let (file, w4) = fo_open_append F path w3 in
                case file of
                  Inl e \<Rightarrow> (Inl (Cel_Internal (''failed to open index file: '' @ e)), w4)
                | Inr _ \<Rightarrow> (Inr (index\<lparr>bx_file := True\<rparr>), w4))))"

text \<open>
  \<open>insert\<close> changes the index through \<open>&mut self\<close>: the index it leaves behind is a result beside
  the \<open>Result\<close>, also when an error returns early.
\<close>

definition index_insert ::
  "'w file_ops \<Rightarrow> json_codec \<Rightarrow> index_entry \<Rightarrow> block_index
    \<Rightarrow> ('w, (celestia_error + unit) \<times> block_index) io" where
  "index_insert F J entry i w =
     (case json_to_string J entry of
        Inl e \<Rightarrow> ((Inl (Cel_Internal (''failed to serialize index entry: '' @ e)), i), w)
      | Inr text \<Rightarrow>
          (let line = text @ [CHR 0x0A] in
           if bx_file i
           then (let (written, w1) = fo_write_all F (bx_path i) line w in
             case written of
               Inl e \<Rightarrow> ((Inl (Cel_Internal (''failed to write index entry: '' @ e)), i), w1)
             | Inr _ \<Rightarrow>
                 (let (flushed, w2) = fo_flush F (bx_path i) w1 in
                  case flushed of
                    Inl e \<Rightarrow> ((Inl (Cel_Internal (''failed to flush index: '' @ e)), i), w2)
                  | Inr _ \<Rightarrow> ((Inr (), insert_entry entry i), w2)))
           else ((Inr (), insert_entry entry i), w)))"

definition get_by_height :: "block_index \<Rightarrow> u64 \<Rightarrow> index_entry option" where
  "get_by_height i height = btree_get (bx_by_height i) height"

definition get_by_hash :: "block_index \<Rightarrow> b256 \<Rightarrow> index_entry option" where
  "get_by_hash i h =
     (case bx_by_hash i h of None \<Rightarrow> None | Some height \<Rightarrow> btree_get (bx_by_height i) height)"

definition latest_height :: "block_index \<Rightarrow> u64 option" where
  "latest_height i = btree_last_key (bx_by_height i)"

definition index_len :: "block_index \<Rightarrow> nat" where
  "index_len i = length (bx_by_height i)"

definition index_is_empty :: "block_index \<Rightarrow> bool" where
  "index_is_empty i \<longleftrightarrow> bx_by_height i = []"

definition index_iter :: "block_index \<Rightarrow> index_entry list" where
  "index_iter i = map snd (bx_by_height i)"

definition index_range :: "block_index \<Rightarrow> u64 \<Rightarrow> u64 \<Rightarrow> index_entry list option" where
  "index_range i lo hi = btree_range lo hi (bx_by_height i)"

section \<open>Invariant\<close>

text \<open>
  The tree is ordered, an entry sits under its own height, and every hash points to a height that
  has an entry.
\<close>

definition index_ok :: "block_index \<Rightarrow> bool" where
  "index_ok i \<longleftrightarrow> btree_wf (bx_by_height i) \<and>
     (\<forall>h e. btree_get (bx_by_height i) h = Some e \<longrightarrow> ie_block_height e = h) \<and>
     (\<forall>h e. btree_get (bx_by_height i) h = Some e \<longrightarrow> bx_by_hash i (ie_block_hash e) \<noteq> None) \<and>
     (\<forall>k h. bx_by_hash i k = Some h \<longrightarrow> btree_get (bx_by_height i) h \<noteq> None)"

lemma index_ok_empty [simp]:
  "index_ok \<lparr>bx_path = p, bx_by_height = [], bx_by_hash = Map.empty, bx_file = f\<rparr>"
  by (simp add: index_ok_def btree_get_def)

lemma index_ok_insert: "index_ok i \<Longrightarrow> index_ok (insert_entry e i)"
  by (auto simp: index_ok_def insert_entry_def btree_get_insert btree_wf_insert)

lemma index_ok_replay: "index_ok i \<Longrightarrow> index_ok (snd (snd (replay_lines J ls c e i)))"
proof (induction J ls c e i rule: replay_lines.induct)
  case (1 J c e i)
  then show ?case by simp
next
  case (2 J line ls c e i)
  then show ?case
    by (auto simp: parse_and_insert_def index_ok_insert split: sum.split)
qed

lemma index_ok_file [simp]: "index_ok (i\<lparr>bx_file := f\<rparr>) = index_ok i"
  by (simp add: index_ok_def)

lemma lookups_insert:
  "get_by_height (insert_entry e i) h =
     (if h = ie_block_height e then Some e else get_by_height i h)"
  "get_by_hash (insert_entry e i) k =
     (if k = ie_block_hash e \<or> bx_by_hash i k = Some (ie_block_height e) then Some e
      else get_by_hash i k)"
  by (auto simp: get_by_height_def get_by_hash_def insert_entry_def btree_get_insert
      split: option.split)

lemma index_insert_cases:
  assumes "index_insert F J e i w = ((r, i'), w')"
  obtains (stored) "r = Inr ()" "i' = insert_entry e i" | (failed) x where "r = Inl x" "i' = i"
  using assms unfolding index_insert_def
  by (auto simp: Let_def split: sum.splits prod.splits if_splits)

lemma index_open_ok: "index_open F J path w = (Inr i, w') \<Longrightarrow> index_ok i"
  unfolding index_open_def replay_def
  by (auto simp: Let_def index_ok_replay split: option.splits sum.splits prod.splits if_splits)

lemma index_insert_ok:
  "index_insert F J e i w = ((r, i'), w') \<Longrightarrow> index_ok i \<Longrightarrow> index_ok i'"
  by (erule index_insert_cases) (auto simp: index_ok_insert)

end
