(* ===== verification/Jwt.thy ===== *)
theory Jwt
  imports Prelude Rust_Strings
begin

unbundle bit_operations_syntax

text \<open>
  The JWT tokens of the Engine API client (crates/execution, \<open>src/jwt.rs\<close>): base64url without
  padding, HMAC-SHA256 and the token itself. SHA-256 (crate \<open>sha2\<close>), the hexadecimal decoder of
  \<open>alloy_primitives\<close> and the wall clock are arguments. Indexing the alphabet can panic in the
  source, so the encoder is written with \<open>option\<close>; it is proved that it never does, that a
  decoder gets the data back, and that a token verifies the way RFC 7519 and RFC 2104 say.
\<close>

section \<open>Base64url\<close>

definition alphabet :: string where
  "alphabet = ''ABCDEFGHIJKLMNOPQRSTUVWXYZabcdefghijklmnopqrstuvwxyz0123456789-_''"

text \<open>\<open>ALPHABET[i]\<close>: out of range panics.\<close>

definition alphabet_at :: "nat \<Rightarrow> char option" where
  "alphabet_at i = (if i < length alphabet then Some (alphabet ! i) else None)"

text \<open>\<open>data.get(i).copied().unwrap_or(0) as usize\<close>.\<close>

definition byte_or_zero :: "bytes \<Rightarrow> nat \<Rightarrow> nat" where
  "byte_or_zero data i = (if i < length data then unat (data ! i) else 0)"

function base64url_loop :: "bytes \<Rightarrow> nat \<Rightarrow> string \<Rightarrow> string option" where
  "base64url_loop data i result =
     (if i < length data then
        (let b0 = unat (data ! i);
             b1 = byte_or_zero data (i + 1);
             b2 = byte_or_zero data (i + 2)
         in do {
           c0 \<leftarrow> alphabet_at (drop_bit 2 b0);
           c1 \<leftarrow> alphabet_at (push_bit 4 (b0 AND 0x03) OR drop_bit 4 b1);
           r2 \<leftarrow> (if i + 1 < length data
                  then map_option (\<lambda>c. [c]) (alphabet_at (push_bit 2 (b1 AND 0x0f) OR drop_bit 6 b2))
                  else Some []);
           r3 \<leftarrow> (if i + 2 < length data
                  then map_option (\<lambda>c. [c]) (alphabet_at (b2 AND 0x3f))
                  else Some []);
           base64url_loop data (i + 3) (result @ [c0, c1] @ r2 @ r3)
         })
      else Some result)"
  by pat_completeness auto
termination
  by (relation "measure (\<lambda>(data, i, result). length data - i)") auto

declare base64url_loop.simps [simp del]

definition base64url_encode :: "bytes \<Rightarrow> string option" where
  "base64url_encode data = base64url_loop data 0 []"

text \<open>The same encoding in groups of three bytes, by arithmetic on their values.\<close>

fun encode_groups :: "nat list \<Rightarrow> nat list" where
  "encode_groups [] = []"
| "encode_groups [a] = [a div 4, a mod 4 * 16]"
| "encode_groups [a, b] = [a div 4, a mod 4 * 16 + b div 16, b mod 16 * 4]"
| "encode_groups (a # b # c # rest) =
     [a div 4, a mod 4 * 16 + b div 16, b mod 16 * 4 + c div 64, c mod 64] @ encode_groups rest"

text \<open>A decoder of sextets into bytes, the inverse that the receiver of a token applies.\<close>

fun decode_groups :: "nat list \<Rightarrow> nat list" where
  "decode_groups (w # x # y # z # rest) =
     [w * 4 + x div 16, x mod 16 * 16 + y div 4, y mod 4 * 64 + z] @ decode_groups rest"
| "decode_groups [w, x, y] = [w * 4 + x div 16, x mod 16 * 16 + y div 4]"
| "decode_groups [w, x] = [w * 4 + x div 16]"
| "decode_groups _ = []"

definition sextet_of :: "char \<Rightarrow> nat" where
  "sextet_of c = length (takeWhile (\<lambda>d. d \<noteq> c) alphabet)"

definition base64url_decode :: "string \<Rightarrow> bytes" where
  "base64url_decode s = map of_nat (decode_groups (map sextet_of s))"

lemma length_alphabet [simp]: "length alphabet = 64"
  by (simp add: alphabet_def)

lemma distinct_alphabet: "distinct alphabet"
  by (simp add: alphabet_def)

lemma no_dot_in_alphabet: "CHR ''.'' \<notin> set alphabet"
  by (simp add: alphabet_def)

lemma sextet_of_alphabet: "n < 64 \<Longrightarrow> sextet_of (alphabet ! n) = n"
proof -
  assume n: "n < 64"
  have "takeWhile (\<lambda>d. d \<noteq> alphabet ! n) alphabet = take n alphabet"
  proof (rule takeWhile_eq_take_P_nth)
    show "alphabet ! i \<noteq> alphabet ! n" if "i < n" "i < length alphabet" for i
      using that n distinct_alphabet by (simp add: nth_eq_iff_index_eq)
  qed (use n in auto)
  with n show ?thesis by (simp add: sextet_of_def)
qed

lemma sextet_arith:
  fixes a b c :: nat
  shows "a div 4 * 4 + a mod 4 * 16 div 16 = a"
    and "b < 256 \<Longrightarrow> a div 4 * 4 + (a mod 4 * 16 + b div 16) div 16 = a"
    and "b < 256 \<Longrightarrow> (a mod 4 * 16 + b div 16) mod 16 * 16 + b mod 16 * 4 div 4 = b"
    and "b < 256 \<Longrightarrow> c < 256 \<Longrightarrow>
      (a mod 4 * 16 + b div 16) mod 16 * 16 + (b mod 16 * 4 + c div 64) div 4 = b"
    and "c < 256 \<Longrightarrow> (b mod 16 * 4 + c div 64) mod 4 * 64 + c mod 64 = c"
proof -
  have hi: "b < 256 \<Longrightarrow> b div 16 < 16" "c < 256 \<Longrightarrow> c div 64 < 4" by auto
  have m4: "(x * 16 + y) div 16 = x" "(x * 16 + y) mod 16 = y" if "y < 16" for x y :: nat
    using that by auto
  have m2: "(x * 4 + y) div 4 = x" "(x * 4 + y) mod 4 = y" if "y < 4" for x y :: nat
    using that by auto
  show "a div 4 * 4 + a mod 4 * 16 div 16 = a" by simp
  show "b < 256 \<Longrightarrow> a div 4 * 4 + (a mod 4 * 16 + b div 16) div 16 = a"
    by (simp only: m4 hi) simp
  show "b < 256 \<Longrightarrow> (a mod 4 * 16 + b div 16) mod 16 * 16 + b mod 16 * 4 div 4 = b"
    by (simp only: m4 hi) simp
  show "b < 256 \<Longrightarrow> c < 256 \<Longrightarrow>
      (a mod 4 * 16 + b div 16) mod 16 * 16 + (b mod 16 * 4 + c div 64) div 4 = b"
    by (simp only: m4 m2 hi) simp
  show "c < 256 \<Longrightarrow> (b mod 16 * 4 + c div 64) mod 4 * 64 + c mod 64 = c"
    by (simp only: m2 hi) simp
qed

lemma decode_encode_groups:
  "\<forall>x \<in> set xs. x < 256 \<Longrightarrow> decode_groups (encode_groups xs) = xs"
proof (induction xs rule: encode_groups.induct)
  case (3 a b)
  then show ?case using sextet_arith(2) [of b a] sextet_arith(3) [of b a] by simp
next
  case (4 a b c rest)
  then show ?case using sextet_arith(2) [of b a] sextet_arith(4) [of b c a] sextet_arith(5) [of c b] by simp
qed simp_all

lemma encode_groups_bound: "\<forall>x \<in> set xs. x < 256 \<Longrightarrow> \<forall>y \<in> set (encode_groups xs). y < 64"
  by (induction xs rule: encode_groups.induct) auto

text \<open>Shifting left and or-ing a value below the shift is addition.\<close>

lemma push_or_add:
  fixes a b :: nat
  assumes "b < 2 ^ n"
  shows "push_bit n a OR b = a * 2 ^ n + b"
proof -
  have "bit b i \<Longrightarrow> \<not> n \<le> i" for i
    using assms by (metis bit_take_bit_iff not_le take_bit_nat_eq_self_iff)
  then have "push_bit n a AND b = 0"
    by (intro bit_eqI) (auto simp: bit_simps)
  then show ?thesis
    by (simp add: disjunctive_add_eq_or [symmetric] push_bit_eq_mult)
qed

lemma and_mod:
  fixes a :: nat
  shows "a AND 0x03 = a mod 4" "a AND 0x0f = a mod 16" "a AND 0x3f = a mod 64"
  using take_bit_eq_mask [of 2 a] take_bit_eq_mask [of 4 a] take_bit_eq_mask [of 6 a]
  by (simp_all add: take_bit_eq_mod mask_eq_exp_minus_1)

text \<open>The loop computes the alphabet letters of the groups: no index is out of range.\<close>

lemma alphabet_at_Some: "n < 64 \<Longrightarrow> alphabet_at n = Some (alphabet ! n)"
  by (simp add: alphabet_at_def)

lemma sextets:
  assumes "a < 256" "b < 256" "c < 256"
  shows "alphabet_at (drop_bit 2 a) = Some (alphabet ! (a div 4))"
    and "alphabet_at (push_bit 4 (a AND 0x03) OR drop_bit 4 b)
      = Some (alphabet ! (a mod 4 * 16 + b div 16))"
    and "alphabet_at (push_bit 2 (b AND 0x0f) OR drop_bit 6 c)
      = Some (alphabet ! (b mod 16 * 4 + c div 64))"
    and "alphabet_at (c AND 0x3f) = Some (alphabet ! (c mod 64))"
proof -
  have "drop_bit 4 b = b div 16" "drop_bit 6 c = c div 64" "drop_bit 2 a = a div 4"
    by (simp_all add: drop_bit_eq_div)
  moreover from assms have "b div 16 < 16" "c div 64 < 4" "a div 4 < 64" by auto
  ultimately show "alphabet_at (drop_bit 2 a) = Some (alphabet ! (a div 4))"
    "alphabet_at (push_bit 4 (a AND 0x03) OR drop_bit 4 b)
      = Some (alphabet ! (a mod 4 * 16 + b div 16))"
    "alphabet_at (push_bit 2 (b AND 0x0f) OR drop_bit 6 c)
      = Some (alphabet ! (b mod 16 * 4 + c div 64))"
    "alphabet_at (c AND 0x3f) = Some (alphabet ! (c mod 64))"
    using push_or_add [of "b div 16" 4] push_or_add [of "c div 64" 2]
    by (simp_all add: and_mod alphabet_at_Some)
qed

lemma unat_byte [simp]: "unat (b :: u8) < 256"
  using unsigned_less [of b] by simp

lemma byte_or_zero_bound [simp]: "byte_or_zero data i < 256"
  by (simp add: byte_or_zero_def)

lemma drop_step: "i < length data \<Longrightarrow> map unat (drop i data) = unat (data ! i) # map unat (drop (Suc i) data)"
  by (simp add: Cons_nth_drop_Suc [symmetric])

lemma base64url_loop_groups:
  "base64url_loop data i result =
     Some (result @ map ((!) alphabet) (encode_groups (map unat (drop i data))))"
proof (induction "length data - i" arbitrary: i result rule: less_induct)
  case less
  let ?b0 = "unat (data ! i)" and ?b1 = "byte_or_zero data (i + 1)" and ?b2 = "byte_or_zero data (i + 2)"
  note step = sextets [of ?b0 ?b1 ?b2, simplified]
  consider "length data \<le> i" | "length data = i + 1" | "length data = i + 2" | "i + 2 < length data"
    by linarith
  then show ?case
  proof cases
    case 1
    then show ?thesis by (simp add: base64url_loop.simps [of data i])
  next
    case 2
    then have "map unat (drop i data) = [?b0]" and "?b1 = 0"
      by (simp_all add: drop_step byte_or_zero_def)
    with 2 step less show ?thesis
      by (simp add: base64url_loop.simps [of data i] Let_def)
  next
    case 3
    then have "map unat (drop i data) = [?b0, ?b1]" and "?b2 = 0"
      by (simp_all add: drop_step byte_or_zero_def)
    with 3 step less show ?thesis
      by (simp add: base64url_loop.simps [of data i] Let_def)
  next
    case 4
    then have "map unat (drop i data) = ?b0 # ?b1 # ?b2 # map unat (drop (i + 3) data)"
      by (simp add: drop_step byte_or_zero_def numeral_3_eq_3)
    with 4 step less show ?thesis
      by (simp add: base64url_loop.simps [of data i] Let_def)
  qed
qed

lemma base64url_encode_groups:
  "base64url_encode data = Some (map ((!) alphabet) (encode_groups (map unat data)))"
  by (simp add: base64url_encode_def base64url_loop_groups)

lemma base64url_chars:
  "base64url_encode data = Some s \<Longrightarrow> set s \<subseteq> set alphabet"
  using encode_groups_bound [of "map unat data"]
  by (auto simp: base64url_encode_groups)

lemma base64url_decode_encode:
  "base64url_encode data = Some s \<Longrightarrow> base64url_decode s = data"
proof -
  assume "base64url_encode data = Some s"
  then have s: "s = map ((!) alphabet) (encode_groups (map unat data))"
    by (simp add: base64url_encode_groups)
  have "map sextet_of s = encode_groups (map unat data)"
    unfolding s using encode_groups_bound [of "map unat data"]
    by (auto simp: sextet_of_alphabet intro!: map_idI)
  then show ?thesis
    by (simp add: base64url_decode_def decode_encode_groups map_idI)
qed

section \<open>HMAC-SHA256\<close>

definition hmac_block_size :: nat where
  "hmac_block_size = 64"

text \<open>The key block: a long key is hashed first, then zeros fill the block.\<close>

definition hmac_key_block :: "(bytes \<Rightarrow> bytes) \<Rightarrow> bytes \<Rightarrow> bytes" where
  "hmac_key_block sha256 key =
     (if length key > hmac_block_size then sha256 key @ replicate (hmac_block_size - 32) 0
      else key @ replicate (hmac_block_size - length key) 0)"

definition hmac_sha256 :: "(bytes \<Rightarrow> bytes) \<Rightarrow> bytes \<Rightarrow> bytes \<Rightarrow> bytes" where
  "hmac_sha256 sha256 key message =
     (let key_block = hmac_key_block sha256 key;
          inner = map (\<lambda>b. 0x36 XOR b) key_block;
          outer = map (\<lambda>b. 0x5c XOR b) key_block;
          inner_hash = sha256 (inner @ message)
      in sha256 (outer @ inner_hash))"

text \<open>RFC 2104: \<open>H((K xor opad) || H((K xor ipad) || text))\<close>, with K padded to the block.\<close>

definition rfc2104 :: "(bytes \<Rightarrow> bytes) \<Rightarrow> nat \<Rightarrow> bytes \<Rightarrow> bytes \<Rightarrow> bytes" where
  "rfc2104 H B K txt =
     (let K' = (if length K > B then H K else K);
          K0 = take B (K' @ replicate B 0)
      in H (map2 (XOR) K0 (replicate B 0x5c) @ H (map2 (XOR) K0 (replicate B 0x36) @ txt)))"

lemma map2_replicate: "length xs = n \<Longrightarrow> map2 f xs (replicate n y) = map (\<lambda>x. f x y) xs"
  by (induction n arbitrary: xs) (auto simp: length_Suc_conv)

lemma length_hmac_key_block:
  "(\<And>x. length (sha256 x) = 32) \<Longrightarrow> length (hmac_key_block sha256 key) = 64"
  by (simp add: hmac_key_block_def hmac_block_size_def)

lemma hmac_key_block_take:
  "(\<And>x. length (sha256 x) = 32) \<Longrightarrow>
     hmac_key_block sha256 key =
       take 64 ((if length key > 64 then sha256 key else key) @ replicate 64 0)"
  by (simp add: hmac_key_block_def hmac_block_size_def min_def)

lemma hmac_rfc2104:
  assumes "\<And>x. length (sha256 x) = 32"
  shows "hmac_sha256 sha256 key message = rfc2104 sha256 64 key message"
proof -
  have kb: "length (hmac_key_block sha256 key) = 64"
    by (rule length_hmac_key_block) (rule assms)
  have tk: "take 64 ((if length key > 64 then sha256 key else key) @ replicate 64 0)
      = hmac_key_block sha256 key"
    by (rule hmac_key_block_take [symmetric]) (rule assms)
  show ?thesis
    unfolding rfc2104_def Let_def tk
    by (simp add: hmac_sha256_def Let_def map2_replicate kb xor.commute)
qed

section \<open>Tokens\<close>

definition jwt_header :: string where
  \<open>jwt_header = ''{"alg":"HS256","typ":"JWT"}''\<close>

definition jwt_payload :: "u64 \<Rightarrow> string" where
  \<open>jwt_payload now = ''{"iat":'' @ show_nat (unat now) @ ''}''\<close>

text \<open>
  \<open>t\<close> is the reading of the wall clock, in seconds since the epoch, \<open>None\<close> when the clock is
  before it (then the code uses 0).
\<close>

definition build_token ::
  "(bytes \<Rightarrow> bytes) \<Rightarrow> (string \<Rightarrow> string + bytes) \<Rightarrow> u64 option \<Rightarrow> string \<Rightarrow> (string + string) option" where
  "build_token sha256 hex_decode t secret_hex =
     (case hex_decode (trim_start_0x secret_hex) of
        Inl e \<Rightarrow> Some (Inl (''invalid hex: '' @ e))
      | Inr secret_bytes \<Rightarrow>
          if length secret_bytes \<noteq> 32
          then Some (Inl (''JWT secret must be 32 bytes, got '' @ show_nat (length secret_bytes)))
          else do {
            let now = (case t of Some d \<Rightarrow> d | None \<Rightarrow> 0);
            header_b64 \<leftarrow> base64url_encode (string_bytes jwt_header);
            payload_b64 \<leftarrow> base64url_encode (string_bytes (jwt_payload now));
            let message = header_b64 @ ''.'' @ payload_b64;
            let sg = hmac_sha256 sha256 secret_bytes (string_bytes message);
            signature_b64 \<leftarrow> base64url_encode sg;
            Some (Inr (message @ ''.'' @ signature_b64))
          })"

text \<open>
  What a receiver checks: three parts separated by dots, and the HMAC of the first two under the
  shared key; it reads the decoded header and payload.
\<close>

definition token_open :: "(bytes \<Rightarrow> bytes) \<Rightarrow> bytes \<Rightarrow> string \<Rightarrow> (bytes \<times> bytes) option" where
  "token_open sha256 key token =
     (case split_on CHR ''.'' token of
        [h, p, s] \<Rightarrow>
          if base64url_decode s = rfc2104 sha256 64 key (string_bytes (h @ ''.'' @ p))
          then Some (base64url_decode h, base64url_decode p) else None
      | _ \<Rightarrow> None)"

lemma build_token_not_panic: "build_token sha256 hex_decode t secret \<noteq> None"
  by (auto simp: build_token_def Let_def base64url_encode_groups split: sum.splits)

lemma build_token_Ok_iff:
  "(\<exists>token. build_token sha256 hex_decode t secret = Some (Inr token)) \<longleftrightarrow>
     (\<exists>key. hex_decode (trim_start_0x secret) = Inr key \<and> length key = 32)"
  by (auto simp: build_token_def Let_def base64url_encode_groups split: sum.splits if_splits)

lemma build_token_key:
  "build_token sha256 hex_decode t secret = Some (Inr token) \<Longrightarrow>
     \<exists>key. hex_decode (trim_start_0x secret) = Inr key \<and> length key = 32"
  using build_token_Ok_iff by blast

lemma base64url_no_dot: "base64url_encode d = Some s \<Longrightarrow> CHR ''.'' \<notin> set s"
  using base64url_chars no_dot_in_alphabet by blast

lemma split_token:
  assumes "CHR ''.'' \<notin> set a" "CHR ''.'' \<notin> set b" "CHR ''.'' \<notin> set c"
  shows "split_on CHR ''.'' ((a @ ''.'' @ b) @ ''.'' @ c) = [a, b, c]"
  using assms by (simp add: split_on_append split_on_not_in)

text \<open>
  C31: a token that \<open>build_token\<close> returns opens at a receiver that shares the decoded secret:
  it has exactly three dot-separated parts, its signature is the RFC 2104 HMAC of the first two
  under the 32-byte key, and the parts decode to the HS256 header and the issue time of the call.
\<close>

theorem jwt_token_opens:
  assumes sha: "\<forall>x. length (sha256 x) = 32"
    and tok: "build_token sha256 hex_decode t secret = Some (Inr token)"
    and key: "hex_decode (trim_start_0x secret) = Inr key"
  shows "token_open sha256 key token =
    Some (string_bytes jwt_header, string_bytes (jwt_payload (case t of Some d \<Rightarrow> d | None \<Rightarrow> 0)))"
proof -
  let ?p = "string_bytes (jwt_payload (case t of Some d \<Rightarrow> d | None \<Rightarrow> 0))"
  from tok key obtain h p s where
    h: "base64url_encode (string_bytes jwt_header) = Some h" and
    p: "base64url_encode ?p = Some p" and
    s: "base64url_encode (hmac_sha256 sha256 key (string_bytes (h @ ''.'' @ p))) = Some s" and
    token: "token = (h @ ''.'' @ p) @ ''.'' @ s"
    by (auto simp: build_token_def Let_def bind_eq_Some_conv split: if_splits)
  have "split_on CHR ''.'' token = [h, p, s]"
    unfolding token by (intro split_token base64url_no_dot) (rule h p s)+
  then show ?thesis
    using h p s sha
    by (simp add: token_open_def base64url_decode_encode hmac_rfc2104)
qed

theorem jwt_token_opens_witness:
  "\<exists>token. build_token (\<lambda>_. replicate 32 7) (\<lambda>_. Inr (replicate 32 1)) (Some 5) ''0xab''
       = Some (Inr token) \<and>
     token_open (\<lambda>_. replicate 32 7) (replicate 32 1) token
       = Some (string_bytes jwt_header, string_bytes (jwt_payload 5))"
proof -
  let ?sha = "\<lambda>_ :: bytes. replicate 32 (7 :: u8)" and ?dec = "\<lambda>_ :: string. Inr (replicate 32 (1 :: u8)) :: string + bytes"
  have sha: "\<forall>x. length (?sha x) = 32" by simp
  have key: "?dec (trim_start_0x ''0xab'') = Inr (replicate 32 1)" by simp
  then obtain token where tok: "build_token ?sha ?dec (Some 5) ''0xab'' = Some (Inr token)"
    using build_token_Ok_iff [of ?sha ?dec "Some 5" "''0xab''"] by auto
  from jwt_token_opens [OF sha tok key] tok show ?thesis by auto
qed

end
