(* ===== verification/Forkchoice.thy ===== *)
theory Forkchoice
  imports Prelude
begin

text \<open>
  The forkchoice pointers (crates/execution, \<open>src/forkchoice.rs\<close>): the head and the safe block
  move with soft confirmations, the finalized block with firm ones.
\<close>

record forkchoice_state =
  fc_head :: b256
  fc_safe :: b256
  fc_finalized :: b256

definition fc_genesis :: "b256 \<Rightarrow> forkchoice_state" where
  "fc_genesis h = \<lparr>fc_head = h, fc_safe = h, fc_finalized = h\<rparr>"

definition with_soft :: "forkchoice_state \<Rightarrow> b256 \<Rightarrow> forkchoice_state" where
  "with_soft s h = \<lparr>fc_head = h, fc_safe = h, fc_finalized = fc_finalized s\<rparr>"

definition with_firm :: "forkchoice_state \<Rightarrow> b256 \<Rightarrow> forkchoice_state" where
  "with_firm s h = \<lparr>fc_head = fc_head s, fc_safe = fc_safe s, fc_finalized = h\<rparr>"

definition fc_default :: forkchoice_state where
  "fc_default = fc_genesis 0"

lemma forkchoice_fields [simp]:
  "fc_head (fc_genesis h) = h" "fc_safe (fc_genesis h) = h" "fc_finalized (fc_genesis h) = h"
  "fc_head (with_soft s h) = h" "fc_safe (with_soft s h) = h"
  "fc_finalized (with_soft s h) = fc_finalized s"
  "fc_head (with_firm s h) = fc_head s" "fc_safe (with_firm s h) = fc_safe s"
  "fc_finalized (with_firm s h) = h"
  by (simp_all add: fc_genesis_def with_soft_def with_firm_def)

text \<open>Soft and firm confirmations touch different pointers, so their order does not matter.\<close>

lemma soft_firm_commute: "with_soft (with_firm s f) h = with_firm (with_soft s h) f"
  by (simp add: with_soft_def with_firm_def)

text \<open>The head-safe agreement of a proof-of-authority chain.\<close>

definition head_is_safe :: "forkchoice_state \<Rightarrow> bool" where
  "head_is_safe s \<longleftrightarrow> fc_head s = fc_safe s"

lemma head_is_safe_updates [simp]:
  "head_is_safe (fc_genesis h)"
  "head_is_safe (with_soft s h)"
  "head_is_safe (with_firm s h) \<longleftrightarrow> head_is_safe s"
  by (simp_all add: head_is_safe_def)

end
