(* ===== verification/Payload.thy ===== *)
theory Payload
  imports Prelude Block_Types
begin

text \<open>
  The payload types (crates/execution, \<open>src/payload.rs\<close>) and the conversions between a payload
  that reth built, the Engine API payload that is sent back to reth, and the block that the
  validators agree on (\<open>BuiltPayload::to_execution_payload\<close>, \<open>ExecutionClient::build_payload\<close> and
  the end of \<open>get_payload\<close> in \<open>src/client.rs\<close>, \<open>build_block_from_payload\<close> in crates/consensus,
  \<open>src/application.rs\<close>). The number and bloom types of alloy are not in the repository; their
  conversions, two of which panic, are the fields of \<open>alloy\<close>.
\<close>

record alloy =
  bloom_from_slice :: "bytes \<Rightarrow> bytes option"
  u256_from_u64 :: "u64 \<Rightarrow> u256"
  u256_to_u64 :: "u256 \<Rightarrow> u64 option"

section \<open>Payload types\<close>

record built_payload =
  pl_block_hash :: b256
  pl_block_number :: u64
  pl_parent_hash :: b256
  pl_fee_recipient :: address
  pl_state_root :: b256
  pl_receipts_root :: b256
  pl_logs_bloom :: bytes
  pl_prev_randao :: b256
  pl_extra_data :: bytes
  pl_gas_limit :: u64
  pl_gas_used :: u64
  pl_timestamp :: u64
  pl_transactions :: "bytes list"
  pl_base_fee_per_gas :: u64

text \<open>The Engine API payload in the version that the code sends, flattened into one record.\<close>

record execution_payload =
  ep_parent_hash :: b256
  ep_fee_recipient :: address
  ep_state_root :: b256
  ep_receipts_root :: b256
  ep_logs_bloom :: bytes
  ep_prev_randao :: b256
  ep_block_number :: u64
  ep_gas_limit :: u64
  ep_gas_used :: u64
  ep_timestamp :: u64
  ep_extra_data :: bytes
  ep_base_fee_per_gas :: u256
  ep_block_hash :: b256
  ep_transactions :: "bytes list"
  ep_withdrawals :: "bytes list"
  ep_blob_gas_used :: u64
  ep_excess_blob_gas :: u64

datatype execution_status = ES_Valid | ES_Invalid string | ES_Syncing | ES_Accepted

record execution_result =
  er_block_hash :: b256
  er_block_number :: u64
  er_gas_used :: u64
  er_status :: execution_status

fun execution_result_is_valid :: "execution_result \<Rightarrow> bool" where
  "execution_result_is_valid r = (case er_status r of ES_Valid \<Rightarrow> True | _ \<Rightarrow> False)"

section \<open>Conversions\<close>

definition to_execution_payload :: "alloy \<Rightarrow> built_payload \<Rightarrow> execution_payload option" where
  "to_execution_payload L p =
     do {
       bloom \<leftarrow> bloom_from_slice L (pl_logs_bloom p);
       Some \<lparr>ep_parent_hash = pl_parent_hash p,
             ep_fee_recipient = pl_fee_recipient p,
             ep_state_root = pl_state_root p,
             ep_receipts_root = pl_receipts_root p,
             ep_logs_bloom = bloom,
             ep_prev_randao = pl_prev_randao p,
             ep_block_number = pl_block_number p,
             ep_gas_limit = pl_gas_limit p,
             ep_gas_used = pl_gas_used p,
             ep_timestamp = pl_timestamp p,
             ep_extra_data = pl_extra_data p,
             ep_base_fee_per_gas = u256_from_u64 L (pl_base_fee_per_gas p),
             ep_block_hash = pl_block_hash p,
             ep_transactions = pl_transactions p,
             ep_withdrawals = [],
             ep_blob_gas_used = 0,
             ep_excess_blob_gas = 0\<rparr>
     }"

definition build_payload :: "alloy \<Rightarrow> block \<Rightarrow> execution_payload option" where
  "build_payload L b =
     do {
       bloom \<leftarrow> bloom_from_slice L (blk_logs_bloom b);
       Some \<lparr>ep_parent_hash = block_parent_hash b,
             ep_fee_recipient = hdr_proposer (blk_header b),
             ep_state_root = blk_state_root b,
             ep_receipts_root = blk_receipts_root b,
             ep_logs_bloom = bloom,
             ep_prev_randao = blk_prev_randao b,
             ep_block_number = block_height b,
             ep_gas_limit = blk_gas_limit b,
             ep_gas_used = blk_gas_used b,
             ep_timestamp = block_timestamp b,
             ep_extra_data = blk_extra_data b,
             ep_base_fee_per_gas = u256_from_u64 L (blk_base_fee_per_gas b),
             ep_block_hash = blk_block_hash b,
             ep_transactions = map tx_data (blk_transactions b),
             ep_withdrawals = [],
             ep_blob_gas_used = 0,
             ep_excess_blob_gas = 0\<rparr>
     }"

text \<open>The end of \<open>get_payload\<close>: the fields of the response, the base fee narrowed to 64 bits.\<close>

definition built_payload_of :: "alloy \<Rightarrow> execution_payload \<Rightarrow> built_payload option" where
  "built_payload_of L v =
     do {
       fee \<leftarrow> u256_to_u64 L (ep_base_fee_per_gas v);
       Some \<lparr>pl_block_hash = ep_block_hash v,
             pl_block_number = ep_block_number v,
             pl_parent_hash = ep_parent_hash v,
             pl_fee_recipient = ep_fee_recipient v,
             pl_state_root = ep_state_root v,
             pl_receipts_root = ep_receipts_root v,
             pl_logs_bloom = ep_logs_bloom v,
             pl_prev_randao = ep_prev_randao v,
             pl_extra_data = ep_extra_data v,
             pl_gas_limit = ep_gas_limit v,
             pl_gas_used = ep_gas_used v,
             pl_timestamp = ep_timestamp v,
             pl_transactions = ep_transactions v,
             pl_base_fee_per_gas = fee\<rparr>
     }"

definition build_block_from_payload :: "built_payload \<Rightarrow> block" where
  "build_block_from_payload p =
     (let header = \<lparr>hdr_height = pl_block_number p,
                    hdr_timestamp = pl_timestamp p,
                    hdr_parent_hash = pl_parent_hash p,
                    hdr_proposer = pl_fee_recipient p\<rparr>;
          transactions = map transaction_new (pl_transactions p)
      in block_new
           \<lparr>bp_header = header,
            bp_transactions = transactions,
            bp_state_root = pl_state_root p,
            bp_receipts_root = pl_receipts_root p,
            bp_logs_bloom = pl_logs_bloom p,
            bp_prev_randao = pl_prev_randao p,
            bp_extra_data = pl_extra_data p,
            bp_gas_used = pl_gas_used p,
            bp_gas_limit = pl_gas_limit p,
            bp_base_fee_per_gas = pl_base_fee_per_gas p,
            bp_block_hash = pl_block_hash p\<rparr>)"

lemma build_block_fields [simp]:
  "block_height (build_block_from_payload p) = pl_block_number p"
  "block_timestamp (build_block_from_payload p) = pl_timestamp p"
  "block_parent_hash (build_block_from_payload p) = pl_parent_hash p"
  "blk_block_hash (build_block_from_payload p) = pl_block_hash p"
  "block_tx_count (build_block_from_payload p) = length (pl_transactions p)"
  "blk_signatures (build_block_from_payload p) = []"
  by (simp_all add: build_block_from_payload_def block_new_def block_access Let_def)

lemma block_payload_same:
  "build_payload L (build_block_from_payload p) = to_execution_payload L p"
  by (simp add: build_payload_def to_execution_payload_def build_block_from_payload_def
      block_new_def block_access Let_def comp_def cong: Option.bind_cong)

section \<open>Properties\<close>

text \<open>
  C37: the two ways to send a proposed block to reth agree. The payload that a validator rebuilds
  from the agreed block when it executes it is the payload that the leader applies directly, with
  every field the block hash depends on, and both panic on the same bloom filters.
\<close>

theorem block_payload_agrees:
  "build_payload L (build_block_from_payload p) = to_execution_payload L p"
  by (rule block_payload_same)

text \<open>
  A payload fetched from reth and sent back is unchanged: when the number and bloom
  conversions of alloy behave as documented on the response (the fee fits in 64 bits, the bloom is
  a bloom), and the response carries no withdrawals and no blob gas, as in a proof-of-authority
  chain, \<open>newPayloadV3\<close> receives exactly the payload that \<open>getPayloadV3\<close> returned.
\<close>

theorem fetched_payload_roundtrip:
  assumes "u256_to_u64 L (ep_base_fee_per_gas v) = Some fee"
    and "u256_from_u64 L fee = ep_base_fee_per_gas v"
    and "bloom_from_slice L (ep_logs_bloom v) = Some (ep_logs_bloom v)"
    and "ep_withdrawals v = []" "ep_blob_gas_used v = 0" "ep_excess_blob_gas v = 0"
  shows "\<exists>p. built_payload_of L v = Some p \<and> to_execution_payload L p = Some v"
  using assms by (simp add: built_payload_of_def to_execution_payload_def)

definition alloy_example :: alloy where
  "alloy_example =
     \<lparr>bloom_from_slice = (\<lambda>bs. if length bs = 256 then Some bs else None),
      u256_from_u64 = ucast,
      u256_to_u64 = (\<lambda>x. if x < 2 ^ 64 then Some (ucast x) else None)\<rparr>"

definition engine_payload_example :: execution_payload where
  "engine_payload_example =
     \<lparr>ep_parent_hash = 1, ep_fee_recipient = 2, ep_state_root = 3, ep_receipts_root = 4,
      ep_logs_bloom = replicate 256 0, ep_prev_randao = 5, ep_block_number = 6, ep_gas_limit = 7,
      ep_gas_used = 8, ep_timestamp = 9, ep_extra_data = [10], ep_base_fee_per_gas = 11,
      ep_block_hash = 12, ep_transactions = [[13], [14, 15]], ep_withdrawals = [],
      ep_blob_gas_used = 0, ep_excess_blob_gas = 0\<rparr>"

theorem fetched_payload_roundtrip_witness:
  "\<exists>p. built_payload_of alloy_example engine_payload_example = Some p \<and>
     to_execution_payload alloy_example p = Some engine_payload_example"
  by (rule fetched_payload_roundtrip [where fee = 11])
    (simp_all add: alloy_example_def engine_payload_example_def)

end
