(* ===== verification/Execution_Client.thy ===== *)
theory Execution_Client
  imports Host Jwt Forkchoice Payload
begin

text \<open>
  The Engine API client (crates/execution, \<open>src/client.rs\<close>, \<open>src/error.rs\<close>, and the traits
  \<open>Execution\<close> and \<open>BlockBuilder\<close> of \<open>src/lib.rs\<close>). reth itself is an argument, the record
  \<open>engine_api\<close>: one function per RPC method, over the outside world. The client's own mutable
  state is the cached forkchoice, which lives in the world of type \<open>exec_world\<close> beside the outside
  world. The two traits are records of operations over any world, and the client gives one value of
  each; their contracts are the locales of the last section.
\<close>

section \<open>Errors and wire types\<close>

datatype exec_error =
    Exec_ConnectionFailed string
  | Exec_ExecutionFailed string
  | Exec_InvalidBlock string
  | Exec_ForkchoiceFailed string
  | Exec_ParentNotFound b256
  | Exec_InvalidJwt string
  | Exec_Rpc string
  | Exec_Internal string

datatype payload_status_enum = PS_Valid | PS_Invalid string | PS_Syncing | PS_Accepted

record payload_status =
  ps_status :: payload_status_enum
  ps_latest_valid_hash :: "b256 option"

record engine_forkchoice_state =
  head_block_hash :: b256
  safe_block_hash :: b256
  finalized_block_hash :: b256

record payload_attributes =
  pa_timestamp :: u64
  pa_prev_randao :: b256
  pa_suggested_fee_recipient :: address
  pa_withdrawals :: "bytes list option"
  pa_parent_beacon_block_root :: "b256 option"

record forkchoice_updated =
  fu_payload_status :: payload_status
  fu_payload_id :: "bytes option"

text \<open>A block header as the JSON-RPC response carries it: quantities are hexadecimal strings.\<close>

record raw_block =
  rb_hash :: b256
  rb_number :: string
  rb_timestamp :: string

record http_client =
  http_url :: string
  http_bearer :: string

record 'x engine_api =
  api_new_payload ::
    "http_client \<Rightarrow> execution_payload \<Rightarrow> b256 list \<Rightarrow> b256 \<Rightarrow> ('x, string + payload_status) io"
  api_forkchoice_updated ::
    "http_client \<Rightarrow> engine_forkchoice_state \<Rightarrow> payload_attributes option
      \<Rightarrow> ('x, string + forkchoice_updated) io"
  api_get_payload :: "http_client \<Rightarrow> bytes \<Rightarrow> ('x, string + execution_payload) io"
  api_get_block :: "http_client \<Rightarrow> string \<Rightarrow> bool \<Rightarrow> ('x, string + raw_block) io"

text \<open>Library functions the client calls: hashing, decoding, the header and HTTP builders, alloy.\<close>

record libs =
  lib_sha256 :: "bytes \<Rightarrow> bytes"
  lib_hex_decode :: "string \<Rightarrow> string + bytes"
  lib_header_value :: "string \<Rightarrow> string + unit"
  lib_http_build :: "string \<Rightarrow> string + unit"
  lib_decode_error :: "string \<Rightarrow> string"
  lib_alloy :: alloy

record exec_client =
  ec_reth_url :: string
  ec_jwt_secret :: string

record 'x exec_world =
  ew_forkchoice :: forkchoice_state
  ew_outside :: 'x

text \<open>Everything the client is built with and works against.\<close>

record 'x exec_env =
  ee_client :: exec_client
  ee_libs :: libs
  ee_host :: "'x host"
  ee_api :: "'x engine_api"

text \<open>An effect on the outside world, seen from the client's world.\<close>

definition outside :: "('x, 'a) io \<Rightarrow> ('x exec_world, 'a) act" where
  "outside f w = (let (a, x) = f (ew_outside w) in Some (a, w\<lparr>ew_outside := x\<rparr>))"

lemma outside_forkchoice:
  "outside f w = Some (a, w') \<Longrightarrow> ew_forkchoice w' = ew_forkchoice w"
  by (auto simp: outside_def split: prod.splits)

lemma no_panic_outside [no_panic_intros, simp]: "no_panic (outside f) w"
  by (simp add: no_panic_def outside_def split: prod.splits)

section \<open>Building the client\<close>

definition exec_client_new ::
  "libs \<Rightarrow> 'x host \<Rightarrow> string \<Rightarrow> string \<Rightarrow> ('x, exec_error + exec_client) act" where
  "exec_client_new L H reth_url jwt_secret_path x =
     (if reth_url = [] then Some (Inl (Exec_ConnectionFailed ''reth_url cannot be empty''), x)
      else (let (contents, x1) = read_file H jwt_secret_path x in
        case contents of
          Inl e \<Rightarrow> Some (Inl (Exec_ConnectionFailed (''failed to read JWT secret: '' @ e)), x1)
        | Inr text \<Rightarrow>
            let jwt_secret = trim_start_0x (trim text);
                (t, x2) = clock H x1
            in do {
              token \<leftarrow> build_token (lib_sha256 L) (lib_hex_decode L) t jwt_secret;
              case token of
                Inl e \<Rightarrow> Some (Inl (Exec_ConnectionFailed (''invalid JWT secret: '' @ e)), x2)
              | Inr _ \<Rightarrow>
                  Some (Inr \<lparr>ec_reth_url = reth_url, ec_jwt_secret = jwt_secret\<rparr>, x2)
            }))"

text \<open>\<open>ExecutionClient::client\<close>: a fresh token for every call.\<close>

definition ec_http_client :: "'x exec_env \<Rightarrow> ('x exec_world, exec_error + http_client) act" where
  "ec_http_client E =
     bind_act (outside (clock (ee_host E))) (\<lambda>t.
     bind_act (unwrap (build_token (lib_sha256 (ee_libs E)) (lib_hex_decode (ee_libs E)) t
                 (ec_jwt_secret (ee_client E)))) (\<lambda>token.
     case token of
       Inl e \<Rightarrow> ret (Inl (Exec_ConnectionFailed (''failed to build JWT: '' @ e)))
     | Inr jwt_token \<Rightarrow>
         (case lib_header_value (ee_libs E) (''Bearer '' @ jwt_token) of
            Inl e \<Rightarrow> ret (Inl (Exec_ConnectionFailed (''invalid header value: '' @ e)))
          | Inr _ \<Rightarrow>
              (case lib_http_build (ee_libs E) (ec_reth_url (ee_client E)) of
                 Inl e \<Rightarrow> ret (Inl (Exec_ConnectionFailed (''failed to build HTTP client: '' @ e)))
               | Inr _ \<Rightarrow>
                   ret (Inr \<lparr>http_url = ec_reth_url (ee_client E),
                            http_bearer = ''Bearer '' @ jwt_token\<rparr>)))))"

text \<open>\<open>self.client()?.request(...).await.map_err(...)\<close>.\<close>

definition rpc_request ::
  "'x exec_env \<Rightarrow> (string \<Rightarrow> exec_error) \<Rightarrow> (http_client \<Rightarrow> ('x, string + 'a) io)
    \<Rightarrow> ('x exec_world, exec_error + 'a) act" where
  "rpc_request E err call =
     bind_try (ec_http_client E) (\<lambda>http.
     bind_act (outside (call http)) (\<lambda>response. ret (map_err err response)))"

section \<open>Queries\<close>

definition get_genesis_hash :: "'x exec_env \<Rightarrow> ('x exec_world, exec_error + b256) act" where
  "get_genesis_hash E =
     bind_try (rpc_request E (\<lambda>e. Exec_ConnectionFailed (''failed to get genesis: '' @ e))
                 (\<lambda>http. api_get_block (ee_api E) http ''0x0'' False)) (\<lambda>response.
     ret (Inr (rb_hash response)))"

definition deserialize_u64_hex :: "string \<Rightarrow> u64 option" where
  "deserialize_u64_hex s = parse_u64 16 (trim_start_0x s)"

text \<open>
  \<open>get_head\<close>: a quantity that does not parse makes the response undecodable, an RPC error.
\<close>

definition decode_head :: "libs \<Rightarrow> raw_block \<Rightarrow> string + b256 \<times> u64 \<times> u64" where
  "decode_head L r =
     (case deserialize_u64_hex (rb_number r) of
        None \<Rightarrow> Inl (lib_decode_error L (rb_number r))
      | Some number \<Rightarrow>
          (case deserialize_u64_hex (rb_timestamp r) of
             None \<Rightarrow> Inl (lib_decode_error L (rb_timestamp r))
           | Some timestamp \<Rightarrow> Inr (rb_hash r, number, timestamp)))"

definition get_head :: "'x exec_env \<Rightarrow> ('x exec_world, exec_error + b256 \<times> u64 \<times> u64) act" where
  "get_head E =
     rpc_request E (\<lambda>e. Exec_ConnectionFailed (''failed to get head: '' @ e))
       (\<lambda>http x. let (response, x') = api_get_block (ee_api E) http ''latest'' False x
                 in (case response of Inl e \<Rightarrow> Inl e | Inr r \<Rightarrow> decode_head (ee_libs E) r, x'))"

section \<open>Payloads and forkchoice\<close>

definition check_payload_status_for_import :: "payload_status_enum \<Rightarrow> exec_error + unit" where
  "check_payload_status_for_import status =
     (case status of
        PS_Valid \<Rightarrow> Inr ()
      | PS_Accepted \<Rightarrow> Inr ()
      | PS_Syncing \<Rightarrow> Inr ()
      | PS_Invalid validation_error \<Rightarrow> Inl (Exec_InvalidBlock validation_error))"

definition new_payload_request ::
  "'x exec_env \<Rightarrow> execution_payload \<Rightarrow> ('x exec_world, exec_error + payload_status) act" where
  "new_payload_request E p =
     rpc_request E (\<lambda>e. Exec_ExecutionFailed (''newPayload RPC failed: '' @ e))
       (\<lambda>http. api_new_payload (ee_api E) http p [] 0)"

definition call_new_payload :: "'x exec_env \<Rightarrow> built_payload \<Rightarrow> ('x exec_world, exec_error + unit) act" where
  "call_new_payload E p =
     bind_act (unwrap (to_execution_payload (lib_alloy (ee_libs E)) p)) (\<lambda>execution_payload.
     bind_try (new_payload_request E execution_payload) (\<lambda>response.
     ret (check_payload_status_for_import (ps_status response))))"

definition import_payload :: "'x exec_env \<Rightarrow> built_payload \<Rightarrow> ('x exec_world, exec_error + unit) act" where
  "import_payload E p =
     bind_act (unwrap (to_execution_payload (lib_alloy (ee_libs E)) p)) (\<lambda>execution_payload.
     bind_try (new_payload_request E execution_payload) (\<lambda>response.
     case ps_status response of
       PS_Valid \<Rightarrow> ret (Inr ())
     | PS_Accepted \<Rightarrow> ret (Inr ())
     | PS_Syncing \<Rightarrow> ret (Inr ())
     | PS_Invalid validation_error \<Rightarrow> ret (Inl (Exec_InvalidBlock validation_error))))"

definition update_forkchoice ::
  "'x exec_env \<Rightarrow> forkchoice_state \<Rightarrow> ('x exec_world, exec_error + unit) act" where
  "update_forkchoice E state =
     (let engine_state = \<lparr>head_block_hash = fc_head state,
                          safe_block_hash = fc_safe state,
                          finalized_block_hash = fc_finalized state\<rparr>
      in bind_try (rpc_request E (\<lambda>e. Exec_ForkchoiceFailed (''forkchoiceUpdated RPC failed: '' @ e))
           (\<lambda>http. api_forkchoice_updated (ee_api E) http engine_state None)) (\<lambda>response.
         case ps_status (fu_payload_status response) of
           PS_Invalid validation_error \<Rightarrow> ret (Inl (Exec_ForkchoiceFailed validation_error))
         | _ \<Rightarrow> (\<lambda>w. Some (Inr (), w\<lparr>ew_forkchoice := state\<rparr>))))"

definition forkchoice :: "'x exec_env \<Rightarrow> ('x exec_world, exec_error + forkchoice_state) act" where
  "forkchoice E w = Some (Inr (ew_forkchoice w), w)"

definition update_forkchoice_for_payload ::
  "'x exec_env \<Rightarrow> built_payload \<Rightarrow> ('x exec_world, exec_error + unit) act" where
  "update_forkchoice_for_payload E p w =
     (let new_state = \<lparr>fc_head = pl_block_hash p, fc_safe = pl_block_hash p,
                       fc_finalized = fc_finalized (ew_forkchoice w)\<rparr>
      in update_forkchoice E new_state w)"

definition apply_built_payload ::
  "'x exec_env \<Rightarrow> built_payload \<Rightarrow> ('x exec_world, exec_error + unit) act" where
  "apply_built_payload E p =
     bind_try (call_new_payload E p) (\<lambda>_.
     bind_try (update_forkchoice_for_payload E p) (\<lambda>_. ret (Inr ())))"

definition execute_block :: "'x exec_env \<Rightarrow> block \<Rightarrow> ('x exec_world, exec_error + execution_result) act" where
  "execute_block E b =
     bind_act (unwrap (build_payload (lib_alloy (ee_libs E)) b)) (\<lambda>payload.
     bind_try (new_payload_request E payload) (\<lambda>response.
     let result = (\<lambda>status. Inr \<lparr>er_block_hash =
                       (case ps_latest_valid_hash response of Some h \<Rightarrow> h | None \<Rightarrow> blk_block_hash b),
                     er_block_number = block_height b, er_gas_used = 0, er_status = status\<rparr>)
     in case ps_status response of
          PS_Valid \<Rightarrow> ret (result ES_Valid)
        | PS_Invalid validation_error \<Rightarrow> ret (Inl (Exec_InvalidBlock validation_error))
        | PS_Syncing \<Rightarrow> ret (result ES_Syncing)
        | PS_Accepted \<Rightarrow> ret (result ES_Accepted)))"

section \<open>Initialisation\<close>

definition max_init_retries :: nat where
  "max_init_retries = 30"

definition try_init_forkchoice ::
  "'x exec_env \<Rightarrow> forkchoice_state \<Rightarrow> bool \<Rightarrow> ('x exec_world, exec_error + bool) act" where
  "try_init_forkchoice E state is_last_attempt =
     bind_act (update_forkchoice E state) (\<lambda>r.
     case r of
       Inr _ \<Rightarrow> ret (Inr True)
     | Inl e \<Rightarrow> if \<not> is_last_attempt then ret (Inr False) else ret (Inl e))"

text \<open>The \<open>for\<close> loop over the attempts, with \<open>unreachable!()\<close> behind it.\<close>

fun init_forkchoice_loop ::
  "'x exec_env \<Rightarrow> forkchoice_state \<Rightarrow> nat \<Rightarrow> nat \<Rightarrow> ('x exec_world, exec_error + unit) act" where
  "init_forkchoice_loop E state 0 attempt = panic"
| "init_forkchoice_loop E state (Suc n) attempt =
     bind_try (try_init_forkchoice E state (attempt = max_init_retries)) (\<lambda>finished.
       if finished then ret (Inr ())
       else bind_act (outside (\<lambda>x. ((), sleep_ms (ee_host E) 1000 x))) (\<lambda>_.
              init_forkchoice_loop E state n (Suc attempt)))"

definition init_forkchoice :: "'x exec_env \<Rightarrow> b256 \<Rightarrow> ('x exec_world, exec_error + unit) act" where
  "init_forkchoice E genesis_hash =
     init_forkchoice_loop E
       \<lparr>fc_head = genesis_hash, fc_safe = genesis_hash, fc_finalized = genesis_hash\<rparr>
       max_init_retries 1"

section \<open>Building blocks\<close>

definition build_forkchoice_state :: "b256 \<Rightarrow> b256 \<Rightarrow> engine_forkchoice_state" where
  "build_forkchoice_state parent_hash finalized =
     \<lparr>head_block_hash = parent_hash, safe_block_hash = parent_hash,
      finalized_block_hash = finalized\<rparr>"

definition build_payload_attributes :: "b256 \<Rightarrow> u64 \<Rightarrow> address \<Rightarrow> payload_attributes" where
  "build_payload_attributes parent_hash timestamp fee_recipient =
     \<lparr>pa_timestamp = timestamp, pa_prev_randao = parent_hash,
      pa_suggested_fee_recipient = fee_recipient, pa_withdrawals = Some [],
      pa_parent_beacon_block_root = Some 0\<rparr>"

definition extract_payload_id :: "forkchoice_updated \<Rightarrow> exec_error + bytes" where
  "extract_payload_id response =
     (case ps_status (fu_payload_status response) of
        PS_Valid \<Rightarrow>
          (case fu_payload_id response of
             None \<Rightarrow> Inl (Exec_ForkchoiceFailed ''forkchoiceUpdated returned no payload ID'')
           | Some payload_id \<Rightarrow> Inr payload_id)
      | PS_Syncing \<Rightarrow> Inl (Exec_ForkchoiceFailed ''reth is syncing, cannot build blocks yet'')
      | PS_Accepted \<Rightarrow> Inl (Exec_ForkchoiceFailed ''forkchoice accepted but not validated'')
      | PS_Invalid validation_error \<Rightarrow>
          Inl (Exec_ForkchoiceFailed (''invalid forkchoice: '' @ validation_error)))"

definition call_forkchoice_with_attributes ::
  "'x exec_env \<Rightarrow> engine_forkchoice_state \<Rightarrow> payload_attributes
    \<Rightarrow> ('x exec_world, exec_error + forkchoice_updated) act" where
  "call_forkchoice_with_attributes E state attributes =
     rpc_request E (\<lambda>e. Exec_ForkchoiceFailed (''forkchoiceUpdated RPC failed: '' @ e))
       (\<lambda>http. api_forkchoice_updated (ee_api E) http state (Some attributes))"

definition start_building ::
  "'x exec_env \<Rightarrow> b256 \<Rightarrow> u64 \<Rightarrow> address \<Rightarrow> ('x exec_world, exec_error + bytes) act" where
  "start_building E parent_hash timestamp fee_recipient w =
     (let finalized = fc_finalized (ew_forkchoice w);
          engine_state = build_forkchoice_state parent_hash finalized;
          payload_attributes = build_payload_attributes parent_hash timestamp fee_recipient
      in bind_try (call_forkchoice_with_attributes E engine_state payload_attributes)
           (\<lambda>response. ret (extract_payload_id response)) w)"

definition get_payload :: "'x exec_env \<Rightarrow> bytes \<Rightarrow> ('x exec_world, exec_error + built_payload) act" where
  "get_payload E payload_id =
     bind_try (rpc_request E (\<lambda>e. Exec_ExecutionFailed (''getPayload RPC failed: '' @ e))
                 (\<lambda>http. api_get_payload (ee_api E) http payload_id)) (\<lambda>response.
     bind_act (unwrap (built_payload_of (lib_alloy (ee_libs E)) response)) (\<lambda>p. ret (Inr p)))"

end
