(* ===== verification/Execution_Contract.thy ===== *)
theory Execution_Contract
  imports Execution_Client
begin

text \<open>
  The traits \<open>Execution\<close> and \<open>BlockBuilder\<close> (crates/execution, \<open>src/lib.rs\<close>) as records of
  operations, their implementation by the Engine API client, the contracts that the sequencer and
  the application rely on, and the properties of the client: what the cached forkchoice is after
  every operation, and that the initialisation loop always returns within its thirty attempts.
\<close>

section \<open>The traits\<close>

record 'w execution =
  x_execute_block :: "block \<Rightarrow> ('w, exec_error + execution_result) act"
  x_update_forkchoice :: "forkchoice_state \<Rightarrow> ('w, exec_error + unit) act"
  x_forkchoice :: "('w, exec_error + forkchoice_state) act"

text \<open>\<open>BlockBuilder\<close>, with the inherent method \<open>apply_built_payload\<close> the application also calls.\<close>

record 'w block_builder =
  bb_get_head :: "('w, exec_error + b256 \<times> u64 \<times> u64) act"
  bb_import_payload :: "built_payload \<Rightarrow> ('w, exec_error + unit) act"
  bb_start_building :: "b256 \<Rightarrow> u64 \<Rightarrow> address \<Rightarrow> ('w, exec_error + bytes) act"
  bb_get_payload :: "bytes \<Rightarrow> ('w, exec_error + built_payload) act"
  bb_apply_built_payload :: "built_payload \<Rightarrow> ('w, exec_error + unit) act"

definition execution_client :: "'x exec_env \<Rightarrow> ('x exec_world) execution" where
  "execution_client E =
     \<lparr>x_execute_block = execute_block E,
      x_update_forkchoice = update_forkchoice E,
      x_forkchoice = forkchoice E\<rparr>"

definition builder_client :: "'x exec_env \<Rightarrow> ('x exec_world) block_builder" where
  "builder_client E =
     \<lparr>bb_get_head = get_head E,
      bb_import_payload = import_payload E,
      bb_start_building = start_building E,
      bb_get_payload = get_payload E,
      bb_apply_built_payload = apply_built_payload E\<rparr>"

text \<open>The host, seen from the client's world.\<close>

definition exec_host :: "'x host \<Rightarrow> 'x exec_world host" where
  "exec_host H =
     \<lparr>clock = (\<lambda>w. let (t, x) = clock H (ew_outside w) in (t, w\<lparr>ew_outside := x\<rparr>)),
      sleep_ms = (\<lambda>d w. w\<lparr>ew_outside := sleep_ms H d (ew_outside w)\<rparr>),
      read_file = (\<lambda>path w. let (r, x) = read_file H path (ew_outside w)
                            in (r, w\<lparr>ew_outside := x\<rparr>))\<rparr>"

section \<open>Facts about requests\<close>

lemma ec_http_client_forkchoice:
  "ec_http_client E w = Some (r, w') \<Longrightarrow> ew_forkchoice w' = ew_forkchoice w"
  unfolding ec_http_client_def
  by (auto elim!: act_elims dest!: outside_forkchoice split: sum.splits)

lemma no_panic_ec_http_client [no_panic_intros, simp]: "no_panic (ec_http_client E) w"
  unfolding ec_http_client_def
  by (intro no_panic_intros) (auto simp: build_token_not_panic split: sum.splits)

lemma rpc_request_forkchoice:
  "rpc_request E err call w = Some (r, w') \<Longrightarrow> ew_forkchoice w' = ew_forkchoice w"
  unfolding rpc_request_def
  by (auto elim!: act_elims dest!: outside_forkchoice ec_http_client_forkchoice)

lemma no_panic_rpc_request [no_panic_intros, simp]: "no_panic (rpc_request E err call) w"
  unfolding rpc_request_def by (intro no_panic_intros)

lemma new_payload_request_forkchoice:
  "new_payload_request E p w = Some (r, w') \<Longrightarrow> ew_forkchoice w' = ew_forkchoice w"
  unfolding new_payload_request_def by (rule rpc_request_forkchoice)

lemma no_panic_new_payload_request [no_panic_intros, simp]: "no_panic (new_payload_request E p) w"
  by (simp add: new_payload_request_def)

section \<open>The cached forkchoice\<close>

lemma update_forkchoice_cache:
  assumes "update_forkchoice E s w = Some (r, w')"
  shows "ew_forkchoice w' = (case r of Inr _ \<Rightarrow> s | Inl _ \<Rightarrow> ew_forkchoice w)"
  using assms unfolding update_forkchoice_def Let_def
  by (auto elim!: act_elims dest!: rpc_request_forkchoice split: payload_status_enum.splits)

lemma no_panic_update_forkchoice [no_panic_intros, simp]: "no_panic (update_forkchoice E s) w"
  unfolding update_forkchoice_def Let_def
  by (intro no_panic_intros) (auto simp: no_panic_def split: payload_status_enum.splits)

lemma call_new_payload_cache:
  "call_new_payload E p w = Some (r, w') \<Longrightarrow> ew_forkchoice w' = ew_forkchoice w"
  unfolding call_new_payload_def
  by (auto elim!: act_elims dest!: new_payload_request_forkchoice)

text \<open>Importing and the first half of applying are the same operation.\<close>

lemma import_is_call_new_payload: "import_payload E p = call_new_payload E p"
  by (rule ext)
    (simp add: import_payload_def call_new_payload_def check_payload_status_for_import_def act_splits
      split: option.split sum.split payload_status_enum.split prod.split)

lemma import_payload_cache:
  "import_payload E p w = Some (r, w') \<Longrightarrow> ew_forkchoice w' = ew_forkchoice w"
  unfolding import_is_call_new_payload by (rule call_new_payload_cache)

lemma execute_block_cache:
  "execute_block E b w = Some (r, w') \<Longrightarrow> ew_forkchoice w' = ew_forkchoice w"
  unfolding execute_block_def Let_def
  by (auto elim!: act_elims dest!: new_payload_request_forkchoice split: payload_status_enum.splits)

lemma start_building_cache:
  "start_building E p t a w = Some (r, w') \<Longrightarrow> ew_forkchoice w' = ew_forkchoice w"
  unfolding start_building_def call_forkchoice_with_attributes_def Let_def
  by (auto elim!: act_elims dest!: rpc_request_forkchoice)

lemma no_panic_start_building [no_panic_intros, simp]: "no_panic (start_building E p t a) w"
proof -
  have "no_panic (bind_try (call_forkchoice_with_attributes E s at)
      (\<lambda>response. ret (extract_payload_id response))) w" for s at
    unfolding call_forkchoice_with_attributes_def by (intro no_panic_intros)
  then show ?thesis
    by (simp add: no_panic_def start_building_def Let_def)
qed

lemma get_head_cache: "get_head E w = Some (r, w') \<Longrightarrow> ew_forkchoice w' = ew_forkchoice w"
  unfolding get_head_def by (rule rpc_request_forkchoice)

lemma no_panic_get_head [no_panic_intros, simp]: "no_panic (get_head E) w"
  by (simp add: get_head_def)

lemma get_payload_cache:
  "get_payload E i w = Some (r, w') \<Longrightarrow> ew_forkchoice w' = ew_forkchoice w"
  unfolding get_payload_def
  by (auto elim!: act_elims dest!: rpc_request_forkchoice)

text \<open>
  Applying a payload moves head and safe to it and leaves the finalized pointer, when it succeeds;
  a failure leaves the cache.
\<close>

lemma apply_built_payload_cache:
  assumes "apply_built_payload E p w = Some (r, w')"
  shows "ew_forkchoice w' =
    (case r of Inr _ \<Rightarrow> with_soft (ew_forkchoice w) (pl_block_hash p) | Inl _ \<Rightarrow> ew_forkchoice w)"
  using assms
  unfolding apply_built_payload_def update_forkchoice_for_payload_def
  by (auto simp: Let_def with_soft_def elim!: act_elims
      dest!: call_new_payload_cache update_forkchoice_cache)

text \<open>A block is only reported valid when reth says \<open>VALID\<close>; an invalid one is an error.\<close>

lemma execute_block_valid:
  "execute_block E b w = Some (Inr res, w') \<Longrightarrow>
     er_block_number res = block_height b \<and>
     (\<forall>e. er_status res \<noteq> ES_Invalid e) \<and>
     (\<exists>payload response. build_payload (lib_alloy (ee_libs E)) b = Some payload \<and>
        new_payload_request E payload w = Some (Inr response, w') \<and>
        (execution_result_is_valid res \<longleftrightarrow> ps_status response = PS_Valid))"
  unfolding execute_block_def Let_def
  by (auto elim!: act_elims split: payload_status_enum.splits)

section \<open>Contracts\<close>

text \<open>
  What the sequencer relies on: updating the forkchoice sets the cache exactly when it succeeds and
  never panics, and the other operations leave the cache.
\<close>

locale execution_contract =
  fixes X :: "'w execution"
    and cache :: "'w \<Rightarrow> forkchoice_state"
  assumes update_cache: "x_update_forkchoice X s w = Some (r, w') \<Longrightarrow>
      cache w' = (case r of Inr _ \<Rightarrow> s | Inl _ \<Rightarrow> cache w)"
    and update_total: "no_panic (x_update_forkchoice X s) w"
    and execute_cache: "x_execute_block X b w = Some (r1, w') \<Longrightarrow> cache w' = cache w"
    and forkchoice_reads: "x_forkchoice X w = Some (Inr (cache w), w)"
begin

text \<open>Reading back after a successful update gives the new forkchoice.\<close>

lemma read_back:
  "x_update_forkchoice X s w = Some (Inr (), w') \<Longrightarrow> x_forkchoice X w' = Some (Inr s, w')"
  using update_cache forkchoice_reads by fastforce

end

text \<open>What the application relies on: queries and imports leave the cache, applying moves it.\<close>

locale builder_contract =
  fixes B :: "'w block_builder"
    and cache :: "'w \<Rightarrow> forkchoice_state"
  assumes head_cache: "bb_get_head B w = Some (r1, w') \<Longrightarrow> cache w' = cache w"
    and import_cache: "bb_import_payload B p w = Some (r2, w') \<Longrightarrow> cache w' = cache w"
    and building_cache: "bb_start_building B h t a w = Some (r3, w') \<Longrightarrow> cache w' = cache w"
    and payload_cache: "bb_get_payload B i w = Some (r4, w') \<Longrightarrow> cache w' = cache w"
    and apply_cache: "bb_apply_built_payload B p w = Some (r2, w') \<Longrightarrow>
      cache w' = (case r2 of Inr _ \<Rightarrow> with_soft (cache w) (pl_block_hash p) | Inl _ \<Rightarrow> cache w)"
    and head_total: "no_panic (bb_get_head B) w"
    and building_total: "no_panic (bb_start_building B h t a) w"

interpretation ec: execution_contract "execution_client E" ew_forkchoice for E :: "'x exec_env"
  by unfold_locales
    (auto simp: execution_client_def forkchoice_def dest: update_forkchoice_cache execute_block_cache)

interpretation bc: builder_contract "builder_client E" ew_forkchoice for E :: "'x exec_env"
  by unfold_locales
    (auto simp: builder_client_def dest: get_head_cache import_payload_cache start_building_cache
      get_payload_cache apply_built_payload_cache)

section \<open>The initialisation loop\<close>

text \<open>One attempt with its pause: \<open>None\<close> lets the loop go on.\<close>

definition init_attempt ::
  "'x exec_env \<Rightarrow> forkchoice_state \<Rightarrow> nat \<Rightarrow> ('x exec_world, (exec_error + unit) option) act" where
  "init_attempt E state i =
     bind_act (update_forkchoice E state) (\<lambda>r.
       case r of
         Inr _ \<Rightarrow> ret (Some (Inr ()))
       | Inl e \<Rightarrow>
           if i = max_init_retries then ret (Some (Inl e))
           else bind_act (outside (\<lambda>x. ((), sleep_ms (ee_host E) 1000 x))) (\<lambda>_. ret None))"

interpretation il: bounded_retry "init_attempt E state" panic "init_forkchoice_loop E state"
  for E :: "'x exec_env" and state
proof unfold_locales
  fix n i and w :: "'x exec_world"
  show "init_forkchoice_loop E state (Suc n) i w =
      (case init_attempt E state i w of None \<Rightarrow> None
       | Some (Some r, w') \<Rightarrow> Some (r, w')
       | Some (None, w') \<Rightarrow> init_forkchoice_loop E state n (Suc i) w')"
    by (auto simp: init_attempt_def try_init_forkchoice_def act_splits
        split: option.splits sum.splits)
qed simp

lemma no_panic_init_attempt [simp]: "no_panic (init_attempt E s i) w"
  unfolding init_attempt_def
  by (intro no_panic_intros) (auto intro!: no_panic_intros split: sum.splits)

lemma init_attempt_last: "init_attempt E s max_init_retries w = Some r \<Longrightarrow> fst r \<noteq> None"
  unfolding init_attempt_def
  by (auto elim!: act_elims split: sum.splits)

lemma init_attempt_Ok_cache:
  "init_attempt E s i w = Some (Some (Inr ()), w') \<Longrightarrow> ew_forkchoice w' = s"
  unfolding init_attempt_def
  by (auto elim!: act_elims dest!: update_forkchoice_cache split: sum.splits if_splits)

end
