(* ===== verification/Finalization.thy ===== *)
theory Finalization
  imports Batch Block_Index Execution_Contract
begin

text \<open>
  What the sequencer does with finalized blocks and with finality confirmations (crates/sequencer,
  \<open>src/simplex_sequencer.rs\<close>): execute the block on reth, move the forkchoice, remember the block as
  executed and, as the leader, submit it to Celestia; and move the finalized pointer when Celestia has
  finalized a block that was executed. The execution client is used through the trait \<open>Execution\<close>,
  a record of operations over a world \<open>'x\<close>; Celestia is a client environment over a world \<open>'w\<close>. The
  state also holds the block index, which is open during the initial sync.
\<close>

section \<open>State and errors\<close>

record ('x, 'w) node =
  nd_forkchoice :: forkchoice_state
  nd_executed_blocks :: "b256 set"
  nd_da :: da_state
  nd_batch_queue :: "block list"
  nd_batch_open :: bool
  nd_index :: block_index
  nd_exec :: 'x
  nd_world :: 'w

text \<open>\<open>eyre\<close> reports: a context around the error of a client, or a message.\<close>

datatype report =
    RP_Execution string exec_error
  | RP_Celestia string celestia_error
  | RP_Message string

definition in_exec :: "('x, 'a) act \<Rightarrow> (('x, 'w) node, 'a) act" where
  "in_exec m n = map_option (\<lambda>(a, x). (a, n\<lparr>nd_exec := x\<rparr>)) (m (nd_exec n))"

definition in_da :: "(da_state \<times> 'w \<Rightarrow> 'a \<times> da_state \<times> 'w) \<Rightarrow> (('x, 'w) node, 'a) act" where
  "in_da f n =
     (let (a, s, w) = f (nd_da n, nd_world n) in Some (a, n\<lparr>nd_da := s, nd_world := w\<rparr>))"

definition modify_node :: "(('x, 'w) node \<Rightarrow> ('x, 'w) node) \<Rightarrow> (('x, 'w) node, unit) act" where
  "modify_node f n = Some ((), f n)"

definition wrap_err ::
  "('e \<Rightarrow> report) \<Rightarrow> ('n, 'e + 'a) act \<Rightarrow> ('n, report + 'a) act" where
  "wrap_err ctx m = bind_act m (\<lambda>r. ret (map_err ctx r))"

section \<open>Executing a block\<close>

text \<open>The forkchoice is read, sent to reth, and stored only if reth took it.\<close>

definition update_and_store ::
  "'x execution \<Rightarrow> (exec_error \<Rightarrow> report) \<Rightarrow> (forkchoice_state \<Rightarrow> forkchoice_state)
    \<Rightarrow> (('x, 'w) node, report + unit) act" where
  "update_and_store X ctx change n =
     (let new_forkchoice = change (nd_forkchoice n) in
      bind_try (wrap_err ctx (in_exec (x_update_forkchoice X new_forkchoice))) (\<lambda>_.
      bind_act (modify_node (\<lambda>n. n\<lparr>nd_forkchoice := new_forkchoice\<rparr>)) (\<lambda>_.
      ret (Inr ()))) n)"

definition execute_and_update_forkchoice ::
  "'x execution \<Rightarrow> block \<Rightarrow> b256 \<Rightarrow> u64 \<Rightarrow> (('x, 'w) node, report + unit) act" where
  "execute_and_update_forkchoice X b block_hash height =
     bind_try (wrap_err (RP_Execution ''execution failed'') (in_exec (x_execute_block X b))) (\<lambda>result.
     if \<not> execution_result_is_valid result then ret (Inl (RP_Message ''block invalid''))
     else update_and_store X (RP_Execution ''forkchoice update failed'')
            (\<lambda>current. with_soft current block_hash))"

section \<open>Submitting to Celestia\<close>

definition queue_for_batch :: "bool \<Rightarrow> block \<Rightarrow> (('x, 'w) node, unit) act" where
  "queue_for_batch has_batch_tx b =
     (if \<not> has_batch_tx then ret ()
      else modify_node (\<lambda>n. if nd_batch_open n then n\<lparr>nd_batch_queue := nd_batch_queue n @ [b]\<rparr> else n))"

definition submit_immediate :: "('w, 'b, 'h) da_env \<Rightarrow> block \<Rightarrow> (('x, 'w) node, unit) act" where
  "submit_immediate D b =
     in_da (\<lambda>(s, w). let (r, w1) = submit_block D b w in
       case r of
         Inr submission \<Rightarrow> ((), track_finality D submission (s, w1))
       | Inl e \<Rightarrow> ((), s, w1))"

definition submit_to_celestia ::
  "('w, 'b, 'h) da_env \<Rightarrow> bool \<Rightarrow> bool \<Rightarrow> block \<Rightarrow> (('x, 'w) node, unit) act" where
  "submit_to_celestia D has_batch_tx batch_enabled b =
     (if batch_enabled then queue_for_batch has_batch_tx b else submit_immediate D b)"

text \<open>
  \<open>spawn_batch_task\<close> makes the queue exactly when the interval is positive, and spawns the batch loop
  on it, with this interval and this maximal size.
\<close>

definition batch_enabled :: "celestia_config \<Rightarrow> bool" where
  "batch_enabled c \<longleftrightarrow> ce_batch_interval_ms c > 0"

definition spawn_batch_task :: "celestia_config \<Rightarrow> (u64 \<times> u64) option" where
  "spawn_batch_task c =
     (let batch_interval_ms = ce_batch_interval_ms c;
          max_batch_size_bytes = ce_max_batch_size_bytes c
      in if batch_interval_ms = 0 then None else Some (batch_interval_ms, max_batch_size_bytes))"

section \<open>The two handlers\<close>

definition process_finalized_block ::
  "'x execution \<Rightarrow> ('w, 'b, 'h) da_env \<Rightarrow> block \<Rightarrow> bool \<Rightarrow> (('x, 'w) node, unit) act" where
  "process_finalized_block X D b is_leader =
     (let block_hash = blk_block_hash b; height = block_height b
      in
      bind_act (execute_and_update_forkchoice X b block_hash height) (\<lambda>r.
      case r of
        Inl e \<Rightarrow> ret ()
      | Inr _ \<Rightarrow>
          bind_act (modify_node (\<lambda>n. n\<lparr>nd_executed_blocks := insert block_hash (nd_executed_blocks n)\<rparr>)) (\<lambda>_.
          if is_leader
          then submit_to_celestia D (spawn_batch_task (da_config D) \<noteq> None)
            (batch_enabled (da_config D)) b
          else ret ())))"

definition verify_block_executed :: "finality_confirmation \<Rightarrow> ('x, 'w) node \<Rightarrow> bool" where
  "verify_block_executed c n = (if cf_block_hash c \<in> nd_executed_blocks n then True else False)"

definition update_finalized_forkchoice ::
  "'x execution \<Rightarrow> finality_confirmation \<Rightarrow> (('x, 'w) node, unit) act" where
  "update_finalized_forkchoice X c =
     bind_act (update_and_store X (RP_Execution ''finality'')
       (\<lambda>current. with_firm current (cf_block_hash c))) (\<lambda>r. ret ())"

definition handle_finality_confirmation ::
  "'x execution \<Rightarrow> finality_confirmation \<Rightarrow> (('x, 'w) node, unit) act" where
  "handle_finality_confirmation X c n =
     (if \<not> verify_block_executed c n then ret () n
      else update_finalized_forkchoice X c n)"

section \<open>Runs of a node\<close>

text \<open>
  The finalization callback and the event loop, one event after the other: a block that consensus
  finalized, with the leader flag, or a confirmation from the finality channel.
\<close>

datatype node_event = NE_Finalized block bool | NE_Confirmed finality_confirmation

fun node_step ::
  "'x execution \<Rightarrow> ('w, 'b, 'h) da_env \<Rightarrow> node_event \<Rightarrow> (('x, 'w) node, unit) act" where
  "node_step X D (NE_Finalized b is_leader) = process_finalized_block X D b is_leader"
| "node_step X D (NE_Confirmed c) = handle_finality_confirmation X c"

fun run_node ::
  "'x execution \<Rightarrow> ('w, 'b, 'h) da_env \<Rightarrow> node_event list \<Rightarrow> (('x, 'w) node, unit) act" where
  "run_node X D [] = ret ()"
| "run_node X D (e # es) = bind_act (node_step X D e) (\<lambda>_. run_node X D es)"

section \<open>Lemmas\<close>

lemma modify_node_apply [simp]: "modify_node f n = Some ((), f n)"
  by (simp add: modify_node_def)

lemma in_exec_Some:
  "in_exec m n = Some (a, n') \<longleftrightarrow> (\<exists>x. m (nd_exec n) = Some (a, x) \<and> n' = n\<lparr>nd_exec := x\<rparr>)"
  by (auto simp: in_exec_def)

lemma wrap_exec_Some:
  "wrap_err ctx (in_exec m) n = Some (r, n') \<longleftrightarrow>
     (\<exists>r0 x. m (nd_exec n) = Some (r0, x) \<and> r = map_err ctx r0 \<and> n' = n\<lparr>nd_exec := x\<rparr>)"
  by (auto simp: wrap_err_def bind_act_Some in_exec_Some)

lemma in_da_Some:
  "in_da f n = Some (a, n') \<longleftrightarrow>
     (\<exists>s w. f (nd_da n, nd_world n) = (a, s, w) \<and> n' = n\<lparr>nd_da := s, nd_world := w\<rparr>)"
  by (auto simp: in_da_def split: prod.split)

text \<open>The part of the state that submitting to Celestia leaves alone.\<close>

lemma submit_to_celestia_frame:
  assumes "submit_to_celestia D t e b n = Some (r, n')"
  shows "nd_forkchoice n' = nd_forkchoice n" "nd_executed_blocks n' = nd_executed_blocks n"
    "nd_exec n' = nd_exec n"
  using assms unfolding submit_to_celestia_def queue_for_batch_def submit_immediate_def
  by (auto simp: in_da_Some split: if_splits)

lemma handle_finality_confirmation_cases:
  assumes "handle_finality_confirmation X c n = Some (u, n')"
  obtains (ignored) "n' = n"
  | (followed) ctx r where "cf_block_hash c \<in> nd_executed_blocks n"
      "update_and_store X ctx (\<lambda>current. with_firm current (cf_block_hash c)) n = Some (r, n')"
  using assms
  unfolding handle_finality_confirmation_def verify_block_executed_def update_finalized_forkchoice_def
  by (auto elim!: act_elims split: if_splits)

text \<open>
  The invariant of a node over the client: what the sequencer believes is what the client last sent;
  head and safe agree; all pointers are genesis or a block that was executed.
\<close>

definition node_safe :: "('x \<Rightarrow> forkchoice_state) \<Rightarrow> b256 \<Rightarrow> ('x, 'w) node \<Rightarrow> bool" where
  "node_safe cache g n \<longleftrightarrow>
     cache (nd_exec n) = nd_forkchoice n \<and> head_is_safe (nd_forkchoice n) \<and>
     fc_head (nd_forkchoice n) \<in> insert g (nd_executed_blocks n) \<and>
     fc_finalized (nd_forkchoice n) \<in> insert g (nd_executed_blocks n)"

context execution_contract begin

lemma update_and_store_result:
  assumes "update_and_store X ctx change n = Some (r, n')"
  shows "case r of
      Inr _ \<Rightarrow> nd_forkchoice n' = change (nd_forkchoice n) \<and> cache (nd_exec n') = change (nd_forkchoice n)
    | Inl _ \<Rightarrow> nd_forkchoice n' = nd_forkchoice n \<and> cache (nd_exec n') = cache (nd_exec n)"
    and "nd_executed_blocks n' = nd_executed_blocks n"
  using assms unfolding update_and_store_def wrap_err_def
  by (auto simp: Let_def in_exec_Some map_err_eq_Inl map_err_eq_Inr elim!: act_elims dest!: update_cache
      split: sum.splits)

lemma execute_and_update_result:
  assumes "execute_and_update_forkchoice X b h k n = Some (r, n')"
  shows "case r of
      Inr _ \<Rightarrow> nd_forkchoice n' = with_soft (nd_forkchoice n) h \<and>
        cache (nd_exec n') = with_soft (nd_forkchoice n) h
    | Inl _ \<Rightarrow> nd_forkchoice n' = nd_forkchoice n \<and> cache (nd_exec n') = cache (nd_exec n)"
    (is ?result)
    and "nd_executed_blocks n' = nd_executed_blocks n" (is ?executed)
proof -
  from assms obtain r0 x where x: "x_execute_block X b (nd_exec n) = Some (r0, x)"
    and rest: "(\<exists>e. r = Inl e \<and> n' = n\<lparr>nd_exec := x\<rparr>) \<or>
      update_and_store X (RP_Execution ''forkchoice update failed'') (\<lambda>current. with_soft current h)
        (n\<lparr>nd_exec := x\<rparr>) = Some (r, n')"
    unfolding execute_and_update_forkchoice_def
    by (elim bind_try_SomeE) (auto simp: wrap_exec_Some map_err_eq_Inl split: if_splits)
  have same: "cache x = cache (nd_exec n)" by (rule execute_cache [OF x])
  from rest have "?result \<and> ?executed"
  proof
    assume "\<exists>e. r = Inl e \<and> n' = n\<lparr>nd_exec := x\<rparr>"
    with same show ?thesis by auto
  next
    assume u: "update_and_store X (RP_Execution ''forkchoice update failed'')
      (\<lambda>current. with_soft current h) (n\<lparr>nd_exec := x\<rparr>) = Some (r, n')"
    from update_and_store_result [OF u] same show ?thesis
      by (auto split: sum.splits)
  qed
  then show ?result ?executed by blast+
qed

lemma process_finalized_block_result:
  assumes "process_finalized_block X D b l n = Some (u, n')"
  obtains (failed) "nd_forkchoice n' = nd_forkchoice n" "cache (nd_exec n') = cache (nd_exec n)"
      "nd_executed_blocks n' = nd_executed_blocks n"
  | (executed) "nd_forkchoice n' = with_soft (nd_forkchoice n) (blk_block_hash b)"
      "cache (nd_exec n') = with_soft (nd_forkchoice n) (blk_block_hash b)"
      "nd_executed_blocks n' = insert (blk_block_hash b) (nd_executed_blocks n)"
proof -
  let ?h = "blk_block_hash b"
  from assms obtain r n1 where e: "execute_and_update_forkchoice X b ?h (block_height b) n = Some (r, n1)"
    and rest: "(case r of Inl e \<Rightarrow> ret ()
      | Inr _ \<Rightarrow>
          bind_act (modify_node (\<lambda>n. n\<lparr>nd_executed_blocks := insert ?h (nd_executed_blocks n)\<rparr>)) (\<lambda>_.
          if l then submit_to_celestia D (spawn_batch_task (da_config D) \<noteq> None)
            (batch_enabled (da_config D)) b
          else ret ())) n1 = Some (u, n')"
    unfolding process_finalized_block_def Let_def by (elim bind_act_SomeE)
  note e' = execute_and_update_result [OF e]
  show ?thesis
  proof (cases r)
    case (Inl x)
    with rest e' show ?thesis by (intro failed) simp_all
  next
    case (Inr x)
    let ?n2 = "n1\<lparr>nd_executed_blocks := insert ?h (nd_executed_blocks n1)\<rparr>"
    from rest Inr have "n' = ?n2 \<or> submit_to_celestia D (spawn_batch_task (da_config D) \<noteq> None)
        (batch_enabled (da_config D)) b ?n2 = Some (u, n')"
      by (auto simp: bind_act_def split: if_splits)
    then have "nd_forkchoice n' = nd_forkchoice n1" "nd_exec n' = nd_exec n1"
        "nd_executed_blocks n' = insert ?h (nd_executed_blocks n1)"
      by (auto dest: submit_to_celestia_frame)
    with Inr e' show ?thesis by (intro executed) simp_all
  qed
qed

lemma process_finalized_block_safe:
  assumes "node_safe cache g n" "process_finalized_block X D b l n = Some (u, n')"
  shows "node_safe cache g n'" "nd_executed_blocks n \<subseteq> nd_executed_blocks n'"
  using assms(2,1)
  by (cases rule: process_finalized_block_result; auto simp: node_safe_def)+

lemma handle_finality_confirmation_safe:
  assumes "node_safe cache g n" "handle_finality_confirmation X c n = Some (u, n')"
  shows "node_safe cache g n'" "nd_executed_blocks n \<subseteq> nd_executed_blocks n'"
proof -
  from assms(2) have "node_safe cache g n' \<and> nd_executed_blocks n \<subseteq> nd_executed_blocks n'"
  proof (cases rule: handle_finality_confirmation_cases)
    case ignored
    with assms(1) show ?thesis by simp
  next
    case (followed ctx r)
    from update_and_store_result [OF followed(2)] followed(1) assms(1) show ?thesis
      by (cases r) (auto simp: node_safe_def)
  qed
  then show "node_safe cache g n'" "nd_executed_blocks n \<subseteq> nd_executed_blocks n'" by blast+
qed

lemma run_node_safe:
  "node_safe cache g n \<Longrightarrow> run_node X D es n = Some (u, n') \<Longrightarrow> node_safe cache g n'"
proof (induction es arbitrary: n)
  case Nil
  then show ?case by simp
next
  case (Cons e es)
  then obtain n1 where "node_step X D e n = Some ((), n1)" "run_node X D es n1 = Some (u, n')"
    by (auto elim!: act_elims)
  with Cons show ?case
    by (cases e) (auto dest: process_finalized_block_safe handle_finality_confirmation_safe)
qed

end

end
