(* ===== verification/Sync.thy ===== *)
theory Sync
  imports Finalization
begin

text \<open>
  The initial sync (crates/sequencer, \<open>src/simplex_sequencer.rs\<close>): before consensus starts, the blocks
  that Celestia holds are fetched, sorted by height, executed on reth one after the other and
  recorded in the block index; a block whose height is already indexed is skipped.
\<close>

section \<open>Fetching and checking\<close>

definition in_world :: "('w, 'a) io \<Rightarrow> (('x, 'w) node, 'a) act" where
  "in_world f n = (let (a, w) = f (nd_world n) in Some (a, n\<lparr>nd_world := w\<rparr>))"

definition unwrap_or :: "'a option \<Rightarrow> 'a \<Rightarrow> 'a" where
  "unwrap_or x d = (case x of None \<Rightarrow> d | Some a \<Rightarrow> a)"

definition fetch_blocks_from_celestia ::
  "('w, 'b, 'h) da_env \<Rightarrow> u64 \<Rightarrow> u64 \<Rightarrow> (('x, 'w) node, report + (u64 \<times> block) list) act" where
  "fetch_blocks_from_celestia D start_height end_height =
     bind_try (wrap_err (RP_Celestia ''failed to fetch blocks from Celestia'')
       (in_world (get_blocks_in_range D start_height end_height))) (\<lambda>blocks_with_heights.
     if blocks_with_heights = [] then ret (Inr [])
     else ret (Inr (sort_key (\<lambda>(_, b). block_height b) blocks_with_heights)))"

definition check_sync_preconditions :: "block_index \<Rightarrow> u64 \<Rightarrow> u64 \<Rightarrow> u64 option" where
  "check_sync_preconditions index genesis_da_height current_celestia_height =
     (if current_celestia_height = 0 then Some (unwrap_or (latest_height index) 0)
      else if genesis_da_height > current_celestia_height
      then Some (unwrap_or (latest_height index) 0)
      else None)"

text \<open>The continuity check only logs; its value is whether it warns.\<close>

definition check_parent_continuity :: "block \<Rightarrow> b256 \<Rightarrow> bool" where
  "check_parent_continuity b expected_parent =
     (if block_height b \<le> 1 then False else block_parent_hash b \<noteq> expected_parent)"

section \<open>Executing\<close>

definition execute_sync_block :: "'x execution \<Rightarrow> block \<Rightarrow> b256 \<Rightarrow> (('x, 'w) node, report + unit) act" where
  "execute_sync_block X b block_hash =
     bind_try (wrap_err (RP_Execution ''failed to execute block'') (in_exec (x_execute_block X b))) (\<lambda>result.
     if \<not> execution_result_is_valid result then ret (Inl (RP_Message ''block invalid during sync''))
     else update_and_store X (RP_Execution ''failed to update forkchoice for block'')
            (\<lambda>current. with_soft current block_hash))"

definition index_insert_node ::
  "'w file_ops \<Rightarrow> json_codec \<Rightarrow> index_entry \<Rightarrow> (('x, 'w) node, celestia_error + unit) act" where
  "index_insert_node F J e n =
     (let ((r, i), w) = index_insert F J e (nd_index n) (nd_world n)
      in Some (r, n\<lparr>nd_index := i, nd_world := w\<rparr>))"

definition sync_single_block ::
  "'x execution \<Rightarrow> 'w file_ops \<Rightarrow> json_codec \<Rightarrow> block \<Rightarrow> u64 \<Rightarrow> b256 \<Rightarrow> (('x, 'w) node, report + b256) act" where
  "sync_single_block X F J b celestia_height expected_parent =
     (let block_hash = blk_block_hash b;
          warned = check_parent_continuity b expected_parent
      in bind_try (execute_sync_block X b block_hash) (\<lambda>_.
         bind_act (modify_node (\<lambda>n. n\<lparr>nd_executed_blocks := insert block_hash (nd_executed_blocks n)\<rparr>)) (\<lambda>_.
         let entry = \<lparr>ie_block_height = block_height b, ie_block_hash = block_hash,
                      ie_celestia_height = celestia_height, ie_commitment = []\<rparr>
         in bind_try (wrap_err (RP_Celestia ''failed to update block index'')
              (index_insert_node F J entry)) (\<lambda>_. ret (Inr block_hash)))))"

fun sync_blocks ::
  "'x execution \<Rightarrow> 'w file_ops \<Rightarrow> json_codec \<Rightarrow> (u64 \<times> block) list \<Rightarrow> b256 \<Rightarrow> u64
    \<Rightarrow> (('x, 'w) node, report + u64) act" where
  "sync_blocks X F J [] parent_hash last_synced_height n = Some (Inr last_synced_height, n)"
| "sync_blocks X F J ((celestia_height, b) # blocks) parent_hash last_synced_height n =
     (if get_by_height (nd_index n) (block_height b) \<noteq> None
      then sync_blocks X F J blocks (blk_block_hash b) last_synced_height n
      else bind_try (sync_single_block X F J b celestia_height parent_hash) (\<lambda>parent_hash.
             sync_blocks X F J blocks parent_hash (block_height b)) n)"

definition sync_block_batch ::
  "'x execution \<Rightarrow> 'w file_ops \<Rightarrow> json_codec \<Rightarrow> (u64 \<times> block) list \<Rightarrow> (('x, 'w) node, report + u64) act" where
  "sync_block_batch X F J blocks n =
     sync_blocks X F J blocks (fc_head (nd_forkchoice n)) (unwrap_or (latest_height (nd_index n)) 0) n"

definition sync_from_celestia ::
  "'x execution \<Rightarrow> ('w, 'b, 'h) da_env \<Rightarrow> 'w file_ops \<Rightarrow> json_codec \<Rightarrow> u64
    \<Rightarrow> (('x, 'w) node, report + u64) act" where
  "sync_from_celestia X D F J genesis_da_height n =
     (let current_celestia_height = finalized_height (ds_tracker (nd_da n)) in
      case check_sync_preconditions (nd_index n) genesis_da_height current_celestia_height of
        Some h \<Rightarrow> Some (Inr h, n)
      | None \<Rightarrow>
          bind_try (fetch_blocks_from_celestia D genesis_da_height current_celestia_height) (\<lambda>blocks.
          if blocks = [] then (\<lambda>n. Some (Inr (unwrap_or (latest_height (nd_index n)) 0), n))
          else sync_block_batch X F J blocks) n)"

definition init_from_celestia ::
  "'x execution \<Rightarrow> ('w, 'b, 'h) da_env \<Rightarrow> 'w file_ops \<Rightarrow> json_codec \<Rightarrow> (('x, 'w) node, report + unit) act" where
  "init_from_celestia X D F J n =
     (let genesis_da_height = ce_genesis_da_height (da_config D) in
      if genesis_da_height = 0 then Some (Inr (), n)
      else (let (opened, w) = index_open F J (ce_index_path (da_config D)) (nd_world n) in
        case opened of
          Inl e \<Rightarrow> Some (Inl (RP_Celestia ''failed to open block index'' e), n\<lparr>nd_world := w\<rparr>)
        | Inr index \<Rightarrow>
            bind_try (sync_from_celestia X D F J genesis_da_height) (\<lambda>_. ret (Inr ()))
              (n\<lparr>nd_world := w, nd_index := index\<rparr>)))"

section \<open>Lemmas\<close>

lemma in_world_frame:
  "in_world f n = Some (r, n') \<Longrightarrow> \<exists>w. n' = n\<lparr>nd_world := w\<rparr>"
  by (auto simp: in_world_def split: prod.splits)

lemma fetch_frame:
  "fetch_blocks_from_celestia D a b n = Some (r, n') \<Longrightarrow> \<exists>w. n' = n\<lparr>nd_world := w\<rparr>"
  unfolding fetch_blocks_from_celestia_def wrap_err_def
  by (auto elim!: act_elims dest!: in_world_frame split: if_splits)

lemma index_insert_node_result:
  assumes "index_insert_node F J e n = Some (r, n')"
  obtains (stored) w where "r = Inr ()" "n' = n\<lparr>nd_index := insert_entry e (nd_index n), nd_world := w\<rparr>"
  | (failed) x w where "r = Inl x" "n' = n\<lparr>nd_world := w\<rparr>"
proof -
  obtain r0 i w where e: "index_insert F J e (nd_index n) (nd_world n) = ((r0, i), w)"
    by (metis prod.collapse)
  from e show ?thesis
  proof (cases rule: index_insert_cases)
    case stored
    with e assms that show ?thesis by (auto simp: index_insert_node_def)
  next
    case (failed x)
    with e assms that(2) [of x w] show ?thesis by (cases n) (auto simp: index_insert_node_def)
  qed
qed

lemma index_step_result:
  assumes "bind_try (wrap_err ctx (index_insert_node F J e)) (\<lambda>_. ret (Inr h)) n = Some (r, n')"
  shows "\<exists>r1. index_insert_node F J e n = Some (r1, n') \<and>
    r = (case r1 of Inr _ \<Rightarrow> Inr h | Inl x \<Rightarrow> Inl (ctx x))"
  using assms by (cases "index_insert_node F J e n")
    (auto simp: wrap_err_def bind_act_def bind_try_def split: sum.splits)

context execution_contract begin

text \<open>The two ways to execute a block, at sync and at finalization, have the same effect.\<close>

lemma execute_sync_block_result:
  assumes "execute_sync_block X b h n = Some (r, n')"
  shows "case r of
      Inr _ \<Rightarrow> nd_forkchoice n' = with_soft (nd_forkchoice n) h \<and>
        cache (nd_exec n') = with_soft (nd_forkchoice n) h
    | Inl _ \<Rightarrow> nd_forkchoice n' = nd_forkchoice n \<and> cache (nd_exec n') = cache (nd_exec n)"
    (is ?result)
    and "nd_executed_blocks n' = nd_executed_blocks n" (is ?executed)
    and "nd_index n' = nd_index n" (is ?index)
proof -
  from assms obtain r0 x where x: "x_execute_block X b (nd_exec n) = Some (r0, x)"
    and rest: "(\<exists>e. r = Inl e \<and> n' = n\<lparr>nd_exec := x\<rparr>) \<or>
      update_and_store X (RP_Execution ''failed to update forkchoice for block'')
        (\<lambda>current. with_soft current h) (n\<lparr>nd_exec := x\<rparr>) = Some (r, n')"
    unfolding execute_sync_block_def
    by (elim bind_try_SomeE) (auto simp: wrap_exec_Some map_err_eq_Inl split: if_splits)
  have same: "cache x = cache (nd_exec n)" by (rule execute_cache [OF x])
  from rest have "?result \<and> ?executed \<and> ?index"
  proof
    assume "\<exists>e. r = Inl e \<and> n' = n\<lparr>nd_exec := x\<rparr>"
    with same show ?thesis by auto
  next
    assume u: "update_and_store X (RP_Execution ''failed to update forkchoice for block'')
      (\<lambda>current. with_soft current h) (n\<lparr>nd_exec := x\<rparr>) = Some (r, n')"
    have "nd_index n' = nd_index n"
      using u unfolding update_and_store_def Let_def
      by (auto simp: wrap_exec_Some elim!: act_elims)
    with update_and_store_result [OF u] same show ?thesis
      by (auto split: sum.splits)
  qed
  then show ?result ?executed ?index by blast+
qed

lemma sync_single_block_safe:
  assumes "sync_single_block X F J b c p n = Some (r, n')" "node_safe cache g n" "index_ok (nd_index n)"
  shows "node_safe cache g n' \<and> index_ok (nd_index n') \<and>
    (\<forall>k. get_by_height (nd_index n) k \<noteq> None \<longrightarrow> get_by_height (nd_index n') k \<noteq> None) \<and>
    (\<forall>h. r = Inr h \<longrightarrow> h = blk_block_hash b \<and> fc_head (nd_forkchoice n') = h \<and>
      get_by_height (nd_index n') (block_height b) \<noteq> None)"
proof -
  let ?h = "blk_block_hash b"
  let ?e = "\<lparr>ie_block_height = block_height b, ie_block_hash = ?h, ie_celestia_height = c, ie_commitment = []\<rparr>"
  from assms(1) consider (error) x where "execute_sync_block X b ?h n = Some (Inl x, n')" "r = Inl x"
    | (executed) n1 r1 where "execute_sync_block X b ?h n = Some (Inr (), n1)"
      "index_insert_node F J ?e (n1\<lparr>nd_executed_blocks := insert ?h (nd_executed_blocks n1)\<rparr>) = Some (r1, n')"
      "r = (case r1 of Inr _ \<Rightarrow> Inr ?h | Inl x \<Rightarrow> Inl (RP_Celestia ''failed to update block index'' x))"
    unfolding sync_single_block_def Let_def
    by (elim bind_try_SomeE) (auto simp: bind_act_def dest!: index_step_result)
  then show ?thesis
  proof cases
    case error
    with execute_sync_block_result [OF error(1)] assms(2,3) show ?thesis by (simp add: node_safe_def)
  next
    case executed
    let ?n = "n1\<lparr>nd_executed_blocks := insert ?h (nd_executed_blocks n1)\<rparr>"
    have safe: "node_safe cache g ?n" "nd_index ?n = nd_index n" "fc_head (nd_forkchoice ?n) = ?h"
      using execute_sync_block_result [OF executed(1)] assms(2) by (auto simp: node_safe_def)
    from executed(2) show ?thesis
    proof (cases rule: index_insert_node_result)
      case (stored w)
      have n': "nd_forkchoice n' = nd_forkchoice ?n" "nd_exec n' = nd_exec ?n"
          "nd_executed_blocks n' = nd_executed_blocks ?n" "nd_index n' = insert_entry ?e (nd_index n)"
        using stored safe(2) by simp_all
      have "node_safe cache g n'" using safe(1) by (simp add: node_safe_def n')
      moreover have "index_ok (nd_index n')" using assms(3) by (simp add: n' index_ok_insert)
      moreover have "r = Inr ?h" using executed(3) stored(1) by simp
      ultimately show ?thesis using safe(3) by (simp add: n' lookups_insert)
    next
      case (failed x w)
      have n': "nd_forkchoice n' = nd_forkchoice ?n" "nd_exec n' = nd_exec ?n"
          "nd_executed_blocks n' = nd_executed_blocks ?n" "nd_index n' = nd_index n"
        using failed safe(2) by simp_all
      have "node_safe cache g n'" using safe(1) by (simp add: node_safe_def n')
      then show ?thesis using assms(3) executed(3) failed(1) by (simp add: n')
    qed
  qed
qed

lemma sync_blocks_safe:
  "sync_blocks X F J bs p l n = Some (r, n') \<Longrightarrow> node_safe cache g n \<Longrightarrow> index_ok (nd_index n) \<Longrightarrow>
     node_safe cache g n' \<and> index_ok (nd_index n') \<and>
     (\<forall>k. get_by_height (nd_index n) k \<noteq> None \<longrightarrow> get_by_height (nd_index n') k \<noteq> None) \<and>
     (\<forall>h. r = Inr h \<longrightarrow> (\<forall>(c, b) \<in> set bs. get_by_height (nd_index n') (block_height b) \<noteq> None))"
proof (induction bs arbitrary: p l n)
  case Nil
  then show ?case by auto
next
  case (Cons cb bs)
  obtain c b where cb: "cb = (c, b)" by (cases cb)
  show ?case
  proof (cases "get_by_height (nd_index n) (block_height b) = None")
    case False
    with Cons.prems cb have "sync_blocks X F J bs (blk_block_hash b) l n = Some (r, n')" by simp
    from Cons.IH [OF this Cons.prems(2,3)] False show ?thesis by (auto simp: cb)
  next
    case True
    with Cons.prems(1) cb obtain r1 n1 where single: "sync_single_block X F J b c p n = Some (r1, n1)"
      and rest: "(\<exists>x. r1 = Inl x \<and> r = Inl x \<and> n' = n1) \<or>
        (\<exists>h. r1 = Inr h \<and> sync_blocks X F J bs h (block_height b) n1 = Some (r, n'))"
      by (auto elim!: act_elims)
    note s = sync_single_block_safe [OF single Cons.prems(2,3)]
    from rest show ?thesis
    proof
      assume "\<exists>x. r1 = Inl x \<and> r = Inl x \<and> n' = n1"
      with s show ?thesis by auto
    next
      assume "\<exists>h. r1 = Inr h \<and> sync_blocks X F J bs h (block_height b) n1 = Some (r, n')"
      then obtain h where h: "r1 = Inr h" "sync_blocks X F J bs h (block_height b) n1 = Some (r, n')" by blast
      have n1: "node_safe cache g n1" "index_ok (nd_index n1)"
        and kept: "\<And>k. get_by_height (nd_index n) k \<noteq> None \<Longrightarrow> get_by_height (nd_index n1) k \<noteq> None"
        and b: "get_by_height (nd_index n1) (block_height b) \<noteq> None"
        using s h(1) by blast+
      note IH = Cons.IH [OF h(2) n1]
      have "get_by_height (nd_index n') k \<noteq> None" if "get_by_height (nd_index n) k \<noteq> None" for k
        using kept [OF that] IH by blast
      moreover have "get_by_height (nd_index n') (block_height b) \<noteq> None"
        using b IH by blast
      ultimately show ?thesis using IH by (simp add: cb)
    qed
  qed
qed

end

end
