(* ===== verification/Leader.thy ===== *)
theory Leader
  imports Prelude
begin

text \<open>
  Round-robin leader rotation (crates/consensus, \<open>src/leader.rs\<close>). \<open>usize\<close> has 64 bits, so the cast
  of the height loses nothing; the remainder by an empty validator set panics.
\<close>

definition leader_index :: "u64 \<Rightarrow> nat \<Rightarrow> nat option" where
  "leader_index height validator_count =
     (if validator_count = 0 then None else Some (unat height mod validator_count))"

definition is_leader :: "nat \<Rightarrow> u64 \<Rightarrow> nat \<Rightarrow> bool option" where
  "is_leader our_index height validator_count =
     map_option (\<lambda>i. i = our_index) (leader_index height validator_count)"

text \<open>\<open>Iterator::position\<close>: the index of the first element that satisfies the test.\<close>

fun position :: "('a \<Rightarrow> bool) \<Rightarrow> 'a list \<Rightarrow> nat option" where
  "position p [] = None"
| "position p (x # xs) = (if p x then Some 0 else map_option Suc (position p xs))"

lemma position_Some:
  "position p xs = Some i \<longleftrightarrow> i < length xs \<and> p (xs ! i) \<and> (\<forall>j < i. \<not> p (xs ! j))"
proof (induction xs arbitrary: i)
  case Nil
  then show ?case by simp
next
  case (Cons x xs)
  then show ?case by (cases i) (auto simp: All_less_Suc2)
qed

lemma position_None: "position p xs = None \<longleftrightarrow> (\<forall>x \<in> set xs. \<not> p x)"
  by (induction xs) auto

lemma position_eq_Some: "k \<in> set xs \<Longrightarrow> \<exists>i. position (\<lambda>x. x = k) xs = Some i"
  using position_None [of "\<lambda>x. x = k" xs] by auto

text \<open>A leader index falls on a key exactly when the entry there is the first of its key.\<close>

lemma position_at:
  assumes "i < length xs"
  shows "position (\<lambda>x. x = xs ! i) xs = Some i \<longleftrightarrow> xs ! i \<notin> set (take i xs)"
  using assms by (auto simp: position_Some in_set_conv_nth)

lemma leader_index_hits:
  assumes "0 < n" "i < n" "n \<le> 2 ^ 64"
  shows "leader_index (of_nat i) n = Some i"
  using assms by (simp add: leader_index_def unat_of_nat take_bit_nat_eq_self)

text \<open>
  The first occurrences of the keys of a list are at the indices below their number exactly when
  the list starts with that many distinct keys.
\<close>

lemma distinct_take_iff:
  "distinct (take n xs) \<longleftrightarrow> (\<forall>i < n. i < length xs \<longrightarrow> xs ! i \<notin> set (take i xs))"
proof (induction n)
  case 0
  then show ?case by simp
next
  case (Suc n)
  show ?case
  proof (cases "n < length xs")
    case True
    with Suc.IH show ?thesis by (auto simp: take_Suc_conv_app_nth less_Suc_eq)
  next
    case False
    with Suc.IH show ?thesis by (auto simp: less_Suc_eq)
  qed
qed

end
