(* ===== verification/Network.thy ===== *)
theory Network
  imports Prelude
begin

text \<open>
  The network configuration (crates/consensus, \<open>src/network.rs\<close>). Keys, socket addresses and the
  configuration type of commonware's discovery network are type parameters; its constructors, the
  namespace union and the conversion of an address are fields of \<open>p2p_api\<close>. Durations are in
  milliseconds.
\<close>

record ('sk, 'pk, 'addr, 'ing, 'c) p2p_api =
  p2p_union :: "bytes \<Rightarrow> bytes \<Rightarrow> bytes"
  p2p_ingress :: "'addr \<Rightarrow> 'ing"
  p2p_localhost :: "u16 \<Rightarrow> 'addr"
  p2p_local :: "'sk \<Rightarrow> bytes \<Rightarrow> 'addr \<Rightarrow> 'addr \<Rightarrow> ('pk \<times> 'ing) list \<Rightarrow> u32 \<Rightarrow> 'c"
  p2p_recommended :: "'sk \<Rightarrow> bytes \<Rightarrow> 'addr \<Rightarrow> 'addr \<Rightarrow> ('pk \<times> 'ing) list \<Rightarrow> u32 \<Rightarrow> 'c"
  p2p_set_dial_frequency :: "nat \<Rightarrow> 'c \<Rightarrow> 'c"
  p2p_set_query_frequency :: "nat \<Rightarrow> 'c \<Rightarrow> 'c"

record ('sk, 'pk, 'addr) network_config =
  nc_signer :: 'sk
  nc_namespace :: bytes
  nc_listen_addr :: 'addr
  nc_dialable_addr :: 'addr
  nc_bootstrappers :: "('pk \<times> 'addr) list"
  nc_max_message_size :: u32
  nc_allow_private_ips :: bool

definition network_local ::
  "('sk, 'pk, 'addr, 'ing, 'c) p2p_api \<Rightarrow> 'sk \<Rightarrow> bytes \<Rightarrow> u16 \<Rightarrow> ('pk \<times> 'addr) list
    \<Rightarrow> ('sk, 'pk, 'addr) network_config" where
  "network_local N signer ns port bootstrappers =
     (let addr = p2p_localhost N port in
      \<lparr>nc_signer = signer, nc_namespace = ns, nc_listen_addr = addr, nc_dialable_addr = addr,
       nc_bootstrappers = bootstrappers, nc_max_message_size = 1024 * 1024,
       nc_allow_private_ips = True\<rparr>)"

definition network_production ::
  "'sk \<Rightarrow> bytes \<Rightarrow> 'addr \<Rightarrow> 'addr \<Rightarrow> ('pk \<times> 'addr) list \<Rightarrow> ('sk, 'pk, 'addr) network_config" where
  "network_production signer ns listen_addr dialable_addr bootstrappers =
     \<lparr>nc_signer = signer, nc_namespace = ns, nc_listen_addr = listen_addr,
      nc_dialable_addr = dialable_addr, nc_bootstrappers = bootstrappers,
      nc_max_message_size = 1024 * 1024, nc_allow_private_ips = False\<rparr>"

text \<open>The suffix \<open>_P2P\<close> of the namespace, as bytes.\<close>

definition p2p_suffix :: bytes where "p2p_suffix = [0x5f, 0x50, 0x32, 0x50]"

definition discovery_config ::
  "('sk, 'pk, 'addr, 'ing, 'c) p2p_api \<Rightarrow> bool \<Rightarrow> 'sk \<Rightarrow> bytes \<Rightarrow> 'addr \<Rightarrow> 'addr \<Rightarrow> ('pk \<times> 'addr) list \<Rightarrow> u32 \<Rightarrow> 'c" where
  "discovery_config N private_ips signer ns listen dialable bootstrappers max_size =
     (let ingresses = map (\<lambda>(pk, addr). (pk, p2p_ingress N addr)) bootstrappers in
      if private_ips
      then p2p_local N signer (p2p_union N ns p2p_suffix) listen dialable ingresses max_size
      else p2p_recommended N signer (p2p_union N ns p2p_suffix) listen dialable ingresses max_size)"

definition to_discovery_config ::
  "('sk, 'pk, 'addr, 'ing, 'c) p2p_api \<Rightarrow> ('sk, 'pk, 'addr) network_config \<Rightarrow> 'c" where
  "to_discovery_config N c =
     (let cfg = discovery_config N (nc_allow_private_ips c) (nc_signer c) (nc_namespace c)
            (nc_listen_addr c) (nc_dialable_addr c) (nc_bootstrappers c) (nc_max_message_size c)
      in if nc_allow_private_ips c
         then p2p_set_query_frequency N 10000 (p2p_set_dial_frequency N 500 cfg)
         else cfg)"

section \<open>Channels\<close>

definition channel_vote :: u32 where "channel_vote = 0"
definition channel_certificate :: u32 where "channel_certificate = 1"
definition channel_resolver :: u32 where "channel_resolver = 2"
definition channel_block_relay :: u32 where "channel_block_relay = 3"

text \<open>Messages per second, and backlogs.\<close>

definition rate_vote :: u32 where "rate_vote = 100"
definition rate_certificate :: u32 where "rate_certificate = 50"
definition rate_resolver :: u32 where "rate_resolver = 20"
definition rate_block_relay :: u32 where "rate_block_relay = 10"

definition backlog_vote :: nat where "backlog_vote = 512"
definition backlog_certificate :: nat where "backlog_certificate = 256"
definition backlog_resolver :: nat where "backlog_resolver = 128"
definition backlog_block_relay :: nat where "backlog_block_relay = 64"

text \<open>What \<open>run_simplex\<close> registers: channel, rate and backlog of the four.\<close>

definition registered_channels :: "(u64 \<times> u32 \<times> nat) list" where
  "registered_channels =
     [(ucast channel_vote, rate_vote, backlog_vote),
      (ucast channel_certificate, rate_certificate, backlog_certificate),
      (ucast channel_resolver, rate_resolver, backlog_resolver),
      (ucast channel_block_relay, rate_block_relay, backlog_block_relay)]"

lemma channels_distinct: "distinct (map fst registered_channels)"
  by (simp add: registered_channels_def channel_vote_def channel_certificate_def
      channel_resolver_def channel_block_relay_def)

end
