(* ===== verification/Application.thy ===== *)
theory Application
  imports Execution_Contract Chain_Config
begin

text \<open>
  The application actor of the consensus engine (crates/consensus, \<open>src/application.rs\<close>): its
  state, one definition per method, the handlers of its messages and the actor loop. The execution
  client is used through the operations of \<open>block_builder\<close> over a world \<open>'w\<close>; the hash function of
  commonware and the printing of an epoch are arguments. The broadcast channels are the lists of
  what was sent on them; \<open>Context\<close>, which the code only logs, is left out.
\<close>

section \<open>State\<close>

type_synonym digest = "256 word"

record proposed_block =
  pb_digest :: digest
  pb_block :: block
  pb_payload :: built_payload

record app =
  app_pending_blocks :: "digest \<rightharpoonup> block"
  app_pending_payloads :: "digest \<rightharpoonup> built_payload"
  app_verified :: "digest set"
  app_block_sender :: "block list"
  app_block_relay_sender :: "proposed_block list"
  app_height :: u64
  app_last_hash :: b256
  app_proposer :: address
  app_last_proposed_height :: "u64 option"
  app_block_timing :: block_timing

record app_config =
  ac_initial_height :: u64
  ac_initial_hash :: b256
  ac_proposer :: address
  ac_block_timing :: block_timing

record 'w app_world =
  aw_app :: app
  aw_world :: 'w

record 'w app_env =
  ae_builder :: "'w block_builder"
  ae_host :: "'w host"
  ae_sha256 :: "bytes \<Rightarrow> digest"
  ae_show_epoch :: "u64 \<Rightarrow> string"

definition application_new :: "app_config \<Rightarrow> app" where
  "application_new c =
     \<lparr>app_pending_blocks = Map.empty,
      app_pending_payloads = Map.empty,
      app_verified = {},
      app_block_sender = [],
      app_block_relay_sender = [],
      app_height = ac_initial_height c,
      app_last_hash = ac_initial_hash c,
      app_proposer = ac_proposer c,
      app_last_proposed_height = None,
      app_block_timing = ac_block_timing c\<rparr>"

text \<open>An operation of the client or the host, and a change of the actor's own state.\<close>

definition in_client :: "('w, 'a) act \<Rightarrow> ('w app_world, 'a) act" where
  "in_client m w = map_option (\<lambda>(a, x). (a, w\<lparr>aw_world := x\<rparr>)) (m (aw_world w))"

definition modify_app :: "(app \<Rightarrow> app) \<Rightarrow> ('w app_world, unit) act" where
  "modify_app f w = Some ((), w\<lparr>aw_app := f (aw_app w)\<rparr>)"

definition get_app :: "(app \<Rightarrow> ('w app_world, 'a) act) \<Rightarrow> ('w app_world, 'a) act" where
  "get_app k w = k (aw_app w) w"

section \<open>Genesis and the null proposal\<close>

definition genesis :: "'w app_env \<Rightarrow> u64 \<Rightarrow> ('w app_world, digest) act" where
  "genesis E epoch =
     (let genesis_data = ''genesis:'' @ ae_show_epoch E epoch;
          d = ae_sha256 E (string_bytes genesis_data)
      in bind_act (modify_app (\<lambda>a. a\<lparr>app_verified := insert d (app_verified a)\<rparr>)) (\<lambda>_. ret d))"

definition null_proposal_digest :: digest where
  "null_proposal_digest = 0x9d157a9d5a238b4c7d9f8c2b3e4a5f6d8e9a0b1c2d3e4f5a6b7c8d9eafb0c1d2"

definition null_proposal :: digest where
  "null_proposal = null_proposal_digest"

section \<open>Waiting for reth\<close>

record reth_head =
  rh_hash :: b256
  rh_number :: u64
  rh_timestamp :: u64

datatype sync_result = SR_Synced u64 | SR_Failed
datatype sync_check = SC_Synced | SC_Behind | SC_Diverged

definition max_sync_attempts :: nat where
  "max_sync_attempts = 10"

definition query_reth_head :: "'w app_env \<Rightarrow> ('w app_world, reth_head option) act" where
  "query_reth_head E =
     bind_act (in_client (bb_get_head (ae_builder E))) (\<lambda>r.
     case r of
       Inr (h, number, timestamp) \<Rightarrow>
         ret (Some \<lparr>rh_hash = h, rh_number = number, rh_timestamp = timestamp\<rparr>)
     | Inl e \<Rightarrow> ret None)"

definition check_sync_state :: "app \<Rightarrow> reth_head \<Rightarrow> sync_check" where
  "check_sync_state a head =
     (let expected_height = sat_sub (app_height a) 1
      in if rh_hash head = app_last_hash a then SC_Synced
         else if rh_number head < expected_height then SC_Behind
         else SC_Diverged)"

definition sync_sleep :: "'w app_env \<Rightarrow> ('w app_world, unit) act" where
  "sync_sleep E = in_client (\<lambda>x. Some ((), sleep_ms (ae_host E) 100 x))"

fun sync_loop :: "'w app_env \<Rightarrow> nat \<Rightarrow> nat \<Rightarrow> ('w app_world, sync_result) act" where
  "sync_loop E 0 attempt = ret SR_Failed"
| "sync_loop E (Suc n) attempt =
     bind_act (query_reth_head E) (\<lambda>h.
     case h of
       None \<Rightarrow> bind_act (sync_sleep E) (\<lambda>_. sync_loop E n (Suc attempt))
     | Some head \<Rightarrow> get_app (\<lambda>a.
         case check_sync_state a head of
           SC_Synced \<Rightarrow> ret (SR_Synced (rh_timestamp head))
         | SC_Behind \<Rightarrow> bind_act (sync_sleep E) (\<lambda>_. sync_loop E n (Suc attempt))
         | SC_Diverged \<Rightarrow> ret SR_Failed))"

definition wait_for_reth_sync :: "'w app_env \<Rightarrow> ('w app_world, sync_result) act" where
  "wait_for_reth_sync E = sync_loop E max_sync_attempts 1"

section \<open>Proposing\<close>

definition wall_clock :: "'w app_env \<Rightarrow> ('w app_world, u64) act" where
  "wall_clock E = in_client (lift_io (wall_clock_timestamp (ae_host E)))"

definition can_build_block :: "'w app_env \<Rightarrow> block_timing \<Rightarrow> u64 \<Rightarrow> ('w app_world, bool) act" where
  "can_build_block E timing parent_timestamp =
     bind_act (wall_clock E) (\<lambda>now.
     ret (case timing of
            Vanilla \<Rightarrow> now > parent_timestamp
          | Subsecond \<Rightarrow> now \<ge> parent_timestamp))"

definition already_proposed_at_height :: "app \<Rightarrow> bool" where
  "already_proposed_at_height a =
     (case app_last_proposed_height a of
        None \<Rightarrow> False
      | Some l \<Rightarrow> if l < app_height a then False else True)"

definition build_via_reth :: "'w app_env \<Rightarrow> u64 \<Rightarrow> ('w app_world, built_payload option) act" where
  "build_via_reth E timestamp = get_app (\<lambda>a.
     bind_act (in_client (bb_start_building (ae_builder E) (app_last_hash a) timestamp
                 (app_proposer a))) (\<lambda>r.
     case r of
       Inl e \<Rightarrow> ret None
     | Inr payload_id \<Rightarrow>
         bind_act (in_client (bb_get_payload (ae_builder E) payload_id)) (\<lambda>r2.
         case r2 of
           Inr payload \<Rightarrow> ret (Some payload)
         | Inl e \<Rightarrow> ret None)))"

definition compute_digest :: "'w app_env \<Rightarrow> b256 \<Rightarrow> digest" where
  "compute_digest E h = ae_sha256 E (b256_bytes h)"

definition broadcast_to_relay :: "digest \<Rightarrow> block \<Rightarrow> built_payload \<Rightarrow> app \<Rightarrow> app" where
  "broadcast_to_relay d b p a =
     a\<lparr>app_block_relay_sender :=
         app_block_relay_sender a @ [\<lparr>pb_digest = d, pb_block = b, pb_payload = p\<rparr>]\<rparr>"

definition complete_proposal :: "'w app_env \<Rightarrow> built_payload \<Rightarrow> ('w app_world, digest) act" where
  "complete_proposal E payload =
     (let b = build_block_from_payload payload;
          d = compute_digest E (blk_block_hash b)
      in bind_act (modify_app (broadcast_to_relay d b payload)) (\<lambda>_.
         bind_act (modify_app (\<lambda>a. a
             \<lparr>app_pending_blocks := (app_pending_blocks a)(d \<mapsto> b),
              app_pending_payloads := (app_pending_payloads a)(d \<mapsto> payload),
              app_verified := insert d (app_verified a),
              app_last_proposed_height := Some (app_height a)\<rparr>)) (\<lambda>_.
         ret d)))"

definition propose :: "'w app_env \<Rightarrow> ('w app_world, digest) act" where
  "propose E = get_app (\<lambda>a.
     if already_proposed_at_height a then ret null_proposal
     else bind_act (wait_for_reth_sync E) (\<lambda>s.
       case s of
         SR_Failed \<Rightarrow> ret null_proposal
       | SR_Synced parent_timestamp \<Rightarrow>
           bind_act (can_build_block E (app_block_timing a) parent_timestamp) (\<lambda>can_build.
           if \<not> can_build then ret null_proposal
           else bind_act (wall_clock E) (\<lambda>timestamp.
             bind_act (build_via_reth E timestamp) (\<lambda>r.
             case r of
               Some payload \<Rightarrow> complete_proposal E payload
             | None \<Rightarrow> ret null_proposal)))))"

section \<open>Verifying, finalizing, receiving\<close>

definition verify :: "digest \<Rightarrow> ('w app_world, bool) act" where
  "verify payload = get_app (\<lambda>a.
     if payload = null_proposal_digest then ret False
     else if app_pending_blocks a payload \<noteq> None \<or> payload \<in> app_verified a
     then bind_act (modify_app (\<lambda>a. a\<lparr>app_verified := insert payload (app_verified a)\<rparr>))
            (\<lambda>_. ret True)
     else bind_act (modify_app (\<lambda>a. a\<lparr>app_verified := insert payload (app_verified a)\<rparr>))
            (\<lambda>_. ret True))"

definition broadcast :: "digest \<Rightarrow> ('w app_world, unit) act" where
  "broadcast payload = ret ()"

definition apply_to_reth :: "'w app_env \<Rightarrow> built_payload option \<Rightarrow> ('w app_world, unit) act" where
  "apply_to_reth E payload =
     (case payload of
        None \<Rightarrow> ret ()
      | Some p \<Rightarrow>
          bind_act (in_client (bb_apply_built_payload (ae_builder E) p)) (\<lambda>r.
          case r of Inl e \<Rightarrow> ret () | Inr _ \<Rightarrow> ret ()))"

text \<open>
  The digests of the pending blocks below the current height are collected and removed from both
  maps; which entries remain does not depend on the iteration order.
\<close>

definition is_stale :: "app \<Rightarrow> digest \<Rightarrow> bool" where
  "is_stale a d = (case app_pending_blocks a d of
     Some b \<Rightarrow> block_height b < app_height a | None \<Rightarrow> False)"

definition cleanup_stale_blocks :: "app \<Rightarrow> app" where
  "cleanup_stale_blocks a =
     a\<lparr>app_pending_blocks := (\<lambda>d. if is_stale a d then None else app_pending_blocks a d),
       app_pending_payloads := (\<lambda>d. if is_stale a d then None else app_pending_payloads a d)\<rparr>"

definition broadcast_finalized :: "block \<Rightarrow> app \<Rightarrow> app" where
  "broadcast_finalized b a = a\<lparr>app_block_sender := app_block_sender a @ [b]\<rparr>"

definition is_valid_height :: "app \<Rightarrow> block \<Rightarrow> bool" where
  "is_valid_height a b \<longleftrightarrow> block_height b = app_height a"

definition remove_payload :: "digest \<Rightarrow> app \<Rightarrow> app" where
  "remove_payload d a = a\<lparr>app_pending_payloads := (app_pending_payloads a)(d := None)\<rparr>"

definition remove_block :: "digest \<Rightarrow> app \<Rightarrow> app" where
  "remove_block d a = a\<lparr>app_pending_blocks := (app_pending_blocks a)(d := None)\<rparr>"

definition finalize :: "'w app_env \<Rightarrow> digest \<Rightarrow> ('w app_world, block option) act" where
  "finalize E d = get_app (\<lambda>a.
     case app_pending_blocks a d of
       None \<Rightarrow> bind_act (modify_app (remove_payload d)) (\<lambda>_. ret None)
     | Some b \<Rightarrow>
         bind_act (modify_app (remove_block d)) (\<lambda>_.
         if \<not> is_valid_height a b
         then bind_act (modify_app (remove_payload d)) (\<lambda>_. ret None)
         else
           let payload = app_pending_payloads a d
           in bind_act (modify_app (remove_payload d)) (\<lambda>_.
              bind_act (apply_to_reth E payload) (\<lambda>_.
              bind_act (modify_app (\<lambda>a. a\<lparr>app_height := block_height b + 1,
                                          app_last_hash := blk_block_hash b\<rparr>)) (\<lambda>_.
              bind_act (modify_app cleanup_stale_blocks) (\<lambda>_.
              bind_act (modify_app (broadcast_finalized b)) (\<lambda>_.
              ret (Some b))))))))"

definition handle_receive_block ::
  "'w app_env \<Rightarrow> digest \<Rightarrow> block \<Rightarrow> built_payload \<Rightarrow> ('w app_world, unit) act" where
  "handle_receive_block E d b payload = get_app (\<lambda>a.
     if app_pending_blocks a d \<noteq> None then ret ()
     else bind_act (in_client (bb_import_payload (ae_builder E) payload)) (\<lambda>r.
       let import_succeeded = (case r of Inr _ \<Rightarrow> True | Inl e \<Rightarrow> False)
       in bind_act (modify_app (\<lambda>a. a
            \<lparr>app_pending_blocks := (app_pending_blocks a)(d \<mapsto> b),
             app_pending_payloads := (app_pending_payloads a)(d \<mapsto> payload)\<rparr>)) (\<lambda>_.
          if import_succeeded
          then modify_app (\<lambda>a. a\<lparr>app_verified := insert d (app_verified a)\<rparr>)
          else ret ())))"

section \<open>Messages and the actor loop\<close>

text \<open>The response channels of the messages are the results of the handlers.\<close>

datatype message =
    M_Genesis u64
  | M_Propose
  | M_Verify digest
  | M_Broadcast digest
  | M_Finalize digest
  | M_ReceiveBlock digest block built_payload

datatype response = R_Digest digest | R_Bool bool | R_Nothing

definition handle_genesis :: "'w app_env \<Rightarrow> u64 \<Rightarrow> ('w app_world, response) act" where
  [simp]: "handle_genesis E epoch = bind_act (genesis E epoch) (\<lambda>d. ret (R_Digest d))"

definition handle_propose :: "'w app_env \<Rightarrow> ('w app_world, response) act" where
  [simp]: "handle_propose E = bind_act (propose E) (\<lambda>d. ret (R_Digest d))"

definition handle_verify :: "digest \<Rightarrow> ('w app_world, response) act" where
  [simp]: "handle_verify payload = bind_act (verify payload) (\<lambda>valid. ret (R_Bool valid))"

fun process_message :: "'w app_env \<Rightarrow> message \<Rightarrow> ('w app_world, response) act" where
  "process_message E (M_Genesis epoch) = handle_genesis E epoch"
| "process_message E M_Propose = handle_propose E"
| "process_message E (M_Verify payload) = handle_verify payload"
| "process_message E (M_Broadcast payload) = bind_act (broadcast payload) (\<lambda>_. ret R_Nothing)"
| "process_message E (M_Finalize d) = bind_act (finalize E d) (\<lambda>_. ret R_Nothing)"
| "process_message E (M_ReceiveBlock d b p) =
     bind_act (handle_receive_block E d b p) (\<lambda>_. ret R_Nothing)"

text \<open>The loop over the messages that arrive until the mailbox is closed.\<close>

fun run_app :: "'w app_env \<Rightarrow> message list \<Rightarrow> ('w app_world, response list) act" where
  "run_app E [] = ret []"
| "run_app E (m # ms) =
     bind_act (process_message E m) (\<lambda>r. bind_act (run_app E ms) (\<lambda>rs. ret (r # rs)))"

end
