(* ===== verification/Mailbox.thy ===== *)
theory Mailbox
  imports Application
begin

text \<open>
  The application's mailbox (crates/consensus, \<open>src/application.rs\<close>), the reporter that forwards
  finalizations to it (\<open>src/reporter.rs\<close>), and the serialisation of digests. The channel is an
  argument: \<open>mb_try_send\<close> hands over a message and answers whether the channel took it, which a full
  or closed channel does not; \<open>mb_await\<close> waits for the answer to a message, \<open>None\<close> when the other
  side dropped it.
\<close>

section \<open>The mailbox\<close>

record 'w mailbox =
  mb_try_send :: "message \<Rightarrow> ('w, bool) io"
  mb_await :: "('w, response option) io"

text \<open>A refused message is only logged.\<close>

definition send_or_warn :: "'w mailbox \<Rightarrow> message \<Rightarrow> ('w, unit) io" where
  "send_or_warn mb m w = (let (ok, w') = mb_try_send mb m w in ((), w'))"

definition mailbox_finalize :: "'w mailbox \<Rightarrow> digest \<Rightarrow> ('w, unit) io" where
  "mailbox_finalize mb d = send_or_warn mb (M_Finalize d)"

definition mailbox_receive_block ::
  "'w mailbox \<Rightarrow> digest \<Rightarrow> block \<Rightarrow> built_payload \<Rightarrow> ('w, unit) io" where
  "mailbox_receive_block mb d b p = send_or_warn mb (M_ReceiveBlock d b p)"

text \<open>
  A refused message drops its response channel, and waiting for the genesis digest then panics.
  The receivers of \<open>propose\<close> and \<open>verify\<close> go to the engine, which sees the drop.
\<close>

definition mailbox_genesis :: "'w mailbox \<Rightarrow> u64 \<Rightarrow> ('w, digest) act" where
  "mailbox_genesis mb epoch w =
     (let (ok, w1) = mb_try_send mb (M_Genesis epoch) w in
      if \<not> ok then None
      else (let (answer, w2) = mb_await mb w1 in
        case answer of Some (R_Digest d) \<Rightarrow> Some (d, w2) | _ \<Rightarrow> None))"

definition mailbox_propose :: "'w mailbox \<Rightarrow> ('w, bool) io" where
  "mailbox_propose mb = mb_try_send mb M_Propose"

definition mailbox_verify :: "'w mailbox \<Rightarrow> digest \<Rightarrow> ('w, bool) io" where
  "mailbox_verify mb payload = mb_try_send mb (M_Verify payload)"

definition mailbox_broadcast :: "'w mailbox \<Rightarrow> digest \<Rightarrow> ('w, unit) io" where
  "mailbox_broadcast mb payload = send_or_warn mb (M_Broadcast payload)"

section \<open>The reporter\<close>

text \<open>The activities of the engine; the reporter looks at the payload of a finalization only.\<close>

datatype activity =
    Notarize digest
  | Notarization digest
  | Certification digest
  | Nullify
  | Nullification
  | Finalize digest
  | Finalization digest
  | ConflictingNotarize
  | ConflictingFinalize
  | NullifyFinalize

record 'w consensus_reporter =
  cr_verbose :: bool
  cr_mailbox :: "'w mailbox"

definition reporter_new :: "bool \<Rightarrow> 'w mailbox \<Rightarrow> 'w consensus_reporter" where
  "reporter_new verbose mb = \<lparr>cr_verbose = verbose, cr_mailbox = mb\<rparr>"

definition handle_activity :: "'w consensus_reporter \<Rightarrow> activity \<Rightarrow> ('w, unit) io" where
  "handle_activity R a w =
     (case a of
        Finalization payload \<Rightarrow> mailbox_finalize (cr_mailbox R) payload w
      | _ \<Rightarrow> ((), w))"

definition report :: "'w consensus_reporter \<Rightarrow> activity \<Rightarrow> ('w, unit) io" where
  "report R a = handle_activity R a"

fun report_all :: "'w consensus_reporter \<Rightarrow> activity list \<Rightarrow> ('w, unit) io" where
  "report_all R [] w = ((), w)"
| "report_all R (a # as) w = report_all R as (snd (report R a w))"

text \<open>
  A channel with a record of what it took: \<open>taken\<close> reads it, and a message is appended exactly when
  the channel takes it.
\<close>

definition records_messages :: "'w mailbox \<Rightarrow> ('w \<Rightarrow> message list) \<Rightarrow> bool" where
  "records_messages mb taken \<longleftrightarrow>
     (\<forall>m w. taken (snd (mb_try_send mb m w)) = taken w @ (if fst (mb_try_send mb m w) then [m] else []))"

fun finalized_payloads :: "activity list \<Rightarrow> digest list" where
  "finalized_payloads [] = []"
| "finalized_payloads (Finalization d # as) = d # finalized_payloads as"
| "finalized_payloads (_ # as) = finalized_payloads as"

lemma report_Finalization: "report R (Finalization d) w = mailbox_finalize (cr_mailbox R) d w"
  by (simp add: report_def handle_activity_def)

lemma report_other: "finalized_payloads [a] = [] \<Longrightarrow> report R a w = ((), w)"
  by (cases a) (simp_all add: report_def handle_activity_def)

lemma taken_send:
  "records_messages mb taken \<Longrightarrow> \<exists>ok. taken (snd (send_or_warn mb m w)) = taken w @ (if ok then [m] else [])"
  unfolding records_messages_def send_or_warn_def Let_def by (auto simp: case_prod_unfold)

lemma taken_send_accepted:
  "records_messages mb taken \<Longrightarrow> fst (mb_try_send mb m w) \<Longrightarrow>
     taken (snd (send_or_warn mb m w)) = taken w @ [m]"
  unfolding records_messages_def send_or_warn_def Let_def by (simp add: case_prod_unfold)

text \<open>A channel that takes everything gets the payloads of the finalizations, in order.\<close>

lemma report_all_taken:
  assumes "records_messages mb taken" "\<And>m w. fst (mb_try_send mb m w)" "cr_mailbox R = mb"
  shows "taken (snd (report_all R as w)) = taken w @ map M_Finalize (finalized_payloads as)"
proof (induction as arbitrary: w rule: finalized_payloads.induct)
  case (2 d as)
  then show ?case
    using taken_send_accepted [OF assms(1,2)]
    by (simp add: report_Finalization mailbox_finalize_def assms(3))
qed (simp_all add: report_other)

section \<open>Digests on the wire\<close>

text \<open>\<open>digest_serde\<close>: the 32 bytes of the digest, through the serialiser of byte arrays.\<close>

definition digest_serialize :: "(bytes \<Rightarrow> 'e + 'o) \<Rightarrow> digest \<Rightarrow> 'e + 'o" where
  "digest_serialize serialize_array d = serialize_array (b256_bytes d)"

definition digest_deserialize :: "('i \<Rightarrow> 'e + b256) \<Rightarrow> 'i \<Rightarrow> 'e + digest" where
  "digest_deserialize deserialize_array input = deserialize_array input"

end
