(* ===== verification/Consensus_Runtime.thy ===== *)
theory Consensus_Runtime
  imports Leader Network Mailbox
begin

text \<open>
  The runtime around the consensus engine (crates/consensus, \<open>src/runtime.rs\<close>): its configuration,
  the checks before it starts, what it sets up, the loop that hands finalized blocks to the
  sequencer, and the task that relays proposed blocks between validators. Keys, addresses, the
  signing scheme and the ordered set of participants are commonware's: type parameters, and the
  arguments \<open>pub\<close> (the public key of a key), \<open>dedup\<close> (\<open>Set::from_iter_dedup\<close>) and \<open>signer\<close>
  (\<open>Scheme::signer\<close>). What a channel delivers is the list of results of its \<open>recv\<close>.
\<close>

section \<open>Configuration\<close>

datatype consensus_error =
    Con_StartFailed string
  | Con_SubmitFailed string
  | Con_InvalidConfig string
  | Con_Network string
  | Con_Internal string

record ('sk, 'pk, 'addr) simplex_config =
  sc_private_key :: 'sk
  sc_validators :: "'pk list"
  sc_our_address :: address
  sc_namespace :: bytes
  sc_epoch :: u64
  sc_listen_addr :: 'addr
  sc_dialable_addr :: 'addr
  sc_bootstrappers :: "('pk \<times> 'addr) list"
  sc_storage_dir :: string
  sc_leader_timeout_ms :: u64
  sc_notarization_timeout_ms :: u64
  sc_nullify_retry_ms :: u64
  sc_activity_timeout :: u64
  sc_skip_timeout :: u64
  sc_fetch_timeout_ms :: u64
  sc_mailbox_size :: nat
  sc_allow_private_ips :: bool
  sc_max_message_size :: u32
  sc_initial_hash :: b256
  sc_block_timing :: block_timing

definition from_chain_config ::
  "consensus_config \<Rightarrow> 'sk \<Rightarrow> 'pk list \<Rightarrow> address \<Rightarrow> 'addr \<Rightarrow> 'addr \<Rightarrow> ('pk \<times> 'addr) list \<Rightarrow> string \<Rightarrow> b256
    \<Rightarrow> ('sk, 'pk, 'addr) simplex_config" where
  "from_chain_config cs private_key validators our_address listen_addr dialable_addr bootstrappers
     storage initial_hash =
     \<lparr>sc_private_key = private_key, sc_validators = validators, sc_our_address = our_address,
      sc_namespace = string_bytes (cs_namespace cs), sc_epoch = 1,
      sc_listen_addr = listen_addr, sc_dialable_addr = dialable_addr,
      sc_bootstrappers = bootstrappers, sc_storage_dir = storage,
      sc_leader_timeout_ms = cs_leader_timeout_ms cs,
      sc_notarization_timeout_ms = cs_notarization_timeout_ms cs,
      sc_nullify_retry_ms = cs_nullify_retry_ms cs,
      sc_activity_timeout = 100, sc_skip_timeout = 50, sc_fetch_timeout_ms = 5 * 1000,
      sc_mailbox_size = 1024, sc_allow_private_ips = True, sc_max_message_size = 1024 * 1024,
      sc_initial_hash = initial_hash, sc_block_timing = cs_block_timing cs\<rparr>"

definition is_validator :: "('sk \<Rightarrow> 'pk) \<Rightarrow> ('sk, 'pk, 'addr) simplex_config \<Rightarrow> bool" where
  "is_validator pub c \<longleftrightarrow> pub (sc_private_key c) \<in> set (sc_validators c)"

definition validator_index :: "('sk \<Rightarrow> 'pk) \<Rightarrow> ('sk, 'pk, 'addr) simplex_config \<Rightarrow> nat option" where
  "validator_index pub c = position (\<lambda>pk. pk = pub (sc_private_key c)) (sc_validators c)"

section \<open>Setting up\<close>

definition build_p2p_config ::
  "('sk, 'pk, 'addr, 'ing, 'c) p2p_api \<Rightarrow> ('sk, 'pk, 'addr) simplex_config \<Rightarrow> 'c" where
  "build_p2p_config N c =
     discovery_config N (sc_allow_private_ips c) (sc_private_key c) (sc_namespace c)
       (sc_listen_addr c) (sc_dialable_addr c) (sc_bootstrappers c) (sc_max_message_size c)"

definition create_application :: "('sk, 'pk, 'addr) simplex_config \<Rightarrow> app" where
  "create_application c =
     application_new
       \<lparr>ac_initial_height = 1, ac_initial_hash = sc_initial_hash c,
        ac_proposer = sc_our_address c, ac_block_timing = sc_block_timing c\<rparr>"

definition create_scheme ::
  "(bytes \<Rightarrow> 'pk list \<Rightarrow> 'sk \<Rightarrow> 's option) \<Rightarrow> ('sk, 'pk, 'addr) simplex_config \<Rightarrow> 'pk list \<Rightarrow> 's option" where
  "create_scheme signer c participants = signer (sc_namespace c) participants (sc_private_key c)"

definition PAGE_SIZE :: nat where "PAGE_SIZE = 4096"
definition PAGE_CACHE_SIZE :: nat where "PAGE_CACHE_SIZE = 1024"

record 's engine_config =
  en_scheme :: 's
  en_reporter_verbose :: bool
  en_partition :: string
  en_mailbox_size :: nat
  en_epoch :: u64
  en_leader_timeout_ms :: u64
  en_notarization_timeout_ms :: u64
  en_nullify_retry_ms :: u64
  en_activity_timeout :: u64
  en_skip_timeout :: u64
  en_fetch_timeout_ms :: u64
  en_fetch_concurrent :: nat
  en_replay_buffer :: nat
  en_write_buffer :: nat
  en_buffer_pool :: "nat \<times> nat"

text \<open>\<open>NonZeroUsize::new(n).expect(..)\<close>; and \<open>NonZeroU16\<close> after a cast to 16 bits.\<close>

definition non_zero :: "nat \<Rightarrow> nat option" where
  "non_zero n = (if n = 0 then None else Some n)"

definition build_engine_config ::
  "('sk \<Rightarrow> 'pk) \<Rightarrow> ('pk \<Rightarrow> string) \<Rightarrow> (bytes \<Rightarrow> 'pk list \<Rightarrow> 'sk \<Rightarrow> 's option)
    \<Rightarrow> ('sk, 'pk, 'addr) simplex_config \<Rightarrow> 'pk list \<Rightarrow> 's engine_config option" where
  "build_engine_config pub show_key signer c participants =
     do {
       scheme \<leftarrow> create_scheme signer c participants;
       replay_buffer \<leftarrow> non_zero (1024 * 1024);
       write_buffer \<leftarrow> non_zero (1024 * 1024);
       page_size \<leftarrow> non_zero (PAGE_SIZE mod 2 ^ 16);
       page_cache_size \<leftarrow> non_zero PAGE_CACHE_SIZE;
       Some \<lparr>en_scheme = scheme, en_reporter_verbose = True,
         en_partition = show_key (pub (sc_private_key c)),
         en_mailbox_size = sc_mailbox_size c, en_epoch = sc_epoch c,
         en_leader_timeout_ms = sc_leader_timeout_ms c,
         en_notarization_timeout_ms = sc_notarization_timeout_ms c,
         en_nullify_retry_ms = sc_nullify_retry_ms c,
         en_activity_timeout = sc_activity_timeout c, en_skip_timeout = sc_skip_timeout c,
         en_fetch_timeout_ms = sc_fetch_timeout_ms c, en_fetch_concurrent = 4,
         en_replay_buffer = replay_buffer, en_write_buffer = write_buffer,
         en_buffer_pool = (page_size, page_cache_size)\<rparr>
     }"

text \<open>What \<open>run_simplex\<close> sets up before its tasks run; \<open>None\<close> is its panic without a scheme.\<close>

record ('pk, 'c, 's) simplex_setup =
  st_p2p :: 'c
  st_participants :: "'pk list"
  st_channels :: "(u64 \<times> u32 \<times> nat) list"
  st_app :: app
  st_engine :: "'s engine_config"

definition run_simplex_setup ::
  "('sk, 'pk, 'addr, 'ing, 'c) p2p_api \<Rightarrow> ('pk list \<Rightarrow> 'pk list) \<Rightarrow> ('sk \<Rightarrow> 'pk) \<Rightarrow> ('pk \<Rightarrow> string)
    \<Rightarrow> (bytes \<Rightarrow> 'pk list \<Rightarrow> 'sk \<Rightarrow> 's option) \<Rightarrow> ('sk, 'pk, 'addr) simplex_config
    \<Rightarrow> ('pk, 'c, 's) simplex_setup option" where
  "run_simplex_setup N dedup pub show_key signer c =
     (let participants = dedup (sc_validators c) in do {
       engine \<leftarrow> build_engine_config pub show_key signer c participants;
       Some \<lparr>st_p2p = build_p2p_config N c, st_participants = participants,
         st_channels = registered_channels, st_app = create_application c, st_engine = engine\<rparr>
     })"

text \<open>\<open>run\<close> is the runner of commonware applied to \<open>run_simplex\<close>; it returns on shutdown.\<close>

definition start_simplex_runtime ::
  "('sk \<Rightarrow> 'pk) \<Rightarrow> (('sk, 'pk, 'addr) simplex_config \<Rightarrow> ('w, unit) act) \<Rightarrow> ('sk, 'pk, 'addr) simplex_config
    \<Rightarrow> ('w, consensus_error + unit) act" where
  "start_simplex_runtime pub run c =
     (if \<not> is_validator pub c then ret (Inl (Con_InvalidConfig ''not in validator set''))
      else if sc_validators c = [] then ret (Inl (Con_InvalidConfig ''validator set is empty''))
      else bind_act (run c) (\<lambda>_. ret (Inr ())))"

section \<open>The finalization loop\<close>

text \<open>Receiving from a broadcast channel: a value, the receiver lagged behind, or it is closed.\<close>

datatype recv_error = Lagged nat | Closed

datatype receive_event = RV_Received "recv_error + block" | RV_Stopped

datatype block_receive_result = BR_Block block | BR_Error | BR_Stopped

definition wait_for_block :: "receive_event \<Rightarrow> block_receive_result" where
  "wait_for_block e =
     (case e of
        RV_Received (Inr b) \<Rightarrow> BR_Block b
      | RV_Received (Inl _) \<Rightarrow> BR_Error
      | RV_Stopped \<Rightarrow> BR_Stopped)"

text \<open>The trait \<open>OnFinalized\<close> is its one method; a closure implements it.\<close>

record 'w finalized_callback =
  fcb_callback :: "block \<Rightarrow> bool \<Rightarrow> ('w, consensus_error + unit) act"

definition on_finalized ::
  "(block \<Rightarrow> bool \<Rightarrow> ('w, consensus_error + unit) act) \<Rightarrow> 'w finalized_callback" where
  "on_finalized f = \<lparr>fcb_callback = f\<rparr>"

definition call_on_finalized ::
  "'w finalized_callback \<Rightarrow> block \<Rightarrow> bool \<Rightarrow> ('w, consensus_error + unit) act" where
  "call_on_finalized callback b leader = fcb_callback callback b leader"

lemma call_on_finalized_closure [simp]: "call_on_finalized (on_finalized f) = f"
  by (intro ext) (simp add: call_on_finalized_def on_finalized_def)

definition handle_finalized_block :: "'w finalized_callback \<Rightarrow> block \<Rightarrow> nat \<Rightarrow> nat \<Rightarrow> ('w, unit) act" where
  "handle_finalized_block callback b our_index num_validators =
     bind_act (unwrap (is_leader our_index (block_height b) num_validators)) (\<lambda>leader.
     bind_act (call_on_finalized callback b leader) (\<lambda>_. ret ()))"

text \<open>The result is whether the loop is still waiting after the events.\<close>

fun finalization_loop :: "'w finalized_callback \<Rightarrow> nat \<Rightarrow> nat \<Rightarrow> receive_event list \<Rightarrow> ('w, bool) act" where
  "finalization_loop callback our_index n [] = ret True"
| "finalization_loop callback our_index n (e # es) =
     (case wait_for_block e of
        BR_Block b \<Rightarrow> bind_act (handle_finalized_block callback b our_index n)
                       (\<lambda>_. finalization_loop callback our_index n es)
      | BR_Error \<Rightarrow> ret False
      | BR_Stopped \<Rightarrow> ret False)"

definition run_finalization_loop ::
  "('sk \<Rightarrow> 'pk) \<Rightarrow> ('sk, 'pk, 'addr) simplex_config \<Rightarrow> 'w finalized_callback \<Rightarrow> 'pk list \<Rightarrow> receive_event list
    \<Rightarrow> ('w, bool) act" where
  "run_finalization_loop pub c callback participants events =
     bind_act (unwrap (validator_index pub c)) (\<lambda>our_index.
     finalization_loop callback our_index (length participants) events)"

text \<open>
  The body of the runtime: setting up, which panics without a signing scheme; the application, the
  engine and the relay are tasks of their own; the loop ends with the last event it is given, or
  earlier.
\<close>

definition run_simplex ::
  "('sk, 'pk, 'addr, 'ing, 'c) p2p_api \<Rightarrow> ('pk list \<Rightarrow> 'pk list) \<Rightarrow> ('sk \<Rightarrow> 'pk) \<Rightarrow> ('pk \<Rightarrow> string)
    \<Rightarrow> (bytes \<Rightarrow> 'pk list \<Rightarrow> 'sk \<Rightarrow> 's option) \<Rightarrow> 'w finalized_callback \<Rightarrow> receive_event list
    \<Rightarrow> ('sk, 'pk, 'addr) simplex_config \<Rightarrow> ('w, unit) act" where
  "run_simplex N dedup pub show_key signer callback events c =
     bind_act (unwrap (run_simplex_setup N dedup pub show_key signer c)) (\<lambda>setup.
     bind_act (run_finalization_loop pub c callback (st_participants setup) events) (\<lambda>_. ret ()))"

section \<open>The block relay\<close>

record bincode =
  bc_serialize :: "proposed_block \<Rightarrow> string + bytes"
  bc_deserialize :: "bytes \<Rightarrow> string + proposed_block"

text \<open>A rate-limited sender: the check for the recipients, then sending; each may fail.\<close>

record ('pk, 'w) p2p_sender =
  ps_check :: "'pk list \<Rightarrow> ('w, bool) io"
  ps_send :: "'pk list \<Rightarrow> bytes \<Rightarrow> bool \<Rightarrow> ('w, bool) io"

definition serialize_proposed_block :: "bincode \<Rightarrow> proposed_block \<Rightarrow> bytes option" where
  "serialize_proposed_block B p =
     (case bc_serialize B p of Inr bs \<Rightarrow> Some bs | Inl e \<Rightarrow> None)"

definition deserialize_proposed_block :: "bincode \<Rightarrow> bytes \<Rightarrow> proposed_block option" where
  "deserialize_proposed_block B message =
     (case bc_deserialize B message of Inr p \<Rightarrow> Some p | Inl e \<Rightarrow> None)"

definition send_to_recipients ::
  "('pk, 'w) p2p_sender \<Rightarrow> 'pk list \<Rightarrow> bytes \<Rightarrow> ('w, unit) io" where
  "send_to_recipients S recipients encoded w =
     (let (checked, w1) = ps_check S recipients w in
      if \<not> checked then ((), w1)
      else (let (sent, w2) = ps_send S recipients encoded True w1 in ((), w2)))"

definition broadcast_proposed_block ::
  "bincode \<Rightarrow> ('pk, 'w) p2p_sender \<Rightarrow> 'pk list \<Rightarrow> proposed_block \<Rightarrow> ('w, unit) io" where
  "broadcast_proposed_block B S participants p w =
     (case serialize_proposed_block B p of
        None \<Rightarrow> ((), w)
      | Some encoded \<Rightarrow> send_to_recipients S participants encoded w)"

definition handle_local_block ::
  "bincode \<Rightarrow> ('pk, 'w) p2p_sender \<Rightarrow> 'pk list \<Rightarrow> recv_error + proposed_block \<Rightarrow> ('w, bool) io" where
  "handle_local_block B S participants r w =
     (case r of
        Inr proposed \<Rightarrow> (True, snd (broadcast_proposed_block B S participants proposed w))
      | Inl (Lagged n) \<Rightarrow> (True, w)
      | Inl Closed \<Rightarrow> (False, w))"

definition handle_p2p_block ::
  "bincode \<Rightarrow> 'w mailbox \<Rightarrow> string + 'pk \<times> bytes \<Rightarrow> ('w, bool) io" where
  "handle_p2p_block B mb r w =
     (case r of
        Inr (sender_pk, message) \<Rightarrow>
          (case deserialize_proposed_block B message of
             Some proposed \<Rightarrow>
               (True, snd (mailbox_receive_block mb (pb_digest proposed) (pb_block proposed)
                             (pb_payload proposed) w))
           | None \<Rightarrow> (True, w))
      | Inl e \<Rightarrow> (False, w))"

datatype 'pk relay_event =
    RE_Local "recv_error + proposed_block"
  | RE_P2P "string + 'pk \<times> bytes"

text \<open>The result is whether the task is still running after the events.\<close>

fun run_block_relay ::
  "bincode \<Rightarrow> ('pk, 'w) p2p_sender \<Rightarrow> 'w mailbox \<Rightarrow> 'pk list \<Rightarrow> 'pk relay_event list \<Rightarrow> ('w, bool) io" where
  "run_block_relay B S mb participants [] w = (True, w)"
| "run_block_relay B S mb participants (e # es) w =
     (let (continue, w1) =
            (case e of
               RE_Local r \<Rightarrow> handle_local_block B S participants r w
             | RE_P2P r \<Rightarrow> handle_p2p_block B mb r w)
      in if continue then run_block_relay B S mb participants es w1 else (False, w1))"

end
