(* ===== verification/Startup.thy ===== *)
theory Startup
  imports Sync Consensus_Runtime
begin

text \<open>
  Starting the sequencer (crates/sequencer, \<open>src/simplex_sequencer.rs\<close>): the helpers that turn the
  consensus configuration into the runtime's, the clients, and the sequence of \<open>run\<close> up to the point
  where the concurrent tasks take over. ed25519 keys, keccak256, hex decoding, the parsing of socket
  addresses and name resolution are arguments. A report is the text of its contexts and cause.
\<close>

section \<open>Keys and addresses\<close>

record ('sk, 'pk) key_api =
  ka_from_seed :: "u64 \<Rightarrow> 'sk"
  ka_public :: "'sk \<Rightarrow> 'pk"
  ka_bytes :: "'pk \<Rightarrow> bytes"
  ka_keccak256 :: "bytes \<Rightarrow> b256"
  ka_hex_decode :: "string \<Rightarrow> string + bytes"

record ('w, 'addr) addr_api =
  aa_parse :: "string \<Rightarrow> string + 'addr"
  aa_lookup :: "string \<Rightarrow> ('w, string + 'addr list) io"

definition context_err :: "string \<Rightarrow> string + 'a \<Rightarrow> string + 'a" where
  "context_err ctx = map_err (\<lambda>e. ctx @ '': '' @ e)"

text \<open>\<open>u64::from_le_bytes\<close>.\<close>

definition u64_from_le_bytes :: "bytes \<Rightarrow> u64" where
  "u64_from_le_bytes bs = of_nat (foldr (\<lambda>b acc. unat b + 256 * acc) bs 0)"

definition load_private_key ::
  "('sk, 'pk) key_api \<Rightarrow> 'w host \<Rightarrow> string \<Rightarrow> ('w, string + 'sk) io" where
  "load_private_key K H path w =
     (let (contents, w1) = read_file H path w in
      (case context_err (''failed to read private key from '' @ path) contents of
         Inl e \<Rightarrow> Inl e
       | Inr text \<Rightarrow>
           (case context_err ''private key must be hex-encoded'' (ka_hex_decode K (trim text)) of
              Inl e \<Rightarrow> Inl e
            | Inr seed_bytes \<Rightarrow>
                if length seed_bytes \<noteq> 32
                then Inl (''private key must be exactly 32 bytes (got '' @
                       show_nat (length seed_bytes) @ '')'')
                else Inr (ka_from_seed K (u64_from_le_bytes (take 8 seed_bytes)))), w1))"

definition derive_our_address :: "('sk, 'pk) key_api \<Rightarrow> 'pk \<Rightarrow> address" where
  "derive_our_address K pubkey = derive_address (ka_keccak256 K) (ka_bytes K pubkey)"

definition build_validator_set ::
  "('sk, 'pk) key_api \<Rightarrow> consensus_config \<Rightarrow> 'pk \<Rightarrow> string + 'pk list \<times> address" where
  "build_validator_set K cs our_pubkey =
     (let validators = map (\<lambda>seed. ka_public K (ka_from_seed K seed)) (cs_validator_seeds cs) in
      if our_pubkey \<notin> set validators
      then Inl ''our public key is not in the validator set''
      else Inr (validators, derive_our_address K our_pubkey))"

definition resolve_address :: "('w, 'addr) addr_api \<Rightarrow> string \<Rightarrow> ('w, string + 'addr) io" where
  "resolve_address A addr w =
     (case aa_parse A addr of
        Inr socket_addr \<Rightarrow> (Inr socket_addr, w)
      | Inl _ \<Rightarrow>
          (let (found, w1) = aa_lookup A addr w in
           (case context_err (''failed to resolve address '' @ addr) found of
              Inl e \<Rightarrow> Inl e
            | Inr [] \<Rightarrow> Inl (''no addresses found for '' @ addr)
            | Inr (a # _) \<Rightarrow> Inr a, w1)))"

definition resolve_network_addrs ::
  "('w, 'addr) addr_api \<Rightarrow> consensus_config \<Rightarrow> ('w, string + 'addr \<times> 'addr) io" where
  "resolve_network_addrs A cs w =
     (case context_err ''invalid listen_addr'' (aa_parse A (cs_listen_addr cs)) of
        Inl e \<Rightarrow> (Inl e, w)
      | Inr listen_addr \<Rightarrow>
          (let (dialable, w1) =
                 (case cs_dialable_addr cs of
                    None \<Rightarrow> (Inr listen_addr, w)
                  | Some s \<Rightarrow> resolve_address A s w)
           in (map_err (\<lambda>e. ''invalid dialable_addr: '' @ e) (map_sum id (Pair listen_addr) dialable), w1)))"

text \<open>A peer is \<open>seed@host:port\<close>; the first peer that cannot be read is the error.\<close>

definition parse_peer ::
  "('sk, 'pk) key_api \<Rightarrow> ('w, 'addr) addr_api \<Rightarrow> string \<Rightarrow> ('w, string + 'pk \<times> 'addr) io" where
  "parse_peer K A peer w =
     (case split_once CHR ''@'' peer of
        None \<Rightarrow> (Inl (''invalid peer format '' @ peer @ '', expected seed@host:port''), w)
      | Some (seed_str, addr_str) \<Rightarrow>
          (case parse_u64 10 seed_str of
             None \<Rightarrow> (Inl (''invalid seed in peer '' @ peer), w)
           | Some seed \<Rightarrow>
               (let (addr, w1) = resolve_address A addr_str w in
                (map_sum id (Pair (ka_public K (ka_from_seed K seed)))
                   (context_err (''invalid address in peer '' @ peer) addr), w1))))"

fun parse_bootstrappers ::
  "('sk, 'pk) key_api \<Rightarrow> ('w, 'addr) addr_api \<Rightarrow> string list \<Rightarrow> ('w, string + ('pk \<times> 'addr) list) io" where
  "parse_bootstrappers K A [] w = (Inr [], w)"
| "parse_bootstrappers K A (peer # peers) w =
     (case parse_peer K A peer w of
        (Inl e, w1) \<Rightarrow> (Inl e, w1)
      | (Inr p, w1) \<Rightarrow>
          (let (ps, w2) = parse_bootstrappers K A peers w1 in (map_sum id ((#) p) ps, w2)))"

definition build_runtime_config ::
  "('sk, 'pk) key_api \<Rightarrow> ('w, 'addr) addr_api \<Rightarrow> 'w host \<Rightarrow> consensus_config \<Rightarrow> b256
    \<Rightarrow> ('w, string + ('sk, 'pk, 'addr) simplex_config) io" where
  "build_runtime_config K A H cs initial_hash w =
     (let (key, w1) = load_private_key K H (cs_private_key_path cs) w in
      case key of Inl e \<Rightarrow> (Inl e, w1) | Inr private_key \<Rightarrow>
     (case build_validator_set K cs (ka_public K private_key) of
        Inl e \<Rightarrow> (Inl e, w1)
      | Inr (validators, our_address) \<Rightarrow>
     (let (addrs, w2) = resolve_network_addrs A cs w1 in
      case addrs of Inl e \<Rightarrow> (Inl e, w2) | Inr (listen_addr, dialable_addr) \<Rightarrow>
     (let (peers, w3) = parse_bootstrappers K A (cs_peers cs) w2 in
      case peers of Inl e \<Rightarrow> (Inl e, w3) | Inr bootstrappers \<Rightarrow>
        (Inr \<lparr>sc_private_key = private_key, sc_validators = validators,
           sc_our_address = our_address, sc_namespace = string_bytes (cs_namespace cs),
           sc_epoch = 1, sc_listen_addr = listen_addr, sc_dialable_addr = dialable_addr,
           sc_bootstrappers = bootstrappers, sc_storage_dir = cs_storage_dir cs,
           sc_leader_timeout_ms = cs_leader_timeout_ms cs,
           sc_notarization_timeout_ms = cs_notarization_timeout_ms cs,
           sc_nullify_retry_ms = cs_nullify_retry_ms cs,
           sc_activity_timeout = 100, sc_skip_timeout = 50, sc_fetch_timeout_ms = 5 * 1000,
           sc_mailbox_size = 1024, sc_allow_private_ips = cs_allow_private_ips cs,
           sc_max_message_size = 1024 * 1024, sc_initial_hash = initial_hash,
           sc_block_timing = cs_block_timing cs\<rparr>, w3)))))"

section \<open>Components\<close>

definition da_initial :: da_state where
  "da_initial = \<lparr>ds_tracker = tracker_new, ds_finality_tx = [], ds_broadcast = [],
     ds_receiver_dropped = False\<rparr>"

definition init_celestia ::
  "'w celestia_libs \<Rightarrow> 'w host \<Rightarrow> celestia_config \<Rightarrow> ('w, report + bytes \<times> da_state) io" where
  "init_celestia CL H c w =
     (let (client, w1) = celestia_new CL H c w in
      (map_sum (RP_Celestia ''failed to create Celestia client'') (\<lambda>ns. (ns, da_initial)) client, w1))"

text \<open>
  The tracker task, which \<open>init_celestia\<close> spawns, runs beside the rest of the start. These are the
  turns it takes during one part of the start: the headers that its subscriptions deliver there, of
  any number and height, each handled as \<open>process_header\<close> does; a header on which it panics ends it.
\<close>

fun tracker_turns :: "('w, 'b, 'h) da_env \<Rightarrow> 'h list \<Rightarrow> da_state \<times> 'w \<Rightarrow> da_state \<times> 'w" where
  "tracker_turns D [] sw = sw"
| "tracker_turns D (header # headers) sw =
     (case process_header D header sw of
        None \<Rightarrow> sw
      | Some (_, sw1) \<Rightarrow> tracker_turns D headers sw1)"

definition tracker_beside :: "('w, 'b, 'h) da_env \<Rightarrow> 'h list \<Rightarrow> ('x, 'w) node \<Rightarrow> ('x, 'w) node" where
  "tracker_beside D headers n =
     (let (da, w) = tracker_turns D headers (nd_da n, nd_world n) in n\<lparr>nd_da := da, nd_world := w\<rparr>)"

definition init_execution ::
  "'x exec_env \<Rightarrow> execution_config \<Rightarrow> ('x, report + exec_client) act" where
  "init_execution E c x =
     bind_act (exec_client_new (ee_libs E) (ee_host E) (xc_reth_url c) (xc_jwt_secret_path c)) (\<lambda>client.
     ret (map_err (RP_Execution ''failed to create execution client'') client)) x"

text \<open>
  The clients and the shared state. A start that fails ends the program, so only its report is kept;
  \<open>E\<close> and \<open>D\<close> are the environments up to what the new clients determine. The index is a placeholder
  until the sync opens it. \<open>headers\<close> are what the tracker handles from its spawning to the end of this
  step, in which reth may be asked for up to thirty seconds; the two do not touch each other's state.
\<close>

definition init_components ::
  "'w celestia_libs \<Rightarrow> 'x exec_env \<Rightarrow> ('w, 'b, 'h) da_env \<Rightarrow> 'h list \<Rightarrow> chain_config \<Rightarrow> 'x \<Rightarrow> 'w
    \<Rightarrow> (report + 'x exec_env \<times> ('w, 'b, 'h) da_env \<times> ('x exec_world, 'w) node) option" where
  "init_components CL E D headers c x w =
     (case init_celestia CL (da_host D) (cg_celestia c) w of
        (Inl e, _) \<Rightarrow> Some (Inl e)
      | (Inr (ns, da), w1) \<Rightarrow>
     (case init_execution E (cg_execution c) x of
        None \<Rightarrow> None
      | Some (Inl e, _) \<Rightarrow> Some (Inl e)
      | Some (Inr client, x1) \<Rightarrow>
     (let E1 = E\<lparr>ee_client := client\<rparr>;
          D1 = D\<lparr>da_config := cg_celestia c, da_namespace := ns\<rparr>
      in case get_genesis_hash E1 \<lparr>ew_forkchoice = fc_default, ew_outside = x1\<rparr> of
        None \<Rightarrow> None
      | Some (Inl e, _) \<Rightarrow> Some (Inl (RP_Execution ''failed to get genesis hash from reth'' e))
      | Some (Inr genesis_hash, x2) \<Rightarrow>
     (case init_forkchoice E1 genesis_hash x2 of
        None \<Rightarrow> None
      | Some (Inl e, _) \<Rightarrow> Some (Inl (RP_Execution ''failed to initialize forkchoice on reth'' e))
      | Some (Inr _, x3) \<Rightarrow>
          Some (Inr (E1, D1, tracker_beside D1 headers
            \<lparr>nd_forkchoice = \<lparr>fc_head = genesis_hash, fc_safe = genesis_hash,
               fc_finalized = genesis_hash\<rparr>,
             nd_executed_blocks = {}, nd_da = da, nd_batch_queue = [], nd_batch_open = True,
             nd_index = \<lparr>bx_path = ce_index_path (cg_celestia c), bx_by_height = [],
               bx_by_hash = Map.empty, bx_file = False\<rparr>,
             nd_exec = x3, nd_world = w1\<rparr>))))))"

text \<open>
  \<open>run\<close> until the runtime and the event loop start: the runtime is configured with the head at that
  moment, which is genesis, and the sync from Celestia comes after. \<open>headers\<close> are what the tracker
  handles while the components are built, then until the sync reads the finalized height, which it does
  once, and then until the loops start; the headers of the last part only move the tracker's height.
\<close>

definition start_sequencer ::
  "'w celestia_libs \<Rightarrow> ('sk, 'pk) key_api \<Rightarrow> ('w, 'addr) addr_api \<Rightarrow> 'w file_ops \<Rightarrow> json_codec
    \<Rightarrow> 'x exec_env \<Rightarrow> ('w, 'b, 'h) da_env \<Rightarrow> 'h list \<times> 'h list \<times> 'h list \<Rightarrow> chain_config \<Rightarrow> 'x \<Rightarrow> 'w
    \<Rightarrow> (report + 'x exec_env \<times> ('w, 'b, 'h) da_env \<times> ('sk, 'pk, 'addr) simplex_config
         \<times> ('x exec_world, 'w) node) option" where
  "start_sequencer CL K A F J E D headers c x w =
     (let (building, before_sync, after_reading) = headers in
      case init_components CL E D building c x w of
        None \<Rightarrow> None
      | Some (Inl e) \<Rightarrow> Some (Inl e)
      | Some (Inr (E1, D1, n)) \<Rightarrow>
     (let genesis_hash = fc_head (nd_forkchoice n);
          (runtime, w1) = build_runtime_config K A (da_host D1) (cg_consensus c) genesis_hash (nd_world n)
      in case runtime of
        Inl e \<Rightarrow> Some (Inl (RP_Message e))
      | Inr runtime_config \<Rightarrow>
     (case init_from_celestia (execution_client E1) D1 F J (tracker_beside D1 before_sync (n\<lparr>nd_world := w1\<rparr>)) of
        None \<Rightarrow> None
      | Some (Inl e, _) \<Rightarrow> Some (Inl e)
      | Some (Inr _, n1) \<Rightarrow>
          Some (Inr (E1, D1, runtime_config, tracker_beside D1 after_reading n1)))))"

text \<open>The callback that the runtime calls for finalized blocks: its own failures are only logged.\<close>

definition create_finalization_callback ::
  "'x execution \<Rightarrow> ('w, 'b, 'h) da_env \<Rightarrow> (('x, 'w) node) finalized_callback" where
  "create_finalization_callback X D =
     on_finalized (\<lambda>b leader. bind_act (process_finalized_block X D b leader) (\<lambda>_. ret (Inr ())))"

text \<open>The event loop: confirmations are handled until the shutdown signal.\<close>

datatype loop_event = LE_Confirmation finality_confirmation | LE_CtrlC

fun run_event_loop :: "'x execution \<Rightarrow> loop_event list \<Rightarrow> (('x, 'w) node, bool) act" where
  "run_event_loop X [] = ret True"
| "run_event_loop X (LE_Confirmation c # es) =
     bind_act (handle_finality_confirmation X c) (\<lambda>_. run_event_loop X es)"
| "run_event_loop X (LE_CtrlC # es) = ret False"

end
