(* ===== verification/Cli.thy ===== *)
theory Cli
  imports Startup
begin

text \<open>
  The command line (crates/sequencer, \<open>src/cli.rs\<close>): running the sequencer, writing a default
  configuration, generating a validator key, and printing the Celestia address of a key. Files, the
  random generator, TOML, hex, the curve, the hash functions and bech32 are arguments.
\<close>

datatype command =
    C_Run string string
  | C_Init string
  | C_Keygen string
  | C_CelestiaAddress string

record cli =
  cl_command :: "command option"

record ('w, 'key, 'hrp) cli_api =
  ca_write :: "string \<Rightarrow> string \<Rightarrow> ('w, string + unit) io"
  ca_println :: "string \<Rightarrow> 'w \<Rightarrow> 'w"
  ca_random :: "nat \<Rightarrow> ('w, bytes) io"
  ca_toml_to_string :: "chain_config \<Rightarrow> string + string"
  ca_hex_encode :: "bytes \<Rightarrow> string"
  ca_hex_decode :: "string \<Rightarrow> string + bytes"
  ca_signing_key :: "bytes \<Rightarrow> string + 'key"
  ca_sec1_bytes :: "'key \<Rightarrow> bytes"
  ca_sha256 :: "bytes \<Rightarrow> bytes"
  ca_ripemd160 :: "bytes \<Rightarrow> bytes"
  ca_hrp_parse :: "string \<Rightarrow> 'hrp option"
  ca_bech32 :: "'hrp \<Rightarrow> bytes \<Rightarrow> string + string"

definition init_config ::
  "('w, 'key, 'hrp) cli_api \<Rightarrow> ('sk, 'pk) key_api \<Rightarrow> string \<Rightarrow> ('w, string + unit) io" where
  "init_config C K output w =
     (let cfg = default_config (ka_keccak256 K) (\<lambda>seed. ka_bytes K (ka_public K (ka_from_seed K seed)))
      in case ca_toml_to_string C cfg of
        Inl e \<Rightarrow> (Inl e, w)
      | Inr toml_str \<Rightarrow> ca_write C output toml_str w)"

definition generate_key :: "('w, 'key, 'hrp) cli_api \<Rightarrow> string \<Rightarrow> ('w, string + unit) io" where
  "generate_key C output w =
     (let (seed, w1) = ca_random C 32 w in ca_write C output (ca_hex_encode C seed) w1)"

definition celestia_address ::
  "('w, 'key, 'hrp) cli_api \<Rightarrow> 'w host \<Rightarrow> string \<Rightarrow> ('w, string + unit) act" where
  "celestia_address C H key_path w =
     (let (contents, w1) = read_file H key_path w in
      case context_err ''failed to read key file'' contents of
        Inl e \<Rightarrow> Some (Inl e, w1)
      | Inr key_hex \<Rightarrow>
     (case context_err ''invalid hex in key file'' (ca_hex_decode C (trim key_hex)) of
        Inl e \<Rightarrow> Some (Inl e, w1)
      | Inr key_bytes \<Rightarrow>
     (case context_err ''invalid secp256k1 key'' (ca_signing_key C key_bytes) of
        Inl e \<Rightarrow> Some (Inl e, w1)
      | Inr signing_key \<Rightarrow>
     (let pubkey_bytes = ca_sec1_bytes C signing_key;
          ripemd_hash = ca_ripemd160 C (ca_sha256 C pubkey_bytes)
      in case ca_hrp_parse C ''celestia'' of
        None \<Rightarrow> None
      | Some hrp \<Rightarrow>
     (case context_err ''bech32 encoding failed'' (ca_bech32 C hrp ripemd_hash) of
        Inl e \<Rightarrow> Some (Inl e, w1)
      | Inr address \<Rightarrow> Some (Inr (), ca_println C address w1))))))"

text \<open>\<open>run\<close> is \<open>SimplexSequencer::new(cfg).run()\<close>; \<open>load\<close> is the loading of a configuration.\<close>

definition run_sequencer ::
  "(string \<Rightarrow> ('w, string + chain_config) io) \<Rightarrow> (chain_config \<Rightarrow> ('w, string + unit) act) \<Rightarrow> string
    \<Rightarrow> ('w, string + unit) act" where
  "run_sequencer load run config w =
     (case load config w of
        (Inl e, w1) \<Rightarrow> Some (Inl e, w1)
      | (Inr cfg, w1) \<Rightarrow> run cfg w1)"

definition run_cli ::
  "('w, 'key, 'hrp) cli_api \<Rightarrow> ('sk, 'pk) key_api \<Rightarrow> 'w host \<Rightarrow> (string \<Rightarrow> string + chain_config)
    \<Rightarrow> (chain_config \<Rightarrow> ('w, string + unit) act) \<Rightarrow> cli \<Rightarrow> ('w, string + unit) act" where
  "run_cli C K H toml run args =
     (let load = config_load H toml (ka_keccak256 K) (\<lambda>seed. ka_bytes K (ka_public K (ka_from_seed K seed)))
      in case cl_command args of
        Some (C_Run config log_level) \<Rightarrow> run_sequencer load run config
      | Some (C_Init output) \<Rightarrow> lift_io (init_config C K output)
      | Some (C_Keygen output) \<Rightarrow> lift_io (generate_key C output)
      | Some (C_CelestiaAddress key) \<Rightarrow> celestia_address C H key
      | None \<Rightarrow> run_sequencer load run ''config.toml'')"

text \<open>
  The entry point: clap parses the arguments, or ends the program with a usage message or its
  help text (\<open>Inl\<close>); the result of the command is the result of the program.
\<close>

definition sequencer_main ::
  "(string list \<Rightarrow> 'e + cli) \<Rightarrow> (cli \<Rightarrow> ('w, string + unit) act) \<Rightarrow> string list
    \<Rightarrow> ('w, 'e + (string + unit)) act" where
  "sequencer_main parse run args =
     (case parse args of
        Inl usage \<Rightarrow> ret (Inl usage)
      | Inr cli \<Rightarrow> bind_act (run cli) (\<lambda>r. ret (Inr r)))"

section \<open>What the generating commands write, the others read\<close>

text \<open>A file system: what was written last to a path is what is read from it.\<close>

definition stores_files :: "('w, 'key, 'hrp) cli_api \<Rightarrow> 'w host \<Rightarrow> bool" where
  "stores_files C H \<longleftrightarrow>
     (\<forall>p s w w1. ca_write C p s w = (Inr (), w1) \<longrightarrow> fst (read_file H p w1) = Inr s)"

lemma length_take_le_bytes: "length bs = 32 \<Longrightarrow> length (take 8 bs) = 8" for bs :: bytes
  by simp

lemma load_generated_key:
  assumes "stores_files C H" "generate_key C path w = (Inr (), w1)"
    and "trim (ca_hex_encode C (fst (ca_random C 32 w))) = ca_hex_encode C (fst (ca_random C 32 w))"
    and "ka_hex_decode K (ca_hex_encode C (fst (ca_random C 32 w))) = Inr (fst (ca_random C 32 w))"
    and "length (fst (ca_random C 32 w)) = 32"
  shows "fst (load_private_key K H path w1) =
    Inr (ka_from_seed K (u64_from_le_bytes (take 8 (fst (ca_random C 32 w)))))"
proof -
  have "fst (read_file H path w1) = Inr (ca_hex_encode C (fst (ca_random C 32 w)))"
    using assms(1,2) by (auto simp: stores_files_def generate_key_def split: prod.splits)
  with assms(3-5) show ?thesis
    by (auto simp: load_private_key_def context_err_def Let_def split: prod.split)
qed

end
