(* ===== verification/Application_Steps.thy ===== *)
theory Application_Steps
  imports Application
begin

text \<open>
  What each handler of the application actor does to the actor's state: one equation per branch,
  and the locale \<open>app_invariant\<close>, the contract that lifts a predicate on the state from these
  branches to every run of the actor.
\<close>

section \<open>Access to the client and to the state\<close>

lemma get_app_apply [simp]: "get_app k w = k (aw_app w) w"
  by (simp add: get_app_def)

lemma modify_app_apply [simp]: "modify_app f w = Some ((), w\<lparr>aw_app := f (aw_app w)\<rparr>)"
  by (simp add: modify_app_def)

lemma in_client_Some:
  "in_client m w = Some (a, w') \<longleftrightarrow>
     m (aw_world w) = Some (a, aw_world w') \<and> aw_app w' = aw_app w"
  by (cases w; cases w') (auto simp: in_client_def)

lemma no_panic_in_client [simp]: "no_panic (in_client m) w \<longleftrightarrow> no_panic m (aw_world w)"
  by (simp add: no_panic_def in_client_def)

lemma sync_sleep_app: "sync_sleep E w = Some (r, w') \<Longrightarrow> aw_app w' = aw_app w"
  by (simp add: sync_sleep_def in_client_Some)

lemma query_reth_head_app: "query_reth_head E w = Some (r, w') \<Longrightarrow> aw_app w' = aw_app w"
  unfolding query_reth_head_def
  by (auto simp: in_client_Some elim!: act_elims split: sum.splits)

lemma sync_loop_app: "sync_loop E n i w = Some (r, w') \<Longrightarrow> aw_app w' = aw_app w"
proof (induction n arbitrary: i w)
  case 0
  then show ?case by simp
next
  case (Suc n)
  from Suc.prems show ?case
    by (auto elim!: act_elims dest!: query_reth_head_app sync_sleep_app Suc.IH
        split: option.splits sync_check.splits)
qed

lemma wait_for_reth_sync_app: "wait_for_reth_sync E w = Some (r, w') \<Longrightarrow> aw_app w' = aw_app w"
  unfolding wait_for_reth_sync_def by (rule sync_loop_app)

lemma can_build_block_app: "can_build_block E t p w = Some (r, w') \<Longrightarrow> aw_app w' = aw_app w"
  unfolding can_build_block_def wall_clock_def
  by (auto simp: in_client_Some elim!: act_elims)

lemma wall_clock_app: "wall_clock E w = Some (r, w') \<Longrightarrow> aw_app w' = aw_app w"
  by (simp add: wall_clock_def in_client_Some)

lemma build_via_reth_app: "build_via_reth E t w = Some (r, w') \<Longrightarrow> aw_app w' = aw_app w"
  unfolding build_via_reth_def
  by (auto simp: in_client_Some elim!: act_elims split: sum.splits)

lemma apply_to_reth_app: "apply_to_reth E p w = Some (r, w') \<Longrightarrow> aw_app w' = aw_app w"
  unfolding apply_to_reth_def
  by (auto simp: in_client_Some elim!: act_elims split: option.splits sum.splits)

lemmas client_app = wait_for_reth_sync_app can_build_block_app wall_clock_app build_via_reth_app
  apply_to_reth_app

section \<open>Waiting for reth\<close>

text \<open>One round of the waiting loop.\<close>

definition sync_attempt :: "'w app_env \<Rightarrow> nat \<Rightarrow> ('w app_world, sync_result option) act" where
  "sync_attempt E i =
     bind_act (query_reth_head E) (\<lambda>h.
     case h of
       None \<Rightarrow> bind_act (sync_sleep E) (\<lambda>_. ret None)
     | Some head \<Rightarrow> get_app (\<lambda>a.
         case check_sync_state a head of
           SC_Synced \<Rightarrow> ret (Some (SR_Synced (rh_timestamp head)))
         | SC_Behind \<Rightarrow> bind_act (sync_sleep E) (\<lambda>_. ret None)
         | SC_Diverged \<Rightarrow> ret (Some SR_Failed)))"

interpretation sl: bounded_retry "sync_attempt E" "ret SR_Failed" "sync_loop E" for E :: "'w app_env"
proof unfold_locales
  fix n i and w :: "'w app_world"
  show "sync_loop E (Suc n) i w =
      (case sync_attempt E i w of None \<Rightarrow> None
       | Some (Some r, w') \<Rightarrow> Some (r, w')
       | Some (None, w') \<Rightarrow> sync_loop E n (Suc i) w')"
    by (auto simp: sync_attempt_def act_splits split: option.splits sync_check.splits)
qed simp

lemma sync_attempt_synced:
  assumes "sync_attempt E i w = Some (Some (SR_Synced t), w')"
  shows "\<exists>number. bb_get_head (ae_builder E) (aw_world w) =
    Some (Inr (app_last_hash (aw_app w), number, t), aw_world w')"
  using assms unfolding sync_attempt_def
  by (auto simp: query_reth_head_def check_sync_state_def in_client_Some Let_def elim!: act_elims
      split: option.splits sum.splits sync_check.splits if_splits)

lemma after_sync_attempts_app:
  "after_attempts (sync_attempt E) k i w = Some w' \<Longrightarrow> aw_app w' = aw_app w"
proof (induction k arbitrary: i w)
  case 0
  then show ?case by simp
next
  case (Suc k)
  from Suc.prems obtain w1 where "sync_attempt E i w = Some (None, w1)"
    "after_attempts (sync_attempt E) k (Suc i) w1 = Some w'"
    by (auto split: option.splits)
  moreover from this(1) have "aw_app w1 = aw_app w"
    by (auto simp: sync_attempt_def elim!: act_elims dest!: query_reth_head_app sync_sleep_app
        split: option.splits sync_check.splits)
  ultimately show ?case using Suc.IH by simp
qed

lemma wait_for_reth_sync_head:
  assumes "wait_for_reth_sync E w = Some (SR_Synced t, w')"
  shows "\<exists>x number x'. bb_get_head (ae_builder E) x = Some (Inr (app_last_hash (aw_app w), number, t), x')"
proof -
  from assms obtain k w1 where "after_attempts (sync_attempt E) k 1 w = Some w1"
    "sync_attempt E (1 + k) w1 = Some (Some (SR_Synced t), w')"
    unfolding wait_for_reth_sync_def max_sync_attempts_def sl.loop_result by auto
  then show ?thesis
    using sync_attempt_synced [of E "1 + k" w1 t w'] after_sync_attempts_app [of E k 1 w w1] by auto
qed

section \<open>The state after each handler\<close>

text \<open>The state after a proposal, after a finalization and after a relayed block.\<close>

definition after_proposal :: "digest \<Rightarrow> built_payload \<Rightarrow> app \<Rightarrow> app" where
  "after_proposal d p a = (broadcast_to_relay d (build_block_from_payload p) p a)
     \<lparr>app_pending_blocks := (app_pending_blocks a)(d \<mapsto> build_block_from_payload p),
      app_pending_payloads := (app_pending_payloads a)(d \<mapsto> p),
      app_verified := insert d (app_verified a),
      app_last_proposed_height := Some (app_height a)\<rparr>"

definition after_finalize :: "digest \<Rightarrow> block \<Rightarrow> app \<Rightarrow> app" where
  "after_finalize d b a =
     broadcast_finalized b (cleanup_stale_blocks
       ((remove_payload d (remove_block d a))
         \<lparr>app_height := block_height b + 1, app_last_hash := blk_block_hash b\<rparr>))"

definition after_receive :: "digest \<Rightarrow> block \<Rightarrow> built_payload \<Rightarrow> app \<Rightarrow> app" where
  "after_receive d b p a = a
     \<lparr>app_pending_blocks := (app_pending_blocks a)(d \<mapsto> b),
      app_pending_payloads := (app_pending_payloads a)(d \<mapsto> p)\<rparr>"

lemma complete_proposal_app:
  "complete_proposal E p w = Some (d, w') \<longleftrightarrow>
     d = compute_digest E (pl_block_hash p) \<and>
     w' = w\<lparr>aw_app := after_proposal d p (aw_app w)\<rparr>"
  by (auto simp: complete_proposal_def bind_act_def Let_def broadcast_to_relay_def after_proposal_def)

lemma propose_outcome:
  assumes "propose E w = Some (d, w')"
  obtains "d = null_proposal" "aw_app w' = aw_app w"
  | p where "\<not> already_proposed_at_height (aw_app w)"
      "d = compute_digest E (pl_block_hash p)" "aw_app w' = after_proposal d p (aw_app w)"
  using assms unfolding propose_def
  by (auto simp: complete_proposal_app elim!: act_elims dest!: client_app
      split: if_splits sync_result.splits option.splits)

text \<open>A proposal was only built when reth answered that its head is the last hash.\<close>

lemma propose_cases:
  assumes "propose E w = Some (d, w')"
  obtains (null) "d = null_proposal" "aw_app w' = aw_app w"
  | (built) p x number t x' where "\<not> already_proposed_at_height (aw_app w)"
      "bb_get_head (ae_builder E) x = Some (Inr (app_last_hash (aw_app w), number, t), x')"
      "d = compute_digest E (pl_block_hash p)" "aw_app w' = after_proposal d p (aw_app w)"
proof (cases "\<exists>x number t x'. bb_get_head (ae_builder E) x = Some (Inr (app_last_hash (aw_app w), number, t), x')")
  case True
  with assms show ?thesis by (elim propose_outcome) (use null built in blast)+
next
  case False
  then have "\<forall>t w1. wait_for_reth_sync E w \<noteq> Some (SR_Synced t, w1)"
    using wait_for_reth_sync_head by blast
  then have "d = null_proposal \<and> aw_app w' = aw_app w"
    using assms unfolding propose_def
    by (auto elim!: act_elims dest: wait_for_reth_sync_app split: if_splits sync_result.splits)
  then show ?thesis using null by blast
qed

lemma finalize_cases:
  assumes "finalize E d w = Some (r, w')"
  obtains (unknown) "app_pending_blocks (aw_app w) d = None" "r = None"
      "aw_app w' = remove_payload d (aw_app w)"
  | (stale) b where "app_pending_blocks (aw_app w) d = Some b"
      "block_height b \<noteq> app_height (aw_app w)" "r = None"
      "aw_app w' = remove_payload d (remove_block d (aw_app w))"
  | (finalized) b where "app_pending_blocks (aw_app w) d = Some b"
      "block_height b = app_height (aw_app w)" "r = Some b"
      "aw_app w' = after_finalize d b (aw_app w)"
  using assms unfolding finalize_def
  by (auto simp: is_valid_height_def Let_def after_finalize_def elim!: act_elims
      dest!: apply_to_reth_app split: option.splits if_splits)

lemma handle_receive_block_apply:
  "handle_receive_block E d b p w =
     (if app_pending_blocks (aw_app w) d \<noteq> None then Some ((), w)
      else case bb_import_payload (ae_builder E) p (aw_world w) of
        None \<Rightarrow> None
      | Some (r, x) \<Rightarrow> Some ((), w\<lparr>aw_world := x, aw_app := (after_receive d b p (aw_app w))
          \<lparr>app_verified := (case r of Inr _ \<Rightarrow> insert d (app_verified (aw_app w))
            | Inl e \<Rightarrow> app_verified (aw_app w))\<rparr>\<rparr>))"
  by (auto simp: handle_receive_block_def in_client_def bind_act_def after_receive_def Let_def
      split: option.split sum.split)

lemma handle_receive_block_cases:
  assumes "handle_receive_block E d b p w = Some (r, w')"
  obtains (known) "app_pending_blocks (aw_app w) d \<noteq> None" "w' = w"
  | (received) v where "app_pending_blocks (aw_app w) d = None"
      "aw_app w' = (after_receive d b p (aw_app w))\<lparr>app_verified := v\<rparr>"
proof (cases "app_pending_blocks (aw_app w) d")
  case (Some x)
  with assms show ?thesis
    by (intro known) (auto simp: handle_receive_block_apply)
next
  case None
  show ?thesis
    by (rule received [OF None, where v = "app_verified (aw_app w')"]) (use assms None in
      \<open>auto simp: handle_receive_block_apply split: option.splits prod.splits\<close>)
qed

section \<open>Invariants of a run\<close>

text \<open>
  The contract: a predicate on the actor's state that holds after every branch of every handler
  holds after every run. \<open>ok\<close> restricts the messages of the run: the relayed blocks, whose content
  comes from another validator, and the finalizations.
\<close>

locale app_invariant =
  fixes I :: "app \<Rightarrow> bool"
    and ok :: "message \<Rightarrow> bool"
    and E :: "'w app_env"
  assumes keep_verified: "I a \<Longrightarrow> I (a\<lparr>app_verified := v\<rparr>)"
    and keep_proposal: "I a \<Longrightarrow> ok M_Propose \<Longrightarrow> \<not> already_proposed_at_height a \<Longrightarrow>
      bb_get_head (ae_builder E) x = Some (Inr (app_last_hash a, number, t), x') \<Longrightarrow>
      d = compute_digest E (pl_block_hash p) \<Longrightarrow> I (after_proposal d p a)"
    and keep_unknown: "I a \<Longrightarrow> app_pending_blocks a d = None \<Longrightarrow> I (remove_payload d a)"
    and keep_stale: "I a \<Longrightarrow> I (remove_payload d (remove_block d a))"
    and keep_finalize: "I a \<Longrightarrow> app_pending_blocks a d = Some b \<Longrightarrow>
      block_height b = app_height a \<Longrightarrow> ok (M_Finalize d) \<Longrightarrow> I (after_finalize d b a)"
    and keep_receive: "I a \<Longrightarrow> app_pending_blocks a d = None \<Longrightarrow>
      ok (M_ReceiveBlock d b p) \<Longrightarrow> I (after_receive d b p a)"
begin

lemma process_message_inv:
  assumes "I (aw_app w)" "ok m" "process_message E m w = Some (r, w')"
  shows "I (aw_app w')"
proof (cases m)
  case (M_Genesis e)
  then show ?thesis
    using assms keep_verified [OF assms(1)]
    by (auto simp: genesis_def Let_def elim!: act_elims)
next
  case M_Propose
  with assms obtain d where "propose E w = Some (d, w')"
    by (auto elim!: act_elims)
  then show ?thesis
  proof (cases rule: propose_cases)
    case (built p x number t x')
    with keep_proposal [OF assms(1) _ built(1,2,3)] assms(2) M_Propose show ?thesis by simp
  qed (use assms in simp)
next
  case (M_Verify p)
  then show ?thesis
    using assms keep_verified [OF assms(1)]
    by (auto simp: verify_def elim!: act_elims split: if_splits)
next
  case (M_Broadcast p)
  with assms show ?thesis
    by (auto simp: broadcast_def elim!: act_elims)
next
  case (M_Finalize d)
  with assms obtain x where "finalize E d w = Some (x, w')"
    by (auto elim!: act_elims)
  then show ?thesis
    by (cases rule: finalize_cases)
      (use assms M_Finalize in \<open>auto intro: keep_unknown keep_stale keep_finalize\<close>)
next
  case (M_ReceiveBlock d b p)
  with assms obtain x where "handle_receive_block E d b p w = Some (x, w')"
    by (auto elim!: act_elims)
  then show ?thesis
    by (cases rule: handle_receive_block_cases)
      (use assms M_ReceiveBlock in \<open>auto intro: keep_verified keep_receive\<close>)
qed

lemma run_app_inv:
  "I (aw_app w) \<Longrightarrow> list_all ok ms \<Longrightarrow> run_app E ms w = Some (rs, w') \<Longrightarrow> I (aw_app w')"
proof (induction ms arbitrary: w rs)
  case Nil
  then show ?case by simp
next
  case (Cons m ms)
  from Cons.prems(3) obtain r w1 rs' where
    "process_message E m w = Some (r, w1)" "run_app E ms w1 = Some (rs', w')"
    by (auto elim!: act_elims)
  moreover from Cons.prems have "ok m" "list_all ok ms" by simp_all
  ultimately show ?case
    using Cons.IH Cons.prems(1) process_message_inv by blast
qed

text \<open>What every message answers in a state of the invariant is answered throughout a run.\<close>

lemma run_app_responses:
  assumes answer: "\<And>w m r w'. I (aw_app w) \<Longrightarrow> ok m \<Longrightarrow> process_message E m w = Some (r, w') \<Longrightarrow> Q m r"
    and "I (aw_app w)" "list_all ok ms" "run_app E ms w = Some (rs, w')"
  shows "list_all2 Q ms rs"
  using assms(2-)
proof (induction ms arbitrary: w rs)
  case Nil
  then show ?case by simp
next
  case (Cons m ms)
  from Cons.prems(3) obtain r w1 rs' where
    step: "process_message E m w = Some (r, w1)" and "run_app E ms w1 = Some (rs', w')" "rs = r # rs'"
    by (auto elim!: act_elims)
  with Cons answer [OF _ _ step] process_message_inv [OF _ _ step] show ?case
    by simp
qed

end

end
