(* ===== verification/Model_Reth.thy ===== *)
theory Model_Reth
  imports Application_Steps
begin

text \<open>
  A small reth for the witnesses: its head, the payloads it has seen and a clock. It accepts every
  payload, makes the head of a forkchoice update its head when it knows the block, and builds an
  empty block on the head it is given. The witnesses of the application and of the node run the
  model of the client against it.
\<close>

record reth =
  reth_now :: u64
  reth_head :: b256
  reth_number :: u64
  reth_time :: u64
  reth_known :: "(b256 \<times> u64 \<times> u64) list"
  reth_job :: "payload_attributes option"

definition reth_new_payload :: "execution_payload \<Rightarrow> (reth, string + payload_status) io" where
  "reth_new_payload p r =
     (Inr \<lparr>ps_status = PS_Valid, ps_latest_valid_hash = Some (ep_block_hash p)\<rparr>,
      r\<lparr>reth_known := (ep_block_hash p, ep_block_number p, ep_timestamp p) # reth_known r\<rparr>)"

definition reth_forkchoice_updated ::
  "engine_forkchoice_state \<Rightarrow> payload_attributes option \<Rightarrow> (reth, string + forkchoice_updated) io" where
  "reth_forkchoice_updated s attributes r =
     (case map_of (reth_known r) (head_block_hash s) of
        None \<Rightarrow> (Inr \<lparr>fu_payload_status =
            \<lparr>ps_status = PS_Invalid ''unknown head'', ps_latest_valid_hash = None\<rparr>,
            fu_payload_id = None\<rparr>, r)
      | Some (number, time) \<Rightarrow>
          (Inr \<lparr>fu_payload_status =
             \<lparr>ps_status = PS_Valid, ps_latest_valid_hash = Some (head_block_hash s)\<rparr>,
             fu_payload_id = map_option (\<lambda>_. [1]) attributes\<rparr>,
           r\<lparr>reth_head := head_block_hash s, reth_number := number, reth_time := time,
             reth_job := attributes\<rparr>))"

definition reth_get_payload :: "(reth, string + execution_payload) io" where
  "reth_get_payload r =
     (case reth_job r of
        None \<Rightarrow> (Inl ''unknown payload'', r)
      | Some job \<Rightarrow>
          (Inr \<lparr>ep_parent_hash = reth_head r, ep_fee_recipient = pa_suggested_fee_recipient job,
             ep_state_root = 3, ep_receipts_root = 4, ep_logs_bloom = [],
             ep_prev_randao = pa_prev_randao job, ep_block_number = reth_number r + 1,
             ep_gas_limit = 30000000, ep_gas_used = 0, ep_timestamp = pa_timestamp job,
             ep_extra_data = [], ep_base_fee_per_gas = 7,
             ep_block_hash = 1000 + ucast (reth_number r), ep_transactions = [],
             ep_withdrawals = [], ep_blob_gas_used = 0, ep_excess_blob_gas = 0\<rparr>, r))"

fun reth_hex :: "nat \<Rightarrow> string" where
  "reth_hex n = (if n < 16 then [''0123456789abcdef'' ! n]
     else reth_hex (n div 16) @ [''0123456789abcdef'' ! (n mod 16)])"

definition reth_get_block :: "(reth, string + raw_block) io" where
  "reth_get_block r =
     (Inr \<lparr>rb_hash = reth_head r, rb_number = ''0x'' @ reth_hex (unat (reth_number r)),
       rb_timestamp = ''0x'' @ reth_hex (unat (reth_time r))\<rparr>, r)"

text \<open>Every reading of the clock takes a tick; it stops at the largest time.\<close>

definition tick :: "reth \<Rightarrow> reth" where
  "tick r = r\<lparr>reth_now := (if reth_now r + 1 = 0 then reth_now r else reth_now r + 1)\<rparr>"

definition reth_host :: "reth host" where
  "reth_host =
     \<lparr>clock = (\<lambda>r. (Some (reth_now r), tick r)),
      sleep_ms = (\<lambda>d. tick),
      read_file = (\<lambda>path r. (Inr (replicate 64 (CHR ''0'')), r))\<rparr>"

definition reth_env :: "reth exec_env" where
  "reth_env =
     \<lparr>ee_client = \<lparr>ec_reth_url = ''http://localhost:8551'', ec_jwt_secret = replicate 64 (CHR ''0'')\<rparr>,
      ee_libs =
        \<lparr>lib_sha256 = (\<lambda>bs. replicate 32 0),
         lib_hex_decode = (\<lambda>s. Inr (replicate 32 0)),
         lib_header_value = (\<lambda>s. Inr ()),
         lib_http_build = (\<lambda>s. Inr ()),
         lib_decode_error = (\<lambda>s. s),
         lib_alloy =
           \<lparr>bloom_from_slice = Some, u256_from_u64 = ucast, u256_to_u64 = (\<lambda>x. Some (ucast x))\<rparr>\<rparr>,
      ee_host = reth_host,
      ee_api =
        \<lparr>api_new_payload = (\<lambda>http p hashes root. reth_new_payload p),
         api_forkchoice_updated = (\<lambda>http. reth_forkchoice_updated),
         api_get_payload = (\<lambda>http payload_id. reth_get_payload),
         api_get_block = (\<lambda>http tag full. reth_get_block)\<rparr>\<rparr>"

definition reth_world :: "reth exec_world" where
  "reth_world =
     \<lparr>ew_forkchoice = fc_genesis 7,
      ew_outside = \<lparr>reth_now = 100, reth_head = 7, reth_number = 0, reth_time = 5,
        reth_known = [(7, 0, 5)], reth_job = None\<rparr>\<rparr>"

lemma reth_http:
  "\<exists>http. ec_http_client reth_env w = Some (Inr http, w\<lparr>ew_outside := tick (ew_outside w)\<rparr>)"
proof -
  obtain token where "build_token (\<lambda>bs. replicate 32 0) (\<lambda>s. Inr (replicate 32 0))
      (Some (reth_now (ew_outside w))) (replicate 64 CHR ''0'') = Some (Inr token)"
    using build_token_Ok_iff [of "\<lambda>bs. replicate 32 0" "\<lambda>s. Inr (replicate 32 0)"] by fastforce
  then show ?thesis
    by (simp add: ec_http_client_def reth_env_def reth_host_def outside_def bind_act_def)
qed

lemma reth_rpc:
  "rpc_request reth_env err (\<lambda>http. f) w =
     (case f (tick (ew_outside w)) of (r, x) \<Rightarrow> Some (map_err err r, w\<lparr>ew_outside := x\<rparr>))"
proof -
  obtain http where "ec_http_client reth_env w = Some (Inr http, w\<lparr>ew_outside := tick (ew_outside w)\<rparr>)"
    using reth_http by blast
  then show ?thesis
    by (simp add: rpc_request_def outside_def Let_def bind_act_def split: prod.split)
qed

lemma reth_fields [simp]:
  "ee_api reth_env =
     \<lparr>api_new_payload = (\<lambda>http p hashes root. reth_new_payload p),
      api_forkchoice_updated = (\<lambda>http. reth_forkchoice_updated),
      api_get_payload = (\<lambda>http payload_id. reth_get_payload),
      api_get_block = (\<lambda>http tag full. reth_get_block)\<rparr>"
  "ee_host reth_env = reth_host"
  "lib_alloy (ee_libs reth_env) =
     \<lparr>bloom_from_slice = Some, u256_from_u64 = ucast, u256_to_u64 = (\<lambda>x. Some (ucast x))\<rparr>"
  by (simp_all add: reth_env_def)

declare reth_hex.simps [simp del]

lemma hex_digit: "n < 16 \<Longrightarrow> digit_val (''0123456789abcdef'' ! n) = Some n"
proof -
  have "\<forall>n \<in> set [0..<16]. digit_val (''0123456789abcdef'' ! n) = Some n"
    by code_simp
  then show "n < 16 \<Longrightarrow> ?thesis" by simp
qed

lemma parse_reth_hex: "n < 2 ^ 64 \<Longrightarrow> parse_digits 16 0 (reth_hex n) = Some n"
proof (induction n rule: reth_hex.induct)
  case (1 n)
  show ?case
  proof (cases "n < 16")
    case True
    with 1 show ?thesis
      by (subst reth_hex.simps) (simp add: hex_digit del: nth_Cons_numeral)
  next
    case False
    with 1 have IH: "parse_digits 16 0 (reth_hex (n div 16)) = Some (n div 16)"
      by simp
    have "n div 16 * 16 + n mod 16 = n" by simp
    with False 1 IH show ?thesis
      by (subst reth_hex.simps) (simp add: parse_digits_append hex_digit)
  qed
qed

lemma reth_hex_chars: "set (reth_hex n) \<subseteq> set ''0123456789abcdef''"
proof (induction n rule: reth_hex.induct)
  case (1 n)
  have digit: "''0123456789abcdef'' ! (m mod 16) \<in> set ''0123456789abcdef''" for m
    by (rule nth_mem) simp
  show ?case
    using 1 digit [of n] by (subst reth_hex.simps) (auto simp del: nth_Cons_numeral)
qed

lemma trim_start_0x_id: "CHR ''x'' \<notin> set s \<Longrightarrow> trim_start_0x s = s"
  by (cases s rule: trim_start_0x.cases) auto

lemma read_reth_hex [simp]: "deserialize_u64_hex (CHR ''0'' # CHR ''x'' # reth_hex (unat w)) = Some w"
proof -
  have chars: "CHR ''x'' \<notin> set (reth_hex (unat w))" "CHR ''+'' \<notin> set (reth_hex (unat w))"
      "CHR ''-'' \<notin> set (reth_hex (unat w))"
    using reth_hex_chars [of "unat w"] by auto
  moreover have "reth_hex (unat w) \<noteq> []"
    by (subst reth_hex.simps) simp
  moreover have "hd (reth_hex (unat w)) \<noteq> CHR ''+''"
    using calculation by (metis hd_in_set)
  moreover have "reth_hex (unat w) \<noteq> ''+''" "reth_hex (unat w) \<noteq> ''-''"
    using chars by auto
  moreover have "parse_digits 16 0 (reth_hex (unat w)) = Some (unat w)"
    using parse_reth_hex unsigned_less [of w] by simp
  ultimately show ?thesis
    by (simp add: deserialize_u64_hex_def trim_start_0x_id parse_u64_def)
qed

lemma reth_head_query [simp]:
  "get_head reth_env w =
     (let x = tick (ew_outside w) in
      Some (Inr (reth_head x, reth_number x, reth_time x), w\<lparr>ew_outside := x\<rparr>))"
  by (simp add: get_head_def reth_rpc reth_get_block_def decode_head_def Let_def)

lemma reth_new_payload_request [simp]:
  "new_payload_request reth_env p w =
     (case reth_new_payload p (tick (ew_outside w)) of (r, x) \<Rightarrow>
        Some (map_err (\<lambda>e. Exec_ExecutionFailed (''newPayload RPC failed: '' @ e)) r,
          w\<lparr>ew_outside := x\<rparr>))"
  by (simp add: new_payload_request_def reth_rpc)

lemma reth_update_forkchoice [simp]:
  "update_forkchoice reth_env s w =
     (let x = tick (ew_outside w) in
      case map_of (reth_known x) (fc_head s) of
        None \<Rightarrow> Some (Inl (Exec_ForkchoiceFailed ''unknown head''), w\<lparr>ew_outside := x\<rparr>)
      | Some (number, time) \<Rightarrow>
          Some (Inr (), w\<lparr>ew_outside := x\<lparr>reth_head := fc_head s, reth_number := number,
            reth_time := time, reth_job := None\<rparr>, ew_forkchoice := s\<rparr>))"
  by (auto simp: update_forkchoice_def reth_rpc reth_forkchoice_updated_def bind_try_def Let_def
      split: option.split prod.split)

lemma reth_start_building [simp]:
  "start_building reth_env h t a w =
     (let x = tick (ew_outside w) in
      case map_of (reth_known x) h of
        None \<Rightarrow> Some (Inl (Exec_ForkchoiceFailed (''invalid forkchoice: '' @ ''unknown head'')),
          w\<lparr>ew_outside := x\<rparr>)
      | Some (number, time) \<Rightarrow>
          Some (Inr [1], w\<lparr>ew_outside := x\<lparr>reth_head := h, reth_number := number,
            reth_time := time, reth_job := Some (build_payload_attributes h t a)\<rparr>\<rparr>))"
  by (auto simp: start_building_def call_forkchoice_with_attributes_def reth_rpc
      reth_forkchoice_updated_def bind_try_def Let_def extract_payload_id_def
      build_forkchoice_state_def split: option.split prod.split)

lemma reth_payload [simp]:
  "get_payload reth_env i w =
     (case reth_get_payload (tick (ew_outside w)) of
        (Inl e, x) \<Rightarrow> Some (Inl (Exec_ExecutionFailed (''getPayload RPC failed: '' @ e)), w\<lparr>ew_outside := x\<rparr>)
      | (Inr v, x) \<Rightarrow>
          Some (Inr (the (built_payload_of (lib_alloy (ee_libs reth_env)) v)), w\<lparr>ew_outside := x\<rparr>))"
  by (auto simp: get_payload_def reth_rpc bind_try_def bind_act_def built_payload_of_def
      split: prod.split sum.split)

text \<open>The application against this reth, with a hash function that reads its bytes as a number.\<close>

definition reth_app_env :: "reth exec_world app_env" where
  "reth_app_env =
     \<lparr>ae_builder = builder_client reth_env,
      ae_host = exec_host reth_host,
      ae_sha256 = foldl (\<lambda>a b. 256 * a + ucast b) 1,
      ae_show_epoch = (\<lambda>e. show_nat (unat e))\<rparr>"

definition reth_config :: app_config where
  "reth_config =
     \<lparr>ac_initial_height = 1, ac_initial_hash = 7, ac_proposer = 9, ac_block_timing = Vanilla\<rparr>"

definition reth_start :: "reth exec_world app_world" where
  "reth_start = \<lparr>aw_app = application_new reth_config, aw_world = reth_world\<rparr>"

lemma reth_app_env_simps [simp]:
  "ae_builder reth_app_env = builder_client reth_env"
  "ae_host reth_app_env = exec_host reth_host"
  "ae_sha256 reth_app_env = foldl (\<lambda>a b. 256 * a + ucast b) 1"
  by (simp_all add: reth_app_env_def)

lemma reth_builder_simps [simp]:
  "bb_get_head (builder_client E) = get_head E"
  "bb_import_payload (builder_client E) = import_payload E"
  "bb_start_building (builder_client E) = start_building E"
  "bb_get_payload (builder_client E) = get_payload E"
  "bb_apply_built_payload (builder_client E) = apply_built_payload E"
  by (simp_all add: builder_client_def)

lemma reth_wall_clock [simp]:
  "wall_clock reth_app_env w =
     (let x = ew_outside (aw_world w) in
      Some (reth_now x, w\<lparr>aw_world := (aw_world w)\<lparr>ew_outside := tick x\<rparr>\<rparr>))"
  by (simp add: wall_clock_def in_client_def wall_clock_timestamp_def exec_host_def reth_host_def
      Let_def)

lemma word_le_inc: "w + 1 \<noteq> 0 \<Longrightarrow> w \<le> w + 1" for w :: "'a::len word"
  using inc_less_eq_triv_imp [of w] by (cases "w + 1 \<le> w") auto

lemma reth_clock_mono:
  "fst (wall_clock_timestamp (exec_host reth_host) w) \<le>
     fst (wall_clock_timestamp (exec_host reth_host) (snd (wall_clock_timestamp (exec_host reth_host) w)))"
  by (simp add: wall_clock_timestamp_def exec_host_def reth_host_def tick_def Let_def word_le_inc)

lemmas reth_defs = reth_config_def reth_start_def reth_world_def application_new_def
  tick_def reth_new_payload_def reth_get_payload_def

text \<open>The first proposal against it, as the actor sees it.\<close>

definition first_payload :: built_payload where
  "first_payload =
     \<lparr>pl_block_hash = 1000, pl_block_number = 1, pl_parent_hash = 7, pl_fee_recipient = 9,
      pl_state_root = 3, pl_receipts_root = 4, pl_logs_bloom = [], pl_prev_randao = 7,
      pl_extra_data = [], pl_gas_limit = 30000000, pl_gas_used = 0, pl_timestamp = 102,
      pl_transactions = [], pl_base_fee_per_gas = 7\<rparr>"

definition first_digest :: digest where
  "first_digest = compute_digest reth_app_env (pl_block_hash first_payload)"

definition after_first_proposal :: "reth exec_world app_world" where
  "after_first_proposal =
     \<lparr>aw_app = after_proposal first_digest first_payload (application_new reth_config),
      aw_world = reth_world\<lparr>ew_outside := (ew_outside reth_world)
        \<lparr>reth_now := 105, reth_job := Some (build_payload_attributes 7 102 9)\<rparr>\<rparr>\<rparr>"

lemma wait_for_reth_sync_step:
  "wait_for_reth_sync E =
     bind_act (query_reth_head E) (\<lambda>h.
     case h of
       None \<Rightarrow> bind_act (sync_sleep E) (\<lambda>_. sync_loop E 9 2)
     | Some head \<Rightarrow> get_app (\<lambda>a.
         case check_sync_state a head of
           SC_Synced \<Rightarrow> ret (SR_Synced (rh_timestamp head))
         | SC_Behind \<Rightarrow> bind_act (sync_sleep E) (\<lambda>_. sync_loop E 9 2)
         | SC_Diverged \<Rightarrow> ret SR_Failed))"
proof -
  have "(10 :: nat) = Suc 9" "(2 :: nat) = Suc 1" by simp_all
  then show ?thesis
    by (simp only: wait_for_reth_sync_def max_sync_attempts_def sync_loop.simps)
qed

lemma first_propose: "propose reth_app_env reth_start = Some (first_digest, after_first_proposal)"
  by (simp add: propose_def already_proposed_at_height_def wait_for_reth_sync_step
      query_reth_head_def reth_defs bind_act_def in_client_def Let_def check_sync_state_def
      can_build_block_def build_via_reth_def complete_proposal_def built_payload_of_def
      build_payload_attributes_def compute_digest_def first_digest_def first_payload_def
      after_first_proposal_def after_proposal_def broadcast_to_relay_def)

text \<open>The finalization of this proposal.\<close>

definition after_first_finalize :: "reth exec_world app_world" where
  "after_first_finalize =
     \<lparr>aw_app = after_finalize first_digest (build_block_from_payload first_payload)
        (aw_app after_first_proposal),
      aw_world = \<lparr>ew_forkchoice = with_soft (fc_genesis 7) 1000,
        ew_outside = \<lparr>reth_now = 107, reth_head = 1000, reth_number = 1, reth_time = 102,
          reth_known = [(1000, 1, 102), (7, 0, 5)], reth_job = None\<rparr>\<rparr>\<rparr>"

lemma first_apply:
  "apply_built_payload reth_env first_payload (aw_world after_first_proposal) =
     Some (Inr (), aw_world after_first_finalize)"
  by (simp add: apply_built_payload_def call_new_payload_def update_forkchoice_for_payload_def
      to_execution_payload_def first_payload_def after_first_proposal_def after_first_finalize_def
      reth_defs bind_try_def bind_act_def check_payload_status_for_import_def with_soft_def
      fc_genesis_def Let_def)

lemma first_pending:
  "app_pending_blocks (aw_app after_first_proposal) first_digest =
     Some (build_block_from_payload first_payload)"
  "app_pending_payloads (aw_app after_first_proposal) first_digest = Some first_payload"
  "app_height (aw_app after_first_proposal) = 1"
  "pl_block_number first_payload = 1"
  by (simp_all add: after_first_proposal_def after_proposal_def broadcast_to_relay_def
      application_new_def reth_config_def first_payload_def)

lemma first_finalize:
  "finalize reth_app_env first_digest after_first_proposal =
     Some (Some (build_block_from_payload first_payload), after_first_finalize)"
  by (simp add: finalize_def first_pending is_valid_height_def Let_def bind_act_def apply_to_reth_def
      in_client_def remove_block_def first_apply)
    (rule app_world.equality; simp add: after_first_finalize_def after_finalize_def
      remove_block_def first_pending)

lemma first_run:
  "run_app reth_app_env [M_Propose, M_Finalize first_digest] reth_start =
     Some ([R_Digest first_digest, R_Nothing], after_first_finalize)"
  by (simp add: first_propose first_finalize bind_act_def)

end
