(* ===== verification/Node_Props.thy ===== *)
theory Node_Props
  imports Sync Model_Reth
begin

text \<open>
  The properties of the node over the model of the Engine API client: the forkchoice only ever names
  genesis and executed blocks and is the one the client sent last, in every run of the handlers and
  during the sync; what finalizing a block and confirming one do; and when the sync does nothing.
\<close>

section \<open>Safety of the forkchoice\<close>

text \<open>
  The forkchoice of a running node is sound. From a node that was initialised on the genesis
  block, after every sequence of finalized blocks and finality confirmations and every behaviour of
  reth and Celestia: the sequencer's forkchoice is the one that the client has cached, its head is its safe
  block, and head and finalized block are genesis or a block that was executed.
\<close>

theorem node_forkchoice_sound:
  assumes "nd_forkchoice n = fc_genesis g" "ew_forkchoice (nd_exec n) = fc_genesis g"
    and "run_node (execution_client E) D es n = Some ((), n')"
  shows "ew_forkchoice (nd_exec n') = nd_forkchoice n' \<and>
    fc_head (nd_forkchoice n') = fc_safe (nd_forkchoice n') \<and>
    fc_head (nd_forkchoice n') \<in> insert g (nd_executed_blocks n') \<and>
    fc_finalized (nd_forkchoice n') \<in> insert g (nd_executed_blocks n')"
proof -
  have "node_safe ew_forkchoice g n" using assms(1,2) by (simp add: node_safe_def)
  from ec.run_node_safe [OF this assms(3)] show ?thesis
    unfolding node_safe_def head_is_safe_def by blast
qed

definition demo_node :: "(reth exec_world, celestia_node) node" where
  "demo_node =
     \<lparr>nd_forkchoice = fc_genesis 7, nd_executed_blocks = {}, nd_da = tracker_start,
      nd_batch_queue = [], nd_batch_open = True,
      nd_index = \<lparr>bx_path = ''index'', bx_by_height = [], bx_by_hash = Map.empty, bx_file = True\<rparr>,
      nd_exec = reth_world, nd_world = empty_node\<rparr>"

definition first_block :: block where
  "first_block = build_block_from_payload first_payload"

definition first_confirmation :: finality_confirmation where
  "first_confirmation = build_confirmation 1000
     \<lparr>pf_block_height = 1, pf_celestia_height = 42, pf_submitted_at = 3\<rparr> 0 9"

lemma first_block_fields [simp]:
  "blk_block_hash first_block = 1000" "block_height first_block = 1"
  "build_payload L first_block = to_execution_payload L first_payload"
  by (simp_all add: first_block_def block_payload_same) (simp_all add: first_payload_def)

lemma demo_run:
  "\<exists>n'. run_node (execution_client reth_env) node_env
      [NE_Finalized first_block True, NE_Confirmed first_confirmation] demo_node = Some ((), n') \<and>
     nd_forkchoice n' = \<lparr>fc_head = 1000, fc_safe = 1000, fc_finalized = 1000\<rparr> \<and>
     nd_batch_queue n' = [first_block]"
  by (simp add: process_finalized_block_def execute_and_update_forkchoice_def update_and_store_def
      handle_finality_confirmation_def verify_block_executed_def update_finalized_forkchoice_def
      wrap_err_def bind_act_def bind_try_def in_exec_def execution_client_def execute_block_def
      demo_node_def first_confirmation_def submit_to_celestia_def queue_for_batch_def
      spawn_batch_task_def batch_enabled_def default_celestia_def to_execution_payload_def
      first_payload_def with_soft_def with_firm_def fc_genesis_def reth_defs Let_def)

theorem node_forkchoice_sound_witness:
  "\<exists>n'. run_node (execution_client reth_env) node_env
      [NE_Finalized first_block True, NE_Confirmed first_confirmation] demo_node = Some ((), n') \<and>
     ew_forkchoice (nd_exec n') = nd_forkchoice n' \<and>
     fc_finalized (nd_forkchoice n') \<in> insert 7 (nd_executed_blocks n')"
proof -
  obtain n' where r: "run_node (execution_client reth_env) node_env
      [NE_Finalized first_block True, NE_Confirmed first_confirmation] demo_node = Some ((), n')"
    using demo_run by blast
  have "nd_forkchoice demo_node = fc_genesis 7" "ew_forkchoice (nd_exec demo_node) = fc_genesis 7"
    by (simp_all add: demo_node_def reth_world_def)
  from node_forkchoice_sound [OF this r] r show ?thesis by blast
qed

section \<open>What the handlers do\<close>

lemma update_and_store_frame:
  "update_and_store X ctx f n = Some (r, n') \<Longrightarrow>
     nd_batch_queue n' = nd_batch_queue n \<and> nd_batch_open n' = nd_batch_open n \<and> nd_da n' = nd_da n \<and>
     nd_world n' = nd_world n"
  unfolding update_and_store_def Let_def
  by (auto simp: wrap_exec_Some elim!: act_elims)

lemma update_and_store_apply:
  "update_and_store X ctx f n =
     (case x_update_forkchoice X (f (nd_forkchoice n)) (nd_exec n) of
        None \<Rightarrow> None
      | Some (Inl e, x) \<Rightarrow> Some (Inl (ctx e), n\<lparr>nd_exec := x\<rparr>)
      | Some (Inr _, x) \<Rightarrow>
          Some (Inr (), n\<lparr>nd_exec := x, nd_forkchoice := f (nd_forkchoice n)\<rparr>))"
  by (simp add: update_and_store_def wrap_err_def in_exec_def bind_try_def bind_act_def Let_def
      split: option.split prod.split sum.split)

lemma execute_and_update_frame:
  "execute_and_update_forkchoice X b h k n = Some (r, n') \<Longrightarrow>
     nd_batch_queue n' = nd_batch_queue n \<and> nd_batch_open n' = nd_batch_open n \<and> nd_da n' = nd_da n \<and>
     nd_world n' = nd_world n"
  unfolding execute_and_update_forkchoice_def
  by (elim bind_try_SomeE) (auto simp: wrap_exec_Some dest!: update_and_store_frame split: if_splits)

context execution_contract begin

lemma process_finalized_block_effect:
  assumes run: "process_finalized_block X D b is_leader n = Some ((), n')"
    and batching: "ce_batch_interval_ms (da_config D) > 0"
  shows "(nd_forkchoice n' = nd_forkchoice n \<and> nd_executed_blocks n' = nd_executed_blocks n \<and>
      nd_batch_queue n' = nd_batch_queue n \<and> nd_da n' = nd_da n \<and> cache (nd_exec n') = cache (nd_exec n)) \<or>
    (nd_forkchoice n' = with_soft (nd_forkchoice n) (blk_block_hash b) \<and>
      nd_executed_blocks n' = insert (blk_block_hash b) (nd_executed_blocks n) \<and>
      nd_batch_queue n' = (if is_leader \<and> nd_batch_open n then nd_batch_queue n @ [b]
        else nd_batch_queue n) \<and> nd_da n' = nd_da n \<and>
      cache (nd_exec n') = with_soft (nd_forkchoice n) (blk_block_hash b))"
proof -
  let ?h = "blk_block_hash b"
  from run obtain r n1 where e: "execute_and_update_forkchoice X b ?h (block_height b) n = Some (r, n1)"
    and rest: "(case r of Inl e \<Rightarrow> ret ()
      | Inr _ \<Rightarrow>
          bind_act (modify_node (\<lambda>n. n\<lparr>nd_executed_blocks := insert ?h (nd_executed_blocks n)\<rparr>)) (\<lambda>_.
          if is_leader then submit_to_celestia D (spawn_batch_task (da_config D) \<noteq> None)
            (batch_enabled (da_config D)) b
          else ret ())) n1 = Some ((), n')"
    unfolding process_finalized_block_def Let_def by (elim bind_act_SomeE)
  note e' = execute_and_update_result [OF e] execute_and_update_frame [OF e]
  show ?thesis
  proof (cases r)
    case (Inl x)
    with rest e' show ?thesis by simp
  next
    case (Inr x)
    have "spawn_batch_task (da_config D) \<noteq> None" "batch_enabled (da_config D)"
      using batching by (auto simp: spawn_batch_task_def batch_enabled_def Let_def)
    with Inr rest have "n' = (if is_leader \<and> nd_batch_open n1
        then n1\<lparr>nd_executed_blocks := insert ?h (nd_executed_blocks n1),
          nd_batch_queue := nd_batch_queue n1 @ [b]\<rparr>
        else n1\<lparr>nd_executed_blocks := insert ?h (nd_executed_blocks n1)\<rparr>)"
      by (simp add: bind_act_def submit_to_celestia_def queue_for_batch_def split: if_splits)
    with Inr e' show ?thesis by simp
  qed
qed

lemma confirmation_pointers:
  assumes "handle_finality_confirmation X c n = Some (u, n')"
  shows "nd_executed_blocks n' = nd_executed_blocks n \<and> nd_batch_queue n' = nd_batch_queue n \<and>
      nd_da n' = nd_da n"
    and "(nd_forkchoice n' = nd_forkchoice n \<and> cache (nd_exec n') = cache (nd_exec n)) \<or>
      (cf_block_hash c \<in> nd_executed_blocks n \<and>
       nd_forkchoice n' = with_firm (nd_forkchoice n) (cf_block_hash c) \<and>
       cache (nd_exec n') = with_firm (nd_forkchoice n) (cf_block_hash c))"
  using assms
  by (cases rule: handle_finality_confirmation_cases;
      auto dest: update_and_store_result update_and_store_frame split: sum.splits)+

end

text \<open>
  What finalizing a block does. Either it failed, and forkchoice, executed blocks, the queue for
  Celestia and the finality tracker are as before; or reth executed it, and then the block is the new
  head and safe block, the finalized block is as before, the block counts as executed, and with
  batching enabled it is queued for Celestia exactly if this node led and the queue is open.
\<close>

theorem finalized_block_effect:
  assumes run: "process_finalized_block (execution_client E) D b is_leader n = Some ((), n')"
    and batching: "ce_batch_interval_ms (da_config D) > 0"
  shows "(nd_forkchoice n' = nd_forkchoice n \<and> nd_executed_blocks n' = nd_executed_blocks n \<and>
      nd_batch_queue n' = nd_batch_queue n \<and> nd_da n' = nd_da n) \<or>
    (nd_forkchoice n' = with_soft (nd_forkchoice n) (blk_block_hash b) \<and>
      nd_executed_blocks n' = insert (blk_block_hash b) (nd_executed_blocks n) \<and>
      nd_batch_queue n' = (if is_leader \<and> nd_batch_open n then nd_batch_queue n @ [b]
        else nd_batch_queue n) \<and> nd_da n' = nd_da n)"
  using ec.process_finalized_block_effect [OF assms] by blast

theorem finalized_block_effect_witness:
  "\<exists>n'. process_finalized_block (execution_client reth_env) node_env first_block True demo_node = Some ((), n') \<and>
     (nd_batch_queue n' = [] \<or> nd_batch_queue n' = [first_block])"
proof -
  obtain n1 where "node_step (execution_client reth_env) node_env (NE_Finalized first_block True) demo_node
      = Some ((), n1)"
    using demo_run by (auto elim!: act_elims)
  then have r: "process_finalized_block (execution_client reth_env) node_env first_block True demo_node
      = Some ((), n1)" by simp
  have "ce_batch_interval_ms (da_config node_env) > 0" by (simp add: default_celestia_def)
  from finalized_block_effect [OF r this] r show ?thesis by (auto simp: demo_node_def)
qed

text \<open>
  What a confirmation does. A confirmation of a block that was not executed changes nothing at all
  and asks reth nothing. Of an executed block it moves the finalized pointer if reth accepts, whatever
  the heights involved, so also backwards; head and safe block, the executed blocks and everything of
  Celestia stay.
\<close>

theorem confirmation_effect:
  assumes "handle_finality_confirmation (execution_client E) c n = Some ((), n')"
  shows "if cf_block_hash c \<notin> nd_executed_blocks n then n' = n
    else (\<exists>r x. update_forkchoice E (with_firm (nd_forkchoice n) (cf_block_hash c)) (nd_exec n) = Some (r, x) \<and>
      n' = (case r of Inr _ \<Rightarrow> n\<lparr>nd_exec := x, nd_forkchoice := with_firm (nd_forkchoice n) (cf_block_hash c)\<rparr>
        | Inl _ \<Rightarrow> n\<lparr>nd_exec := x\<rparr>))"
proof (cases "cf_block_hash c \<in> nd_executed_blocks n")
  case False
  with assms show ?thesis
    by (simp add: handle_finality_confirmation_def verify_block_executed_def)
next
  case True
  let ?s = "with_firm (nd_forkchoice n) (cf_block_hash c)"
  obtain r x where x: "update_forkchoice E ?s (nd_exec n) = Some (r, x)"
    using no_panicD [OF no_panic_update_forkchoice] by blast
  with assms True show ?thesis
    by (cases r) (simp_all add: handle_finality_confirmation_def verify_block_executed_def
        update_finalized_forkchoice_def update_and_store_apply execution_client_def bind_act_def)
qed

theorem confirmation_effect_witness:
  "handle_finality_confirmation (execution_client reth_env) first_confirmation demo_node =
     Some ((), demo_node)"
proof -
  have r: "handle_finality_confirmation (execution_client reth_env) first_confirmation demo_node =
      Some ((), demo_node)"
    by (simp add: handle_finality_confirmation_def verify_block_executed_def demo_node_def)
  from confirmation_effect [OF r] show ?thesis using r by simp
qed

section \<open>The initial sync\<close>

text \<open>
  C27: a sync keeps the forkchoice sound and indexes every block. From a sound node with a consistent
  index, syncing any list of blocks, also one that ends in an error, leaves a sound node and a
  consistent index that has lost no height; if it succeeds, every block of the list has its height in
  the index.
\<close>

theorem sync_keeps_node_sound:
  assumes "node_safe ew_forkchoice g n" "index_ok (nd_index n)"
    and "sync_block_batch (execution_client E) F J blocks n = Some (r, n')"
  shows "node_safe ew_forkchoice g n' \<and> index_ok (nd_index n') \<and>
    (\<forall>k. get_by_height (nd_index n) k \<noteq> None \<longrightarrow> get_by_height (nd_index n') k \<noteq> None) \<and>
    (\<forall>h. r = Inr h \<longrightarrow> (\<forall>(c, b) \<in> set blocks. get_by_height (nd_index n') (block_height b) \<noteq> None))"
  using ec.sync_blocks_safe [OF assms(3) [unfolded sync_block_batch_def] assms(1,2)] .

definition node_files :: "celestia_node file_ops" where
  "node_files =
     \<lparr>fo_parent = (\<lambda>p. None),
      fo_create_dir_all = (\<lambda>p c. (Inr (), c)),
      fo_exists = (\<lambda>p c. (False, c)),
      fo_open_read = (\<lambda>p c. (Inr (), c)),
      fo_lines = (\<lambda>p c. (([], None), c)),
      fo_open_append = (\<lambda>p c. (Inr (), c)),
      fo_write_all = (\<lambda>p s c. (Inr (), c)),
      fo_flush = (\<lambda>p c. (Inr (), c))\<rparr>"

definition plain_codec :: json_codec where
  "plain_codec = \<lparr>json_to_string = (\<lambda>e. Inr ''entry''), json_from_str = (\<lambda>s. Inl ''unreadable'')\<rparr>"

lemma demo_sync:
  "\<exists>n'. sync_block_batch (execution_client reth_env) node_files plain_codec [(42, first_block)] demo_node =
     Some (Inr 1, n')"
  by (simp add: sync_block_batch_def sync_single_block_def execute_sync_block_def update_and_store_def
      index_insert_node_def index_insert_def node_files_def plain_codec_def get_by_height_def
      btree_get_def wrap_err_def bind_act_def bind_try_def in_exec_def execution_client_def
      execute_block_def demo_node_def to_execution_payload_def first_payload_def with_soft_def
      fc_genesis_def reth_defs Let_def)

theorem sync_keeps_node_sound_witness:
  "\<exists>n'. sync_block_batch (execution_client reth_env) node_files plain_codec [(42, first_block)] demo_node =
      Some (Inr 1, n') \<and> node_safe ew_forkchoice 7 n' \<and> get_by_height (nd_index n') 1 \<noteq> None"
proof -
  obtain n' where r: "sync_block_batch (execution_client reth_env) node_files plain_codec
      [(42, first_block)] demo_node = Some (Inr 1, n')" using demo_sync by blast
  have "node_safe ew_forkchoice 7 demo_node" "index_ok (nd_index demo_node)"
    by (simp_all add: node_safe_def demo_node_def reth_world_def)
  from sync_keeps_node_sound [OF this r] r show ?thesis by auto
qed

text \<open>
  Without finality data the sync is skipped. As long as the finality tracker has not seen a header,
  the initial sync succeeds without fetching or executing anything, whatever Celestia holds; the index
  is opened and nothing else changes.
\<close>

theorem sync_skipped_without_finality:
  assumes "finalized_height (ds_tracker (nd_da n)) = 0"
    and "init_from_celestia X D F J n = Some (r, n')"
    and "index_open F J (ce_index_path (da_config D)) (nd_world n) = (Inr i, w)"
  shows "r = Inr () \<and> nd_exec n' = nd_exec n \<and> nd_forkchoice n' = nd_forkchoice n \<and>
    nd_executed_blocks n' = nd_executed_blocks n \<and> nd_da n' = nd_da n"
  using assms
  by (auto simp: init_from_celestia_def sync_from_celestia_def check_sync_preconditions_def
      bind_try_def Let_def split: if_splits)

definition syncing_env :: "(celestia_node, bytes, bytes) da_env" where
  "syncing_env = node_env\<lparr>da_config := default_celestia\<lparr>ce_genesis_da_height := 40\<rparr>\<rparr>"

theorem sync_skipped_without_finality_witness:
  "\<exists>n'. init_from_celestia (execution_client reth_env) syncing_env node_files plain_codec demo_node =
      Some (Inr (), n') \<and> nd_exec n' = reth_world"
proof -
  have o: "\<exists>i. index_open node_files plain_codec (ce_index_path (da_config syncing_env)) (nd_world demo_node) =
      (Inr i, nd_world demo_node)"
    by (simp add: index_open_def node_files_def)
  have z: "finalized_height (ds_tracker (nd_da demo_node)) = 0"
    by (simp add: demo_node_def tracker_start_def track_def tracker_new_def finalized_height_def)
  have "\<exists>r n'. init_from_celestia (execution_client reth_env) syncing_env node_files plain_codec demo_node =
      Some (r, n')"
    using o z by (auto simp: init_from_celestia_def sync_from_celestia_def check_sync_preconditions_def
        bind_try_def Let_def)
  then obtain r n' where r: "init_from_celestia (execution_client reth_env) syncing_env node_files plain_codec
      demo_node = Some (r, n')" by blast
  from o obtain i where i: "index_open node_files plain_codec (ce_index_path (da_config syncing_env))
      (nd_world demo_node) = (Inr i, nd_world demo_node)" by blast
  from sync_skipped_without_finality [OF z r i] r show ?thesis by (simp add: demo_node_def)
qed

text \<open>
  Fetched blocks come sorted by height, and blocks of the same height stay in the order in which
  Celestia has them, so the one with the lowest Celestia height is executed and the others are
  skipped.
\<close>

theorem fetched_blocks_sorted:
  assumes "fetch_blocks_from_celestia D lo hi n = Some (Inr bs, n')"
  shows "\<exists>found. get_blocks_in_range D lo hi (nd_world n) = (Inr found, nd_world n') \<and>
    mset bs = mset found \<and> sorted (map (\<lambda>(_, b). block_height b) bs) \<and>
    (\<forall>h. filter (\<lambda>(_, b). block_height b = h) bs = filter (\<lambda>(_, b). block_height b = h) found)"
proof -
  have stable: "filter (\<lambda>(_, b). block_height b = h) (sort_key (\<lambda>(_, b). block_height b) xs) =
      filter (\<lambda>(_, b). block_height b = h) xs" for xs :: "(u64 \<times> block) list" and h
    using sort_key_stable [of "\<lambda>(_, b). block_height b" h xs] by (simp add: case_prod_unfold)
  from assms show ?thesis
    unfolding fetch_blocks_from_celestia_def wrap_err_def
    by (auto simp: in_world_def stable elim!: act_elims split: if_splits prod.splits)
qed

definition stocked_node :: "(reth exec_world, celestia_node) node" where
  "stocked_node = demo_node\<lparr>nd_world := \<lparr>cn_height = 5, cn_batches = [(5, [[2], [3], [1]])]\<rparr>\<rparr>"

lemma stocked_node_fetch:
  "fetch_blocks_from_celestia node_env 5 5 stocked_node =
     Some (Inr [(5, block_one), (5, block_two)], stocked_node)"
  by (simp add: fetch_blocks_from_celestia_def get_blocks_in_range_def inclusive_heights_def
      get_blocks_def fetch_blobs_def try_decode_blob_def decode_block_def stocked_node_def
      wrap_err_def in_world_def bind_try_def bind_act_def ret_def Let_def word_le_nat_alt)

theorem fetched_blocks_sorted_witness:
  "\<exists>found. get_blocks_in_range node_env 5 5 (nd_world stocked_node) = (Inr found, nd_world stocked_node) \<and>
    mset [(5, block_one), (5, block_two)] = mset found \<and>
    sorted (map (\<lambda>(_ :: u64, b). block_height b) [(5, block_one), (5, block_two)])"
  using fetched_blocks_sorted [OF stocked_node_fetch] by blast

end
