(* ===== verification/Application_Props.thy ===== *)
theory Application_Props
  imports Model_Reth
begin

text \<open>
  The properties of the application actor: the finalized blocks form a run of consecutive heights,
  a validator proposes at most once per height and never again before its height is finalized, an
  honest relay keeps digests, blocks and payloads together, and waiting for reth is bounded.
\<close>

section \<open>Finalized heights\<close>

definition chain_inv :: "u64 \<Rightarrow> b256 \<Rightarrow> app \<Rightarrow> bool" where
  "chain_inv h0 hash0 a \<longleftrightarrow>
     map block_height (app_block_sender a) =
       map (\<lambda>i. h0 + of_nat i) [0..<length (app_block_sender a)] \<and>
     app_height a = h0 + of_nat (length (app_block_sender a)) \<and>
     app_last_hash a = (if app_block_sender a = [] then hash0
       else blk_block_hash (last (app_block_sender a)))"

lemmas app_update_simps = after_proposal_def broadcast_to_relay_def remove_payload_def
  remove_block_def after_receive_def after_finalize_def broadcast_finalized_def
  cleanup_stale_blocks_def

interpretation ci: app_invariant "chain_inv h0 hash0" "\<lambda>_. True" E
  for h0 hash0 and E :: "'w app_env"
proof unfold_locales
  fix a d b
  assume "chain_inv h0 hash0 a" "block_height b = app_height a"
  then show "chain_inv h0 hash0 (after_finalize d b a)"
    by (simp add: chain_inv_def app_update_simps)
qed (simp_all add: chain_inv_def app_update_simps)

text \<open>
  C1: finalized blocks are consecutive. In every run of the application from its initial state, for
  every sequence of messages (also relayed blocks of any height, repeated finalizations and
  finalizations of unknown digests) and every behaviour of reth, the blocks it has reported as
  finalized have the heights \<open>initial_height\<close>, \<open>initial_height + 1\<close>, and so on, without a gap, a
  repetition or a swap.
\<close>

theorem finalized_heights_consecutive:
  assumes "aw_app w = application_new c" "run_app E ms w = Some (rs, w')"
  shows "map block_height (app_block_sender (aw_app w')) =
      map (\<lambda>i. ac_initial_height c + of_nat i) [0..<length (app_block_sender (aw_app w'))]"
proof -
  have "chain_inv (ac_initial_height c) (ac_initial_hash c) (aw_app w')"
    by (rule ci.run_app_inv [where w = w and ms = ms]) (use assms in
      \<open>simp_all add: chain_inv_def application_new_def list_all_iff\<close>)
  then show ?thesis by (simp add: chain_inv_def)
qed

theorem finalized_heights_consecutive_witness:
  "map block_height (app_block_sender (aw_app after_first_finalize)) =
     map (\<lambda>i. ac_initial_height reth_config + of_nat i)
       [0..<length (app_block_sender (aw_app after_first_finalize))]"
  by (rule finalized_heights_consecutive [OF _ first_run]) (simp add: reth_start_def)

section \<open>Proposals\<close>

text \<open>
  \<open>k\<close> is the number of blocks finalized before the last proposal. The bound on the height keeps
  the counter from wrapping around.
\<close>

definition proposal_inv :: "u64 \<Rightarrow> app \<Rightarrow> bool" where
  "proposal_inv h0 a \<longleftrightarrow>
     app_height a = h0 + of_nat (length (app_block_sender a)) \<and>
     (unat h0 + length (app_block_sender a) < 2 ^ 64 \<longrightarrow>
      (app_last_proposed_height a = None \<longrightarrow> app_block_relay_sender a = []) \<and>
      (\<forall>l. app_last_proposed_height a = Some l \<longrightarrow>
        (\<exists>k \<le> length (app_block_sender a).
           l = h0 + of_nat k \<and> length (app_block_relay_sender a) \<le> k + 1)))"

lemma unat_add_of_nat:
  fixes h :: u64
  shows "unat h + n < 2 ^ 64 \<Longrightarrow> unat (h + of_nat n) = unat h + n"
  by (simp add: unat_word_ariths unat_of_nat take_bit_eq_mod)

lemma proposal_inv_propose:
  assumes "proposal_inv h0 a" "\<not> already_proposed_at_height a"
  shows "proposal_inv h0 (after_proposal d p a)"
proof -
  let ?n = "length (app_block_sender a)"
  have "length (app_block_relay_sender a) \<le> ?n" if "unat h0 + ?n < 2 ^ 64"
  proof (cases "app_last_proposed_height a")
    case None
    with assms that show ?thesis by (simp add: proposal_inv_def)
  next
    case (Some l)
    with assms that obtain k where k: "k \<le> ?n" "l = h0 + of_nat k"
      "length (app_block_relay_sender a) \<le> k + 1"
      by (auto simp: proposal_inv_def)
    have "l < app_height a"
      using assms(2) Some by (simp add: already_proposed_at_height_def split: if_splits)
    then have "unat (h0 + of_nat k) < unat (h0 + of_nat ?n)"
      using assms(1) k(2) by (simp add: proposal_inv_def word_less_nat_alt)
    then have "k < ?n"
      using that k(1) unat_add_of_nat [of h0 ?n] unat_add_of_nat [of h0 k] by simp
    with k(3) show ?thesis by simp
  qed
  with assms(1) show ?thesis
    by (auto simp: proposal_inv_def app_update_simps)
qed

lemma proposal_inv_finalize:
  assumes "proposal_inv h0 a" "block_height b = app_height a"
  shows "proposal_inv h0 (after_finalize d b a)"
proof -
  let ?a = "after_finalize d b a"
  have len: "length (app_block_sender ?a) = Suc (length (app_block_sender a))"
    and height: "app_height ?a = app_height a + 1"
    and same: "app_block_relay_sender ?a = app_block_relay_sender a"
      "app_last_proposed_height ?a = app_last_proposed_height a"
    using assms(2) by (simp_all add: app_update_simps)
  show ?thesis
    using assms(1) unfolding proposal_inv_def len height same
    by (auto intro: le_SucI)
qed

lemma proposal_inv_same:
  assumes "app_height a' = app_height a" "app_block_sender a' = app_block_sender a"
    "app_block_relay_sender a' = app_block_relay_sender a"
    "app_last_proposed_height a' = app_last_proposed_height a"
  shows "proposal_inv h0 a' = proposal_inv h0 a"
  by (simp only: proposal_inv_def assms)

interpretation pi: app_invariant "proposal_inv h0" "\<lambda>_. True" E for h0 and E :: "'w app_env"
proof unfold_locales
  fix a d b
  show "proposal_inv h0 a \<Longrightarrow> proposal_inv h0 (remove_payload d a)"
    by (subst proposal_inv_same [of _ a]) (simp_all add: app_update_simps)
  show "proposal_inv h0 a \<Longrightarrow> proposal_inv h0 (remove_payload d (remove_block d a))"
    by (subst proposal_inv_same [of _ a]) (simp_all add: app_update_simps)
  show "proposal_inv h0 a \<Longrightarrow> proposal_inv h0 (after_receive d b p a)" for p
    by (subst proposal_inv_same [of _ a]) (simp_all add: app_update_simps)
  show "proposal_inv h0 a \<Longrightarrow> proposal_inv h0 (a\<lparr>app_verified := v\<rparr>)" for v
    by (subst proposal_inv_same [of _ a]) simp_all
qed (rule proposal_inv_propose proposal_inv_finalize; assumption)+

text \<open>
  C11: one proposal per height. In every run from the initial state, the blocks handed to the relay
  are at most one more than the blocks finalized: the application never makes a second proposal
  while the first one at its height is undecided. The bound excludes a height that wraps around.
\<close>

theorem one_proposal_per_height:
  assumes "aw_app w = application_new c" "run_app E ms w = Some (rs, w')"
    and "unat (ac_initial_height c) + length (app_block_sender (aw_app w')) < 2 ^ 64"
  shows "length (app_block_relay_sender (aw_app w')) \<le>
    length (app_block_sender (aw_app w')) + 1"
proof -
  have "proposal_inv (ac_initial_height c) (aw_app w')"
    by (rule pi.run_app_inv [where w = w and ms = ms]) (use assms in
      \<open>simp_all add: proposal_inv_def application_new_def list_all_iff\<close>)
  with assms(3) show ?thesis
    by (cases "app_last_proposed_height (aw_app w')") (auto simp: proposal_inv_def)
qed

lemma first_run_sent:
  "app_block_sender (aw_app after_first_finalize) = [build_block_from_payload first_payload]"
  by (simp add: after_first_finalize_def after_first_proposal_def app_update_simps application_new_def)

theorem one_proposal_per_height_witness:
  "length (app_block_relay_sender (aw_app after_first_finalize)) \<le>
     length (app_block_sender (aw_app after_first_finalize)) + 1"
  by (rule one_proposal_per_height [OF _ first_run])
    (simp_all add: reth_start_def first_run_sent, simp add: reth_config_def)

lemma already_proposed_iff:
  "already_proposed_at_height a \<longleftrightarrow>
     (\<exists>l. app_last_proposed_height a = Some l \<and> \<not> l < app_height a)"
  by (simp add: already_proposed_at_height_def split: option.split)

text \<open>After a proposal nothing is proposed again until a block is finalized.\<close>

definition not_finalize :: "message \<Rightarrow> bool" where
  "not_finalize m \<longleftrightarrow> (\<forall>d. m \<noteq> M_Finalize d)"

definition waits_after :: "proposed_block list \<Rightarrow> app \<Rightarrow> bool" where
  "waits_after relayed a \<longleftrightarrow> already_proposed_at_height a \<and> app_block_relay_sender a = relayed"

interpretation bp: app_invariant "waits_after relayed" not_finalize E for relayed and E :: "'w app_env"
  by unfold_locales
    (auto simp: waits_after_def already_proposed_iff app_update_simps not_finalize_def)

text \<open>
  C38: a proposal blocks further ones until a finalization. When a \<open>Propose\<close> has put a block on the
  relay, then in every run without finalizations from there every further \<open>Propose\<close> answers the null
  digest and nothing more is put on the relay, whatever is relayed, verified or received meanwhile:
  also when the proposed block never becomes final.
\<close>

theorem proposals_wait_for_finalization:
  assumes "propose E w0 = Some (d, w)"
    and "app_block_relay_sender (aw_app w) \<noteq> app_block_relay_sender (aw_app w0)"
    and "list_all not_finalize ms" "run_app E ms w = Some (rs, w')"
  shows "list_all2 (\<lambda>m r. m = M_Propose \<longrightarrow> r = R_Digest null_proposal) ms rs \<and>
    app_block_relay_sender (aw_app w') = app_block_relay_sender (aw_app w)"
proof -
  have start: "waits_after (app_block_relay_sender (aw_app w)) (aw_app w)"
    using assms(1)
    by (cases rule: propose_outcome)
      (use assms(2) in \<open>simp_all add: waits_after_def after_proposal_def broadcast_to_relay_def
        already_proposed_at_height_def\<close>)
  have "list_all2 (\<lambda>m r. m = M_Propose \<longrightarrow> r = R_Digest null_proposal) ms rs"
  proof (rule bp.run_app_responses [OF _ start assms(3,4)])
    fix w1 :: "'a app_world" and m r w2
    assume "waits_after (app_block_relay_sender (aw_app w)) (aw_app w1)"
      "process_message E m w1 = Some (r, w2)"
    then show "m = M_Propose \<longrightarrow> r = R_Digest null_proposal"
      by (auto simp: propose_def bind_act_def waits_after_def)
  qed
  with bp.run_app_inv [OF start assms(3,4)] show ?thesis by (simp add: waits_after_def)
qed

lemma first_proposal_blocks:
  "already_proposed_at_height (aw_app after_first_proposal)"
  "app_block_relay_sender (aw_app after_first_proposal) \<noteq> app_block_relay_sender (aw_app reth_start)"
  by (simp_all add: after_first_proposal_def app_update_simps application_new_def
      already_proposed_at_height_def reth_start_def)

theorem proposals_wait_for_finalization_witness:
  "list_all2 (\<lambda>m r. m = M_Propose \<longrightarrow> r = R_Digest null_proposal)
     [M_Verify 3, M_Propose] [R_Bool True, R_Digest null_proposal]"
proof -
  have "\<exists>w'. run_app reth_app_env [M_Verify 3, M_Propose] after_first_proposal =
      Some ([R_Bool True, R_Digest null_proposal], w')"
    using first_proposal_blocks(1)
    by (simp add: verify_def null_proposal_digest_def propose_def bind_act_def
        already_proposed_iff)
  then obtain w' where run: "run_app reth_app_env [M_Verify 3, M_Propose] after_first_proposal =
      Some ([R_Bool True, R_Digest null_proposal], w')" by blast
  have "list_all not_finalize [M_Verify 3, M_Propose]" by (simp add: not_finalize_def)
  from proposals_wait_for_finalization [OF first_propose first_proposal_blocks(2) this run]
  show ?thesis by blast
qed

section \<open>Digests, blocks and payloads\<close>

text \<open>
  What an honest relay sends: the block of the payload under the digest of its hash. While only
  such messages arrive, the two maps stay together.
\<close>

definition honest :: "'w app_env \<Rightarrow> message \<Rightarrow> bool" where
  "honest E m = (case m of
     M_ReceiveBlock d b p \<Rightarrow>
       b = build_block_from_payload p \<and> d = compute_digest E (pl_block_hash p)
   | _ \<Rightarrow> True)"

definition keyed_inv :: "'w app_env \<Rightarrow> app \<Rightarrow> bool" where
  "keyed_inv E a \<longleftrightarrow>
     (\<forall>d. app_pending_blocks a d = None \<longrightarrow> app_pending_payloads a d = None) \<and>
     (\<forall>d b. app_pending_blocks a d = Some b \<longrightarrow>
       (\<exists>p. app_pending_payloads a d = Some p \<and> b = build_block_from_payload p \<and>
         d = compute_digest E (pl_block_hash p)))"

interpretation ki: app_invariant "keyed_inv E" "honest E" E for E :: "'w app_env"
  by unfold_locales
    (auto simp: keyed_inv_def app_update_simps honest_def is_stale_def)

text \<open>
  C14: finalizing moves reth to the finalized block. After a run in which every relayed block was
  honest, a finalization that reports block \<open>b\<close> has found the payload that \<open>b\<close> was built from, under
  the digest of its hash, has applied that payload to reth, and sets the last hash to its hash; if
  reth accepted it, head and safe of the client's forkchoice are the new last hash, otherwise the
  forkchoice is unchanged (the application advances in both cases).
\<close>

theorem finalize_moves_reth:
  assumes start: "aw_app w0 = application_new c"
    and run: "list_all (honest E) ms" "run_app E ms w0 = Some (rs, w)"
    and builder: "ae_builder E = builder_client X"
    and fin: "finalize E d w = Some (Some b, w')"
  shows "\<exists>p r. app_pending_payloads (aw_app w) d = Some p \<and> b = build_block_from_payload p \<and>
    d = compute_digest E (blk_block_hash b) \<and>
    apply_built_payload X p (aw_world w) = Some (r, aw_world w') \<and>
    app_last_hash (aw_app w') = pl_block_hash p \<and>
    ew_forkchoice (aw_world w') =
      (case r of Inr _ \<Rightarrow> with_soft (ew_forkchoice (aw_world w)) (app_last_hash (aw_app w'))
       | Inl _ \<Rightarrow> ew_forkchoice (aw_world w))"
proof -
  have "keyed_inv E (aw_app w)"
    by (rule ki.run_app_inv [OF _ run]) (simp add: start keyed_inv_def application_new_def)
  moreover have pending: "app_pending_blocks (aw_app w) d = Some b"
    and after: "aw_app w' = after_finalize d b (aw_app w)"
    using fin by (cases rule: finalize_cases; simp)+
  ultimately obtain p where p: "app_pending_payloads (aw_app w) d = Some p"
    "b = build_block_from_payload p" "d = compute_digest E (pl_block_hash p)"
    unfolding keyed_inv_def by blast
  obtain r where r: "apply_built_payload X p (aw_world w) = Some (r, aw_world w')"
    using fin p(1) pending unfolding finalize_def
    by (auto simp: Let_def apply_to_reth_def in_client_Some remove_block_def builder
        builder_client_def elim!: act_elims split: if_splits sum.splits)
  have "app_last_hash (aw_app w') = pl_block_hash p"
    using p(2) by (simp add: after app_update_simps)
  with r p bc.apply_cache [of X p "aw_world w" r "aw_world w'"] show ?thesis
    by (auto simp: builder_client_def split: sum.split)
qed

theorem finalize_moves_reth_witness:
  "\<exists>p r. app_pending_payloads (aw_app after_first_proposal) first_digest = Some p \<and>
    build_block_from_payload first_payload = build_block_from_payload p \<and>
    first_digest = compute_digest reth_app_env (blk_block_hash (build_block_from_payload first_payload)) \<and>
    apply_built_payload reth_env p (aw_world after_first_proposal) =
      Some (r, aw_world after_first_finalize) \<and>
    app_last_hash (aw_app after_first_finalize) = pl_block_hash p \<and>
    ew_forkchoice (aw_world after_first_finalize) =
      (case r of Inr _ \<Rightarrow> with_soft (ew_forkchoice (aw_world after_first_proposal))
           (app_last_hash (aw_app after_first_finalize))
       | Inl _ \<Rightarrow> ew_forkchoice (aw_world after_first_proposal))"
proof -
  have run: "run_app reth_app_env [M_Propose] reth_start =
      Some ([R_Digest first_digest], after_first_proposal)"
    by (simp add: first_propose bind_act_def)
  show ?thesis
    by (rule finalize_moves_reth [OF _ _ run _ first_finalize])
      (simp_all add: reth_start_def honest_def reth_app_env_def)
qed

text \<open>
  C39: the digest of a relayed block is not checked. Whatever block, payload and digest a relay
  message carries, if the digest is new, the block has the current height and reth takes the
  payload, then finalizing the digest makes the block's hash the last hash of the application and
  the payload's hash the head of reth: with different hashes the two disagree at once.
\<close>

theorem relayed_digest_unchecked:
  assumes "ae_builder E = builder_client X"
    and "app_pending_blocks (aw_app w) d = None" "block_height b = app_height (aw_app w)"
    and "import_payload X p (aw_world w) = Some (r1, x1)"
    and "apply_built_payload X p x1 = Some (Inr (), x2)"
  shows "\<exists>w'. run_app E [M_ReceiveBlock d b p, M_Finalize d] w = Some ([R_Nothing, R_Nothing], w') \<and>
    app_last_hash (aw_app w') = blk_block_hash b \<and>
    fc_head (ew_forkchoice (aw_world w')) = pl_block_hash p"
proof -
  have "ew_forkchoice x2 = with_soft (ew_forkchoice x1) (pl_block_hash p)"
    using bc.apply_cache [of X p x1 "Inr ()" x2] assms(5) by (simp add: builder_client_def)
  with assms show ?thesis
    by (simp add: bind_act_def handle_receive_block_apply finalize_def is_valid_height_def
        app_update_simps Let_def apply_to_reth_def in_client_def builder_client_def)
qed

definition forged_block :: block where
  "forged_block = (build_block_from_payload first_payload)\<lparr>blk_block_hash := 666\<rparr>"

lemma import_first:
  "import_payload reth_env first_payload reth_world = Some (Inr (),
     reth_world\<lparr>ew_outside := (ew_outside reth_world)
       \<lparr>reth_now := 101, reth_known := [(1000, 1, 102), (7, 0, 5)]\<rparr>\<rparr>)"
  by (simp add: import_payload_def to_execution_payload_def first_payload_def reth_defs
      bind_try_def bind_act_def)

theorem relayed_digest_unchecked_witness:
  "\<exists>w'. run_app reth_app_env [M_ReceiveBlock 1 forged_block first_payload, M_Finalize 1] reth_start =
      Some ([R_Nothing, R_Nothing], w') \<and>
    app_last_hash (aw_app w') = blk_block_hash forged_block \<and>
    fc_head (ew_forkchoice (aw_world w')) = pl_block_hash first_payload"
proof -
  have w: "aw_world reth_start = reth_world" "app_pending_blocks (aw_app reth_start) 1 = None"
    by (simp_all add: reth_start_def application_new_def)
  have "block_height forged_block = app_height (aw_app reth_start)"
    by (simp add: forged_block_def reth_start_def application_new_def reth_config_def
        block_height_def first_payload_def build_block_from_payload_def block_new_def Let_def)
  moreover have "\<exists>x2. apply_built_payload reth_env first_payload
      (reth_world\<lparr>ew_outside := (ew_outside reth_world)
         \<lparr>reth_now := 101, reth_known := [(1000, 1, 102), (7, 0, 5)]\<rparr>\<rparr>) = Some (Inr (), x2)"
    by (simp add: apply_built_payload_def call_new_payload_def update_forkchoice_for_payload_def
        to_execution_payload_def first_payload_def reth_defs bind_try_def bind_act_def
        check_payload_status_for_import_def Let_def)
  ultimately show ?thesis
    using relayed_digest_unchecked [where X = reth_env and E = reth_app_env and w = reth_start] w
      import_first by fastforce
qed

section \<open>Waiting for reth\<close>

text \<open>
  Waiting for reth returns within ten queries, and only reports \<open>Synced\<close> when one of them
  answered that the head is the application's last hash, with the timestamp it answered.
\<close>

theorem wait_for_reth_sync_synced:
  assumes "wait_for_reth_sync E w = Some (SR_Synced t, w')"
  shows "\<exists>k < 10. \<exists>w1 number. after_attempts (sync_attempt E) k 1 w = Some w1 \<and>
    bb_get_head (ae_builder E) (aw_world w1) =
      Some (Inr (app_last_hash (aw_app w), number, t), aw_world w')"
proof -
  from assms obtain k w1 where "k < 10" "after_attempts (sync_attempt E) k 1 w = Some w1"
    "sync_attempt E (1 + k) w1 = Some (Some (SR_Synced t), w')"
    unfolding wait_for_reth_sync_def max_sync_attempts_def sl.loop_result by auto
  moreover from this(2,3) have "\<exists>number. bb_get_head (ae_builder E) (aw_world w1) =
      Some (Inr (app_last_hash (aw_app w), number, t), aw_world w')"
    using sync_attempt_synced [of E "1 + k" w1 t w'] after_sync_attempts_app [of E k 1 w w1] by simp
  ultimately show ?thesis by blast
qed

theorem wait_for_reth_sync_synced_witness:
  "\<exists>k < 10. \<exists>w1 number. after_attempts (sync_attempt reth_app_env) k 1 reth_start = Some w1 \<and>
    bb_get_head (ae_builder reth_app_env) (aw_world w1) =
      Some (Inr (app_last_hash (aw_app reth_start), number, 5),
        reth_world\<lparr>ew_outside := tick (ew_outside reth_world)\<rparr>)"
proof -
  have "wait_for_reth_sync reth_app_env reth_start = Some (SR_Synced 5,
      reth_start\<lparr>aw_world := reth_world\<lparr>ew_outside := tick (ew_outside reth_world)\<rparr>\<rparr>)"
    by (simp add: wait_for_reth_sync_step query_reth_head_def reth_defs bind_act_def
        in_client_def Let_def check_sync_state_def)
  from wait_for_reth_sync_synced [OF this] show ?thesis by simp
qed

text \<open>It never panics when querying the head does not: the contract of the client.\<close>

lemma no_panic_sync_sleep [simp]: "no_panic (sync_sleep E) w"
  by (simp add: sync_sleep_def) (simp add: no_panic_def)

lemma no_panic_query_reth_head: "ae_builder E = builder_client X \<Longrightarrow> no_panic (query_reth_head E) w"
  unfolding query_reth_head_def using bc.head_total [of X]
  by (intro no_panic_intros) (auto split: sum.splits)

lemma no_panic_wait_for_reth_sync:
  assumes "ae_builder E = builder_client X"
  shows "no_panic (wait_for_reth_sync E) w"
  unfolding wait_for_reth_sync_def no_panic_def
proof (rule sl.loop_total)
  fix i w
  have "no_panic (sync_attempt E i) w"
    unfolding sync_attempt_def
  proof (rule no_panic_bind_act [OF no_panic_query_reth_head [OF assms]])
    fix h and w' :: "'a exec_world app_world"
    have sleep: "no_panic (bind_act (sync_sleep E) (\<lambda>_. ret None)) w'"
      for w' :: "'a exec_world app_world"
      by (intro no_panic_intros) simp
    show "no_panic (case h of
       None \<Rightarrow> bind_act (sync_sleep E) (\<lambda>_. ret None)
     | Some head \<Rightarrow> get_app (\<lambda>a.
         case check_sync_state a head of
           SC_Synced \<Rightarrow> ret (Some (SR_Synced (rh_timestamp head)))
         | SC_Behind \<Rightarrow> bind_act (sync_sleep E) (\<lambda>_. ret None)
         | SC_Diverged \<Rightarrow> ret (Some SR_Failed))) w'"
      using sleep by (auto simp: no_panic_def split: option.split sync_check.split)
  qed
  then show "sync_attempt E i w \<noteq> None" by (simp add: no_panic_def)
qed simp

section \<open>What is proposed\<close>

lemma wall_clock_Some:
  "wall_clock E w = Some (t, w') \<longleftrightarrow>
     wall_clock_timestamp (ae_host E) (aw_world w) = (t, aw_world w') \<and> aw_app w' = aw_app w"
  by (simp add: wall_clock_def in_client_Some)

lemma can_build_block_Some:
  "can_build_block E timing parent w = Some (r, w') \<longleftrightarrow>
     (\<exists>now. wall_clock E w = Some (now, w') \<and>
        r = (case timing of Vanilla \<Rightarrow> now > parent | Subsecond \<Rightarrow> now \<ge> parent))"
  by (auto simp: can_build_block_def bind_act_Some)

lemma build_via_reth_Some:
  assumes "build_via_reth E timestamp w = Some (Some payload, w')"
  obtains payload_id x where
    "bb_start_building (ae_builder E) (app_last_hash (aw_app w)) timestamp (app_proposer (aw_app w))
       (aw_world w) = Some (Inr payload_id, x)"
    "bb_get_payload (ae_builder E) payload_id x = Some (Inr payload, aw_world w')"
  using assms unfolding build_via_reth_def
  by (auto simp: in_client_Some elim!: act_elims split: sum.splits)

lemma propose_built:
  assumes "propose E w = Some (d, w')"
    and "app_block_relay_sender (aw_app w') \<noteq> app_block_relay_sender (aw_app w)"
  obtains parent_timestamp w1 w2 now timestamp w3 payload w4 where
    "wait_for_reth_sync E w = Some (SR_Synced parent_timestamp, w1)"
    "wall_clock E w1 = Some (now, w2)"
    "case app_block_timing (aw_app w) of Vanilla \<Rightarrow> now > parent_timestamp
       | Subsecond \<Rightarrow> now \<ge> parent_timestamp"
    "wall_clock E w2 = Some (timestamp, w3)"
    "build_via_reth E timestamp w3 = Some (Some payload, w4)"
    "complete_proposal E payload w4 = Some (d, w')"
  using assms unfolding propose_def
  by (auto simp: can_build_block_Some elim!: act_elims dest: wait_for_reth_sync_app
      split: if_splits sync_result.splits option.splits)
    (metis wait_for_reth_sync_app wall_clock_app build_via_reth_app)+

text \<open>
  C25: what a proposal contains. When a proposal puts something on the relay, reth was asked for its
  head and answered the last hash of the application, the payload was built on that hash for the
  configured proposer with a timestamp after the head's (not before it with subsecond timing),
  provided the wall clock does not go backwards between two readings, and the relay gets the block of
  that payload under the digest of its hash.
\<close>

theorem proposal_extends_head:
  assumes clock: "\<forall>x. fst (wall_clock_timestamp (ae_host E) x) \<le>
      fst (wall_clock_timestamp (ae_host E) (snd (wall_clock_timestamp (ae_host E) x)))"
    and propose: "propose E w = Some (d, w')"
    and proposed: "app_block_relay_sender (aw_app w') \<noteq> app_block_relay_sender (aw_app w)"
  shows "\<exists>number parent_timestamp timestamp payload_id payload x0 x1 x2 x3.
    bb_get_head (ae_builder E) x0 =
      Some (Inr (app_last_hash (aw_app w), number, parent_timestamp), x1) \<and>
    bb_start_building (ae_builder E) (app_last_hash (aw_app w)) timestamp (app_proposer (aw_app w)) x2 =
      Some (Inr payload_id, x3) \<and>
    bb_get_payload (ae_builder E) payload_id x3 = Some (Inr payload, aw_world w') \<and>
    (case app_block_timing (aw_app w) of Vanilla \<Rightarrow> parent_timestamp < timestamp
      | Subsecond \<Rightarrow> parent_timestamp \<le> timestamp) \<and>
    d = compute_digest E (pl_block_hash payload) \<and>
    app_block_relay_sender (aw_app w') = app_block_relay_sender (aw_app w) @
      [\<lparr>pb_digest = d, pb_block = build_block_from_payload payload, pb_payload = payload\<rparr>]"
proof -
  from propose_built [OF propose proposed] obtain parent_timestamp w1 w2 now timestamp w3 payload w4
    where s: "wait_for_reth_sync E w = Some (SR_Synced parent_timestamp, w1)"
    and now: "wall_clock E w1 = Some (now, w2)"
    and timing: "case app_block_timing (aw_app w) of Vanilla \<Rightarrow> now > parent_timestamp
       | Subsecond \<Rightarrow> now \<ge> parent_timestamp"
    and ts: "wall_clock E w2 = Some (timestamp, w3)"
    and b: "build_via_reth E timestamp w3 = Some (Some payload, w4)"
    and c: "complete_proposal E payload w4 = Some (d, w')" .
  have app: "aw_app w4 = aw_app w" "aw_app w3 = aw_app w"
    using s now ts b by (auto dest!: client_app)
  from s obtain k w0 where "sync_attempt E (1 + k) w0 = Some (Some (SR_Synced parent_timestamp), w1)"
    "after_attempts (sync_attempt E) k 1 w = Some w0"
    unfolding wait_for_reth_sync_def sl.loop_result by auto
  then obtain number x0 x1 where head: "bb_get_head (ae_builder E) x0 =
      Some (Inr (app_last_hash (aw_app w), number, parent_timestamp), x1)"
    using sync_attempt_synced after_sync_attempts_app by metis
  have "now \<le> timestamp"
    using clock [rule_format, of "aw_world w1"] now ts by (simp add: wall_clock_Some)
  with timing have late: "case app_block_timing (aw_app w) of Vanilla \<Rightarrow> parent_timestamp < timestamp
      | Subsecond \<Rightarrow> parent_timestamp \<le> timestamp"
    by (auto split: block_timing.splits)
  from b obtain payload_id x3 where built:
    "bb_start_building (ae_builder E) (app_last_hash (aw_app w)) timestamp (app_proposer (aw_app w))
       (aw_world w3) = Some (Inr payload_id, x3)"
    "bb_get_payload (ae_builder E) payload_id x3 = Some (Inr payload, aw_world w4)"
    by (rule build_via_reth_Some) (simp add: app)
  from c have d: "d = compute_digest E (pl_block_hash payload)" "aw_world w' = aw_world w4"
    "app_block_relay_sender (aw_app w') = app_block_relay_sender (aw_app w) @
      [\<lparr>pb_digest = d, pb_block = build_block_from_payload payload, pb_payload = payload\<rparr>]"
    by (auto simp: complete_proposal_app app_update_simps app)
  show ?thesis
    by (intro exI conjI) (rule head, rule built(1), use built(2) d in simp, rule late, rule d(1), rule d(3))
qed

theorem proposal_extends_head_witness:
  "\<exists>number parent_timestamp timestamp payload_id payload x0 x1 x2 x3.
    get_head reth_env x0 = Some (Inr (7, number, parent_timestamp), x1) \<and>
    start_building reth_env 7 timestamp 9 x2 = Some (Inr payload_id, x3) \<and>
    get_payload reth_env payload_id x3 = Some (Inr payload, aw_world after_first_proposal) \<and>
    parent_timestamp < timestamp \<and>
    first_digest = compute_digest reth_app_env (pl_block_hash payload)"
proof -
  have "\<forall>x. fst (wall_clock_timestamp (ae_host reth_app_env) x) \<le>
      fst (wall_clock_timestamp (ae_host reth_app_env)
        (snd (wall_clock_timestamp (ae_host reth_app_env) x)))"
    using reth_clock_mono by simp
  moreover have "app_block_relay_sender (aw_app after_first_proposal) \<noteq>
      app_block_relay_sender (aw_app reth_start)"
    by (simp add: after_first_proposal_def app_update_simps reth_start_def)
  ultimately show ?thesis
    using proposal_extends_head [OF _ first_propose]
    by (simp add: reth_start_def application_new_def reth_config_def del: reth_head_query
        reth_start_building reth_payload) blast
qed

section \<open>Verification\<close>

text \<open>
  Verification accepts every digest but the null one. It never consults reth or the block; it
  records what it accepts, and leaves everything else of the state alone.
\<close>

theorem verify_all_but_null:
  "\<exists>v. verify d w = Some (d \<noteq> null_proposal_digest,
     w\<lparr>aw_app := (aw_app w)\<lparr>app_verified := v\<rparr>\<rparr>) \<and>
     v = (if d = null_proposal_digest then app_verified (aw_app w)
          else insert d (app_verified (aw_app w)))"
  by (simp add: verify_def bind_act_def)

section \<open>The two tables of pending proposals\<close>

text \<open>A digest has a pending block exactly when it has a pending payload.\<close>

definition tables_agree :: "app \<Rightarrow> bool" where
  "tables_agree a \<longleftrightarrow> (\<forall>d. app_pending_payloads a d = None \<longleftrightarrow> app_pending_blocks a d = None)"

interpretation ta: app_invariant tables_agree "\<lambda>_. True" E for E :: "'w app_env"
  by unfold_locales (auto simp: tables_agree_def app_update_simps is_stale_def split: option.splits)

text \<open>
  C17: the state of the application is well formed. In every run from the initial state, whatever is
  relayed, proposed and finalized, the pending blocks and the pending payloads have the same
  digests. So the branch that finalizes a block without a payload is never taken: every block that
  is reported as final has had its payload sent to reth.
\<close>

theorem pending_tables_agree:
  assumes "aw_app w = application_new c" "run_app E ms w = Some (rs, w')"
  shows "dom (app_pending_payloads (aw_app w')) = dom (app_pending_blocks (aw_app w')) \<and>
    (\<forall>d b w''. finalize E d w' = Some (Some b, w'') \<longrightarrow>
      (\<exists>p r. app_pending_payloads (aw_app w') d = Some p \<and>
         bb_apply_built_payload (ae_builder E) p (aw_world w') = Some (r, aw_world w'')))"
proof -
  have "tables_agree (aw_app w')"
    by (rule ta.run_app_inv [where w = w and ms = ms]) (use assms in
      \<open>simp_all add: tables_agree_def application_new_def list_all_iff\<close>)
  then have dom: "dom (app_pending_payloads (aw_app w')) = dom (app_pending_blocks (aw_app w'))"
    by (auto simp: tables_agree_def dom_def)
  have "\<exists>p r. app_pending_payloads (aw_app w') d = Some p \<and>
      bb_apply_built_payload (ae_builder E) p (aw_world w') = Some (r, aw_world w'')"
    if fin: "finalize E d w' = Some (Some b, w'')" for d b w''
  proof -
    from fin have b: "app_pending_blocks (aw_app w') d = Some b" by (cases rule: finalize_cases; simp)
    with dom obtain p where p: "app_pending_payloads (aw_app w') d = Some p" by blast
    then have "\<exists>r. bb_apply_built_payload (ae_builder E) p (aw_world w') = Some (r, aw_world w'')"
      using fin b unfolding finalize_def
      by (auto simp: Let_def apply_to_reth_def in_client_Some remove_block_def elim!: act_elims
          split: if_splits sum.splits)
    with p show ?thesis by blast
  qed
  with dom show ?thesis by blast
qed

theorem pending_tables_agree_witness:
  "dom (app_pending_payloads (aw_app after_first_proposal)) = dom (app_pending_blocks (aw_app after_first_proposal)) \<and>
    (\<exists>p r. app_pending_payloads (aw_app after_first_proposal) first_digest = Some p \<and>
      apply_built_payload reth_env p (aw_world after_first_proposal) = Some (r, aw_world after_first_finalize))"
proof -
  have "run_app reth_app_env [M_Propose] reth_start = Some ([R_Digest first_digest], after_first_proposal)"
    by (simp add: first_propose bind_act_def)
  from pending_tables_agree [OF _ this, of reth_config] first_finalize show ?thesis
    by (fastforce simp: reth_start_def)
qed

section \<open>A finalization that is lost\<close>

text \<open>
  Messages after the finalization at height \<open>h\<close> was lost: only digests in \<open>F\<close> are finalized, and no
  block of height \<open>h\<close> is relayed under one of them. Everything else may arrive, \<open>Propose\<close> included.
\<close>

definition other_heights :: "u64 \<Rightarrow> digest set \<Rightarrow> message \<Rightarrow> bool" where
  "other_heights h F m = (case m of
     M_Finalize d \<Rightarrow> d \<in> F
   | M_ReceiveBlock d b p \<Rightarrow> d \<in> F \<longrightarrow> block_height b \<noteq> h
   | _ \<Rightarrow> True)"

text \<open>
  \<open>rs\<close> is what had been proposed, \<open>bs\<close> what had been reported, \<open>al\<close> whether the last proposal was at the
  height. The application is stuck at \<open>h\<close>, where it only holds blocks of its own under the digests in
  \<open>F\<close>, and none when it had proposed; or such a block got it going again.
\<close>

definition own_block :: "u64 \<Rightarrow> digest set \<Rightarrow> proposed_block list \<Rightarrow> proposed_block \<Rightarrow> app \<Rightarrow> bool" where
  "own_block h F rs p a \<longleftrightarrow> p \<in> set (drop (length rs) (app_block_relay_sender a)) \<and>
     pb_digest p \<in> F \<and> block_height (pb_block p) = h"

definition stuck_at :: "bool \<Rightarrow> u64 \<Rightarrow> digest set \<Rightarrow> proposed_block list \<Rightarrow> block list \<Rightarrow> app \<Rightarrow> bool" where
  "stuck_at al h F rs bs a \<longleftrightarrow> app_height a = h \<and> app_block_sender a = bs \<and>
     (al \<longrightarrow> already_proposed_at_height a \<and> app_block_relay_sender a = rs) \<and>
     (\<forall>d b. d \<in> F \<and> app_pending_blocks a d = Some b \<and> block_height b = h \<longrightarrow>
       (\<exists>p. own_block h F rs p a \<and> pb_digest p = d \<and> pb_block p = b))"

definition going_again :: "bool \<Rightarrow> u64 \<Rightarrow> digest set \<Rightarrow> proposed_block list \<Rightarrow> block list \<Rightarrow> app \<Rightarrow> bool" where
  "going_again al h F rs bs a \<longleftrightarrow> \<not> al \<and>
     (\<exists>p rest. own_block h F rs p a \<and> app_block_sender a = bs @ pb_block p # rest)"

definition stalled :: "bool \<Rightarrow> u64 \<Rightarrow> digest set \<Rightarrow> proposed_block list \<Rightarrow> block list \<Rightarrow> app \<Rightarrow> bool" where
  "stalled al h F rs bs a \<longleftrightarrow> length rs \<le> length (app_block_relay_sender a) \<and>
     (stuck_at al h F rs bs a \<or> going_again al h F rs bs a)"

lemma stalled_proposal:
  assumes "stalled al h F rs bs a" "\<not> already_proposed_at_height a"
  shows "stalled al h F rs bs (after_proposal d p a)"
proof -
  let ?a = "after_proposal d p a"
  let ?p = "\<lparr>pb_digest = d, pb_block = build_block_from_payload p, pb_payload = p\<rparr>"
  have relay: "app_block_relay_sender ?a = app_block_relay_sender a @ [?p]"
    and same: "app_height ?a = app_height a" "app_block_sender ?a = app_block_sender a"
    and pending: "app_pending_blocks ?a = (app_pending_blocks a)(d \<mapsto> build_block_from_payload p)"
    by (simp_all add: after_proposal_def broadcast_to_relay_def)
  have "length rs \<le> length (app_block_relay_sender a)" using assms(1) by (simp add: stalled_def)
  then have own: "own_block h F rs q ?a \<longleftrightarrow> own_block h F rs q a \<or>
      q = ?p \<and> d \<in> F \<and> block_height (build_block_from_payload p) = h" for q
    by (auto simp: own_block_def relay)
  have "stuck_at al h F rs bs a \<Longrightarrow> stuck_at al h F rs bs ?a"
    using assms(2) by (auto simp: stuck_at_def own same pending)
  moreover have "going_again al h F rs bs a \<Longrightarrow> going_again al h F rs bs ?a"
    by (auto simp: going_again_def own same)
  ultimately show ?thesis using assms by (auto simp: stalled_def relay)
qed

text \<open>Nothing but a proposal and a finalization changes what matters here.\<close>

lemma stalled_frame:
  assumes "stalled al h F rs bs a" "app_block_relay_sender a' = app_block_relay_sender a"
    "app_height a' = app_height a" "app_block_sender a' = app_block_sender a"
    "app_last_proposed_height a' = app_last_proposed_height a"
    and "\<And>d b. d \<in> F \<Longrightarrow> app_pending_blocks a' d = Some b \<Longrightarrow> block_height b = h \<Longrightarrow>
      app_pending_blocks a d = Some b"
  shows "stalled al h F rs bs a'"
proof -
  have own: "own_block h F rs q a' = own_block h F rs q a" for q
    by (simp add: own_block_def assms(2))
  have proposed: "already_proposed_at_height a' = already_proposed_at_height a"
    by (simp add: already_proposed_iff assms(3,5))
  have "stuck_at al h F rs bs a \<Longrightarrow> stuck_at al h F rs bs a'"
    using assms(6) unfolding stuck_at_def by (simp add: own proposed assms(2-4))
  moreover have "going_again al h F rs bs a \<Longrightarrow> going_again al h F rs bs a'"
    by (simp add: going_again_def own assms(4))
  ultimately show ?thesis using assms(1) by (auto simp: stalled_def assms(2))
qed

lemma stalled_finalize:
  assumes "stalled al h F rs bs a" "app_pending_blocks a d = Some b" "block_height b = app_height a"
    and "d \<in> F"
  shows "stalled al h F rs bs (after_finalize d b a)"
proof -
  let ?a = "after_finalize d b a"
  have sent: "app_block_sender ?a = app_block_sender a @ [b]"
    and relay: "app_block_relay_sender ?a = app_block_relay_sender a"
    by (simp_all add: app_update_simps)
  have own: "own_block h F rs q ?a = own_block h F rs q a" for q
    by (simp add: own_block_def relay)
  have "going_again al h F rs bs ?a"
  proof (cases "stuck_at al h F rs bs a")
    case True
    with assms(2-4) obtain p where p: "own_block h F rs p a" "pb_block p = b"
      unfolding stuck_at_def by blast
    then have "app_block_relay_sender a \<noteq> rs" by (auto simp: own_block_def)
    with True p show ?thesis by (auto simp: going_again_def own sent stuck_at_def)
  next
    case False
    with assms(1) show ?thesis by (auto simp: stalled_def going_again_def own sent)
  qed
  with assms(1) show ?thesis by (simp add: stalled_def relay)
qed

interpretation ls: app_invariant "stalled al h F rs bs" "other_heights h F" E
  for al h F rs bs and E :: "'w app_env"
proof unfold_locales
  fix a d b p
  assume a: "stalled al h F rs bs a"
  show "stalled al h F rs bs (a\<lparr>app_verified := v\<rparr>)" for v
    by (rule stalled_frame [OF a]) simp_all
  show "stalled al h F rs bs (remove_payload d a)"
    by (rule stalled_frame [OF a]) (simp_all add: remove_payload_def)
  show "stalled al h F rs bs (remove_payload d (remove_block d a))"
    by (rule stalled_frame [OF a]) (simp_all add: remove_payload_def remove_block_def split: if_splits)
  show "other_heights h F (M_ReceiveBlock d b p) \<Longrightarrow> stalled al h F rs bs (after_receive d b p a)"
    by (rule stalled_frame [OF a]) (simp_all add: after_receive_def other_heights_def split: if_splits)
qed (simp_all add: stalled_proposal stalled_finalize other_heights_def)

lemma lost_finalization_stalled:
  assumes "\<forall>d \<in> F. \<forall>b. app_pending_blocks (aw_app w) d = Some b \<longrightarrow> block_height b \<noteq> app_height (aw_app w)"
    and "list_all (other_heights (app_height (aw_app w)) F) ms" "run_app E ms w = Some (rs, w')"
  shows "app_height (aw_app w') = app_height (aw_app w) \<and>
      app_block_sender (aw_app w') = app_block_sender (aw_app w) \<or>
    \<not> already_proposed_at_height (aw_app w) \<and>
    (\<exists>p rest. own_block (app_height (aw_app w)) F (app_block_relay_sender (aw_app w)) p (aw_app w') \<and>
      app_block_sender (aw_app w') = app_block_sender (aw_app w) @ pb_block p # rest)"
proof -
  have "stalled (already_proposed_at_height (aw_app w)) (app_height (aw_app w)) F (app_block_relay_sender (aw_app w))
      (app_block_sender (aw_app w)) (aw_app w')"
    by (rule ls.run_app_inv [OF _ assms(2,3)]) (use assms(1) in \<open>auto simp: stalled_def stuck_at_def\<close>)
  then show ?thesis by (auto simp: stalled_def stuck_at_def going_again_def)
qed

end
