(* ===== verification/Runtime_Props.thy ===== *)
theory Runtime_Props
  imports Cli Node_Props Application_Props "HOL-Library.Sublist"
begin

text \<open>
  Properties of the consensus runtime: when every height has exactly one leader, what the
  finalization loop does with the sequencer's callback, what happens to relayed blocks, and what the
  reporter passes on.
\<close>

section \<open>Leaders\<close>

text \<open>
  What the code relies on of the ordered set of participants: it has the same keys, each once.
  \<open>leads\<close> is the leader flag that the validator with key \<open>pk\<close> computes for a height.
\<close>

definition dedups :: "('pk list \<Rightarrow> 'pk list) \<Rightarrow> bool" where
  "dedups dedup \<longleftrightarrow> (\<forall>xs. set (dedup xs) = set xs \<and> distinct (dedup xs))"

definition leads :: "('pk list \<Rightarrow> 'pk list) \<Rightarrow> 'pk list \<Rightarrow> u64 \<Rightarrow> 'pk \<Rightarrow> bool" where
  "leads dedup validators h pk =
     (case position (\<lambda>x. x = pk) validators of
        None \<Rightarrow> False
      | Some i \<Rightarrow> is_leader i h (length (dedup validators)) = Some True)"

lemma length_dedup: "dedups dedup \<Longrightarrow> length (dedup xs) = card (set xs)"
  unfolding dedups_def using distinct_card [of "dedup xs"] by metis

lemma leads_iff:
  assumes "dedups dedup" "vs \<noteq> []"
  shows "leads dedup vs h pk \<longleftrightarrow> position (\<lambda>x. x = pk) vs = Some (unat h mod card (set vs))"
  using assms by (auto simp: leads_def is_leader_def leader_index_def length_dedup split: option.split)

lemma some_leader_iff:
  assumes "dedups dedup" "vs \<noteq> []"
  shows "(\<exists>pk. leads dedup vs h pk) \<longleftrightarrow>
    vs ! (unat h mod card (set vs)) \<notin> set (take (unat h mod card (set vs)) vs)"
proof -
  let ?i = "unat h mod card (set vs)"
  have "card (set vs) > 0" using assms(2) by (simp add: card_gt_0_iff)
  then have i: "?i < length vs" using card_length [of vs] mod_less_divisor less_le_trans by blast
  have "(\<exists>pk. position (\<lambda>x. x = pk) vs = Some ?i) \<longleftrightarrow> position (\<lambda>x. x = vs ! ?i) vs = Some ?i"
    by (auto simp: position_Some)
  then show ?thesis
    using leads_iff [OF assms] position_at [OF i] by simp
qed

lemma leader_unique:
  "dedups dedup \<Longrightarrow> vs \<noteq> [] \<Longrightarrow> leads dedup vs h a \<Longrightarrow> leads dedup vs h b \<Longrightarrow> a = b"
  by (auto simp: leads_iff position_Some)

text \<open>
  C28: every height has exactly one leader if and only if the configured list of validator keys
  starts with as many distinct keys as it has at all; no height ever has two. A list of distinct
  keys is such a list. A list that repeats a key before a new one is not: then some heights have no
  leader, and the blocks finalized there are submitted to Celestia by nobody.
\<close>

theorem one_leader_iff:
  assumes "dedups dedup" "vs \<noteq> []" "length vs < 2 ^ 64"
  shows "(\<forall>h. \<exists>!pk. leads dedup vs h pk) \<longleftrightarrow> distinct (take (card (set vs)) vs)"
proof -
  let ?n = "card (set vs)"
  have n: "?n > 0" using assms(2) by (simp add: card_gt_0_iff)
  have le: "?n \<le> length vs" by (rule card_length)
  have "(\<forall>h. \<exists>!pk. leads dedup vs h pk) \<longleftrightarrow> (\<forall>h. \<exists>pk. leads dedup vs h pk)"
    using leader_unique [OF assms(1,2)] by blast
  also have "\<dots> \<longleftrightarrow> (\<forall>h. vs ! (unat (h :: u64) mod ?n) \<notin> set (take (unat h mod ?n) vs))"
    using some_leader_iff [OF assms(1,2)] by simp
  also have "\<dots> \<longleftrightarrow> (\<forall>i < ?n. vs ! i \<notin> set (take i vs))"
  proof
    assume h: "\<forall>h. vs ! (unat (h :: u64) mod ?n) \<notin> set (take (unat h mod ?n) vs)"
    show "\<forall>i < ?n. vs ! i \<notin> set (take i vs)"
    proof (intro allI impI)
      fix i assume "i < ?n"
      then have "unat (of_nat i :: u64) mod ?n = i"
        using le assms(3) by (simp add: unat_of_nat take_bit_nat_eq_self)
      with h [rule_format, of "of_nat i"] show "vs ! i \<notin> set (take i vs)" by simp
    qed
  next
    assume "\<forall>i < ?n. vs ! i \<notin> set (take i vs)"
    then show "\<forall>h. vs ! (unat (h :: u64) mod ?n) \<notin> set (take (unat h mod ?n) vs)"
      using n by simp
  qed
  also have "\<dots> \<longleftrightarrow> distinct (take ?n vs)"
    unfolding distinct_take_iff using le by fastforce
  finally show ?thesis .
qed

lemma dedups_remdups: "dedups remdups"
  by (simp add: dedups_def)

theorem one_leader_iff_witness:
  "(\<forall>h. \<exists>!pk. leads remdups [10, 20, 30 :: nat] h pk) \<and>
   \<not> (\<forall>h. \<exists>!pk. leads remdups [10, 10, 20 :: nat] h pk)"
proof
  show "\<forall>h. \<exists>!pk. leads remdups [10, 20, 30 :: nat] h pk"
    by (subst one_leader_iff) (simp_all add: dedups_remdups)
  show "\<not> (\<forall>h. \<exists>!pk. leads remdups [10, 10, 20 :: nat] h pk)"
    by (subst one_leader_iff) (simp_all add: dedups_remdups)
qed

section \<open>The finalization loop\<close>

text \<open>The blocks before the first error, and whether there is none.\<close>

fun leading_blocks :: "receive_event list \<Rightarrow> block list" where
  "leading_blocks (RV_Received (Inr b) # es) = b # leading_blocks es"
| "leading_blocks _ = []"

definition only_blocks :: "receive_event list \<Rightarrow> bool" where
  "only_blocks es \<longleftrightarrow> list_all (\<lambda>e. \<exists>b. e = RV_Received (Inr b)) es"

lemma wait_for_block_Block: "wait_for_block e = BR_Block b \<longleftrightarrow> e = RV_Received (Inr b)"
  by (auto simp: wait_for_block_def split: receive_event.split sum.split)

lemma run_finalization_loop_node:
  assumes "validator_index pub c = Some i" "participants \<noteq> []"
  shows "run_finalization_loop pub c (create_finalization_callback X D) participants es n =
    map_option (\<lambda>(_, n'). (only_blocks es, n'))
      (run_node X D (map (\<lambda>b. NE_Finalized b (unat (block_height b) mod length participants = i))
         (leading_blocks es)) n)"
proof -
  have leader: "is_leader i h (length participants) = Some (unat h mod length participants = i)" for h
    using assms(2) by (simp add: is_leader_def leader_index_def)
  have step: "handle_finalized_block (create_finalization_callback X D) b i (length participants) n1 =
      node_step X D (NE_Finalized b (unat (block_height b) mod length participants = i)) n1" for b n1
    by (cases "process_finalized_block X D b (unat (block_height b) mod length participants = i) n1")
      (simp_all add: handle_finalized_block_def leader create_finalization_callback_def bind_act_def
        unwrap_def ret_def split: prod.split)
  have "finalization_loop (create_finalization_callback X D) i (length participants) es n =
    map_option (\<lambda>(_, n'). (only_blocks es, n'))
      (run_node X D (map (\<lambda>b. NE_Finalized b (unat (block_height b) mod length participants = i))
         (leading_blocks es)) n)"
  proof (induction es arbitrary: n rule: leading_blocks.induct)
    case (1 b es)
    then show ?case
      by (simp add: wait_for_block_def bind_act_def step only_blocks_def split: option.split)
  qed (simp_all add: wait_for_block_def only_blocks_def ret_def)
  with assms(1) show ?thesis
    by (simp add: run_finalization_loop_def bind_act_def unwrap_def ret_def)
qed

text \<open>
  C21: the runtime's loop with the sequencer's callback is the node that handles the finalized blocks
  one by one, each with the round-robin leader flag of this validator: it processes the blocks
  before the first receive error and none after it. A receiver that lags behind is such an error, so
  a node that is slow once stops executing finalized blocks for good; the loop is still waiting only
  if no error came.
\<close>

theorem finalization_loop_is_node:
  assumes "validator_index pub c = Some i" "participants \<noteq> []"
  shows "run_finalization_loop pub c (create_finalization_callback X D) participants es n =
    map_option (\<lambda>(_, n'). (only_blocks es, n'))
      (run_node X D (map (\<lambda>b. NE_Finalized b (unat (block_height b) mod length participants = i))
         (leading_blocks es)) n)"
  by (rule run_finalization_loop_node [OF assms])

text \<open>A validator whose key is its number, alone in the set.\<close>

definition demo_consensus :: consensus_config where
  "demo_consensus = (default_consensus 9)\<lparr>cs_validator_seeds := [5]\<rparr>"

definition demo_simplex :: "(u64, u64, string) simplex_config" where
  "demo_simplex = from_chain_config demo_consensus 5 [5] 9 ''listen'' ''dial'' [] ''data'' 7"

lemma demo_index: "validator_index id demo_simplex = Some 0"
  by (simp add: validator_index_def demo_simplex_def from_chain_config_def)

theorem finalization_loop_is_node_witness:
  "\<exists>n'. run_finalization_loop id demo_simplex
       (create_finalization_callback (execution_client reth_env) node_env) [5]
       [RV_Received (Inr first_block), RV_Received (Inl (Lagged 3)), RV_Received (Inr first_block)]
       demo_node = Some (False, n') \<and>
     run_node (execution_client reth_env) node_env [NE_Finalized first_block True] demo_node = Some ((), n')"
proof -
  obtain n1 where "run_node (execution_client reth_env) node_env [NE_Finalized first_block True] demo_node =
      Some ((), n1)"
    using demo_run by (auto simp: bind_act_def split: option.splits)
  then show ?thesis
    using finalization_loop_is_node [OF demo_index, of "[5]" "execution_client reth_env" node_env
        "[RV_Received (Inr first_block), RV_Received (Inl (Lagged 3)), RV_Received (Inr first_block)]"
        demo_node]
    by (simp add: only_blocks_def)
qed

section \<open>Relayed proposals\<close>

text \<open>What the code relies on of bincode: what it writes, it reads back.\<close>

definition bincode_ok :: "bincode \<Rightarrow> bool" where
  "bincode_ok B \<longleftrightarrow> (\<forall>p bs. bc_serialize B p = Inr bs \<longrightarrow> bc_deserialize B bs = Inr p)"

lemma handle_p2p_block_message:
  assumes "bc_deserialize B bs = Inr p"
  shows "handle_p2p_block B mb (Inr (pk, bs)) x =
    (True, snd (send_or_warn mb (M_ReceiveBlock (pb_digest p) (pb_block p) (pb_payload p)) x))"
  using assms by (simp add: handle_p2p_block_def deserialize_proposed_block_def mailbox_receive_block_def)

lemma propose_relays:
  assumes "propose E w = Some (d, w')"
    and "app_block_relay_sender (aw_app w') = app_block_relay_sender (aw_app w) @ [p]"
  shows "pb_digest p = d \<and> app_pending_blocks (aw_app w') d = Some (pb_block p)"
  using assms(1)
proof (cases rule: propose_cases)
  case null
  with assms(2) show ?thesis by simp
next
  case (built q)
  with assms(2) show ?thesis by (simp add: after_proposal_def broadcast_to_relay_def) (metis proposed_block.select_convs(1,2))
qed

lemma finalize_pending:
  assumes "finalize E d w = Some (Some b, w')"
  shows "app_pending_blocks (aw_app w) d = Some b \<and> block_height b = app_height (aw_app w) \<and>
    aw_app w' = after_finalize d b (aw_app w)"
  using assms by (cases rule: finalize_cases) auto

lemma receive_then_finalize:
  assumes "run_app E [M_ReceiveBlock d b p, M_Finalize d] v = Some (rs, v')"
    and "app_pending_blocks (aw_app v) d = None" "block_height b = app_height (aw_app v)"
  shows "\<exists>u. aw_app v' = after_finalize d b ((after_receive d b p (aw_app v))\<lparr>app_verified := u\<rparr>)"
proof -
  from assms(1) obtain r1 v1 r2 where recv: "handle_receive_block E d b p v = Some (r1, v1)"
    and fin: "finalize E d v1 = Some (r2, v')"
    by (auto elim!: act_elims)
  from recv show ?thesis
  proof (cases rule: handle_receive_block_cases)
    case known
    with assms(2) show ?thesis by simp
  next
    case (received u)
    then have "app_pending_blocks (aw_app v1) d = Some b" "app_height (aw_app v1) = app_height (aw_app v)"
      by (simp_all add: after_receive_def)
    with fin assms(3) received show ?thesis
      by (cases rule: finalize_cases) auto
  qed
qed

lemma after_finalize_app:
  "app_height (after_finalize d b a) = block_height b + 1"
  "app_last_hash (after_finalize d b a) = blk_block_hash b"
  "app_block_sender (after_finalize d b a) = app_block_sender a @ [b]"
  by (simp_all add: after_finalize_def broadcast_finalized_def cleanup_stale_blocks_def
      remove_payload_def remove_block_def)

text \<open>
  C19: validators agree on a relayed proposal. The proposal that a leader relays, serialised, sent to
  another validator, read there, taken by its mailbox and finalized under its digest, leaves that
  validator at the same height and last hash as finalizing it leaves the leader, and both report
  the same block: whatever the two reth clients do, provided the follower was at the same height and
  did not know the digest.
\<close>

theorem relayed_proposal_agrees:
  assumes "bincode_ok B" and "records_messages mb taken"
    and leader: "propose E w = Some (d, w1)" "finalize E d w1 = Some (Some b, w2)"
    and relay: "app_block_relay_sender (aw_app w1) = app_block_relay_sender (aw_app w) @ [p]"
    and wire: "bc_serialize B p = Inr bs"
    and mailbox: "fst (mb_try_send mb (M_ReceiveBlock d b (pb_payload p)) x)"
    and follower: "app_pending_blocks (aw_app v) d = None" "app_height (aw_app v) = app_height (aw_app w1)"
  shows "\<exists>x1. handle_p2p_block B mb (Inr (pk, bs)) x = (True, x1) \<and>
    taken x1 = taken x @ [M_ReceiveBlock d b (pb_payload p)] \<and>
    (case run_app F [M_ReceiveBlock d b (pb_payload p), M_Finalize d] v of None \<Rightarrow> True
     | Some (rs, v') \<Rightarrow>
         app_height (aw_app v') = app_height (aw_app w2) \<and>
         app_last_hash (aw_app v') = app_last_hash (aw_app w2) \<and>
         app_block_sender (aw_app v') = app_block_sender (aw_app v) @ [b])"
proof -
  have p: "pb_digest p = d" "app_pending_blocks (aw_app w1) d = Some (pb_block p)"
    using propose_relays [OF leader(1) relay] by simp_all
  have fin: "app_pending_blocks (aw_app w1) d = Some b" "block_height b = app_height (aw_app w1)"
      "aw_app w2 = after_finalize d b (aw_app w1)"
    using finalize_pending [OF leader(2)] by simp_all
  have b: "pb_block p = b" using p(2) fin(1) by simp
  have read: "bc_deserialize B bs = Inr p" using assms(1) wire by (simp add: bincode_ok_def)
  have same: "case run_app F [M_ReceiveBlock d b (pb_payload p), M_Finalize d] v of None \<Rightarrow> True
     | Some (rs, v') \<Rightarrow>
         app_height (aw_app v') = app_height (aw_app w2) \<and>
         app_last_hash (aw_app v') = app_last_hash (aw_app w2) \<and>
         app_block_sender (aw_app v') = app_block_sender (aw_app v) @ [b]"
  proof (cases "run_app F [M_ReceiveBlock d b (pb_payload p), M_Finalize d] v")
    case (Some a)
    obtain rs v' where a: "a = (rs, v')" by (cases a)
    have "block_height b = app_height (aw_app v)" using follower(2) fin(2) by simp
    from receive_then_finalize [OF Some [unfolded a] follower(1) this] Some a fin(3)
    show ?thesis by (auto simp: after_finalize_app after_receive_def)
  qed simp
  show ?thesis
    unfolding handle_p2p_block_message [OF read] p(1) b
    using taken_send_accepted [OF assms(2) mailbox] same by blast
qed

definition demo_proposed :: proposed_block where
  "demo_proposed = \<lparr>pb_digest = first_digest, pb_block = first_block, pb_payload = first_payload\<rparr>"

definition demo_bincode :: bincode where
  "demo_bincode =
     \<lparr>bc_serialize = (\<lambda>p. if p = demo_proposed then Inr [1] else Inl ''unknown''),
      bc_deserialize = (\<lambda>bs. if bs = [1] then Inr demo_proposed else Inl ''malformed'')\<rparr>"

definition list_mailbox :: "(message list) mailbox" where
  "list_mailbox = \<lparr>mb_try_send = (\<lambda>m q. (True, q @ [m])), mb_await = (\<lambda>q. (None, q))\<rparr>"

lemma demo_relay:
  "bincode_ok demo_bincode" "records_messages list_mailbox (\<lambda>q. q)"
  "app_block_relay_sender (aw_app after_first_proposal) =
     app_block_relay_sender (aw_app reth_start) @ [demo_proposed]"
  "bc_serialize demo_bincode demo_proposed = Inr [1]"
  "fst (mb_try_send list_mailbox m q)"
  "app_pending_blocks (aw_app reth_start) d = None"
  "app_height (aw_app reth_start) = app_height (aw_app after_first_proposal)"
  by (simp_all add: bincode_ok_def demo_bincode_def records_messages_def list_mailbox_def
      after_first_proposal_def after_proposal_def broadcast_to_relay_def demo_proposed_def
      first_block_def reth_start_def application_new_def reth_config_def)

theorem relayed_proposal_agrees_witness:
  "\<exists>x1. handle_p2p_block demo_bincode list_mailbox (Inr (3 :: nat, [1])) [] = (True, x1) \<and>
    x1 = [M_ReceiveBlock first_digest first_block first_payload] \<and>
    (case run_app reth_app_env [M_ReceiveBlock first_digest first_block first_payload,
         M_Finalize first_digest] reth_start of None \<Rightarrow> True
     | Some (rs, v') \<Rightarrow> app_last_hash (aw_app v') = app_last_hash (aw_app after_first_finalize))"
proof -
  note fin = first_finalize [folded first_block_def]
  from relayed_proposal_agrees [OF demo_relay(1,2) first_propose fin demo_relay(3,4) demo_relay(5,6,7),
      where F = reth_app_env and pk = "3 :: nat" and x = "[]"]
  show ?thesis
    by (auto simp: demo_proposed_def split: option.splits)
qed

section \<open>A full mailbox\<close>






end
