(* ===== verification/Client_Props.thy ===== *)
theory Client_Props
  imports Model_Reth
begin

text \<open>
  The properties of the Engine API client: the initialisation loop returns within its thirty
  attempts, the cached forkchoice is that of the last successful update, a block is only reported valid when
  reth says so, and applying a payload is importing it and moving head and safe.
\<close>

section \<open>Initialisation\<close>

lemma init_attempt_failed_cache:
  "init_attempt E s i w = Some (r, w') \<Longrightarrow> r \<noteq> Some (Inr ()) \<Longrightarrow> ew_forkchoice w' = ew_forkchoice w"
  unfolding init_attempt_def
  by (auto elim!: act_elims dest!: update_forkchoice_cache outside_forkchoice
      split: sum.splits if_splits)

lemma after_init_attempts_cache:
  "after_attempts (init_attempt E s) k i w = Some w' \<Longrightarrow> ew_forkchoice w' = ew_forkchoice w"
proof (induction k arbitrary: i w)
  case 0
  then show ?case by simp
next
  case (Suc k)
  then show ?case
    using init_attempt_failed_cache [of E s i w]
    by (auto split: option.splits)
qed

text \<open>
  C35: the initialisation of the forkchoice always returns. It panics on no answer of reth, never
  reaches the \<open>unreachable!()\<close> behind its loop, makes between one and thirty attempts, and its
  result is the result of the last one: the cached forkchoice is then genesis in all three pointers
  when it succeeds and unchanged when it fails.
\<close>

theorem init_forkchoice_returns:
  "\<exists>k < 30. \<exists>w1 r w'. after_attempts (init_attempt E (fc_genesis h)) k 1 w = Some w1 \<and>
     init_attempt E (fc_genesis h) (1 + k) w1 = Some (Some r, w') \<and>
     init_forkchoice E h w = Some (r, w') \<and>
     ew_forkchoice w' = (case r of Inr _ \<Rightarrow> fc_genesis h | Inl _ \<Rightarrow> ew_forkchoice w)"
proof -
  have run: "init_forkchoice E h w = init_forkchoice_loop E (fc_genesis h) 30 1 w"
    by (simp add: init_forkchoice_def fc_genesis_def max_init_retries_def)
  have never: "after_attempts (init_attempt E (fc_genesis h)) (Suc 29) 1 w = None"
    by (rule il.loop_last_stops) (use init_attempt_last in \<open>simp add: max_init_retries_def\<close>)
  have "init_forkchoice_loop E (fc_genesis h) (Suc 29) 1 w \<noteq> None"
    by (rule il.loop_last_returns)
      (use no_panic_init_attempt init_attempt_last in \<open>auto simp: no_panic_def max_init_retries_def\<close>)
  then obtain r w' where result: "init_forkchoice E h w = Some (r, w')"
    by (auto simp: run)
  then obtain k w1 where k: "k < 30" "after_attempts (init_attempt E (fc_genesis h)) k 1 w = Some w1"
    "init_attempt E (fc_genesis h) (1 + k) w1 = Some (Some r, w')"
    using never unfolding run il.loop_result by (auto simp: eval_nat_numeral)
  have "ew_forkchoice w' = (case r of Inr _ \<Rightarrow> fc_genesis h | Inl _ \<Rightarrow> ew_forkchoice w)"
    using k(2,3) init_attempt_Ok_cache init_attempt_failed_cache after_init_attempts_cache
    by (cases r) fastforce+
  with k result show ?thesis by blast
qed

lemma init_forkchoice_Ok_cache:
  assumes "init_forkchoice E h w = Some (Inr (), w')"
  shows "ew_forkchoice w' = fc_genesis h"
proof -
  from assms obtain k w1 where "init_attempt E (fc_genesis h) (1 + k) w1 = Some (Some (Inr ()), w')"
    unfolding init_forkchoice_def fc_genesis_def [symmetric] il.loop_result
    by (auto simp: panic_def fc_genesis_def)
  then show ?thesis by (rule init_attempt_Ok_cache)
qed

section \<open>The cached forkchoice\<close>

text \<open>
  The cached forkchoice is that of the last successful update. Updating the forkchoice returns on every
  answer of reth, and the cache is the requested state exactly when the result is \<open>Ok\<close>; reading it
  back gives the cache.
\<close>

theorem update_forkchoice_sets_cache:
  "\<exists>r w'. update_forkchoice E s w = Some (r, w') \<and>
     ew_forkchoice w' = (case r of Inr _ \<Rightarrow> s | Inl _ \<Rightarrow> ew_forkchoice w) \<and>
     forkchoice E w' = Some (Inr (case r of Inr _ \<Rightarrow> s | Inl _ \<Rightarrow> ew_forkchoice w), w')"
proof -
  obtain r w' where r: "update_forkchoice E s w = Some (r, w')"
    using no_panicD [OF no_panic_update_forkchoice] by blast
  have "ew_forkchoice w' = (case r of Inr _ \<Rightarrow> s | Inl _ \<Rightarrow> ew_forkchoice w)"
    by (rule update_forkchoice_cache [OF r])
  moreover have "forkchoice E w' = Some (Inr (ew_forkchoice w'), w')"
    by (simp add: forkchoice_def)
  ultimately show ?thesis using r by simp
qed

text \<open>
  Applying a payload is importing it and then making it head and safe. If the import fails its
  error is the result, and no forkchoice is sent.
\<close>

theorem apply_is_import_then_forkchoice:
  "apply_built_payload E p w =
     (case import_payload E p w of
        None \<Rightarrow> None
      | Some (Inl e, w1) \<Rightarrow> Some (Inl e, w1)
      | Some (Inr _, w1) \<Rightarrow>
          update_forkchoice E (with_soft (ew_forkchoice w1) (pl_block_hash p)) w1)"
proof -
  have last_ok: "bind_try m (\<lambda>_. ret (Inr ())) = m" for m :: "('a exec_world, exec_error + unit) act"
    by (rule ext) (simp add: bind_try_def split: option.split sum.split prod.split)
  have "apply_built_payload E p =
      bind_try (import_payload E p) (\<lambda>_. update_forkchoice_for_payload E p)"
    by (simp add: apply_built_payload_def import_is_call_new_payload last_ok)
  then show ?thesis
    by (simp add: bind_try_def update_forkchoice_for_payload_def with_soft_def
        split: option.split sum.split prod.split)
qed

text \<open>
  C36: a block is reported executed only as reth answered. A result of \<open>execute_block\<close> names the
  block's height, is never \<open>Invalid\<close> (that is an error), and is valid exactly when reth answered
  \<open>VALID\<close> to the payload rebuilt from the block.
\<close>

theorem execute_block_reports:
  assumes "execute_block E b w = Some (Inr res, w')"
  shows "er_block_number res = block_height b \<and> (\<forall>e. er_status res \<noteq> ES_Invalid e) \<and>
     (\<exists>payload response. build_payload (lib_alloy (ee_libs E)) b = Some payload \<and>
        new_payload_request E payload w = Some (Inr response, w') \<and>
        (execution_result_is_valid res \<longleftrightarrow> ps_status response = PS_Valid))"
  using execute_block_valid [OF assms] by blast

theorem execute_block_reports_witness:
  "\<exists>res w'. execute_block reth_env (build_block_from_payload first_payload) reth_world =
      Some (Inr res, w') \<and> er_block_number res = 1 \<and> (\<forall>e. er_status res \<noteq> ES_Invalid e)"
proof -
  have "\<exists>res w'. execute_block reth_env (build_block_from_payload first_payload) reth_world =
      Some (Inr res, w')"
    by (simp add: execute_block_def block_payload_same to_execution_payload_def bind_act_def
        bind_try_def reth_new_payload_def Let_def)
  then obtain res w' where res:
    "execute_block reth_env (build_block_from_payload first_payload) reth_world = Some (Inr res, w')"
    by blast
  from execute_block_reports [OF res] res show ?thesis
    by (auto simp: first_payload_def)
qed

end
