(* ===== verification/Startup_Props.thy ===== *)
theory Startup_Props
  imports Runtime_Props Application_Props Client_Props
begin

text \<open>
  Properties of the start of the sequencer: a runtime configuration that is built can be run, peers
  are read as they were written, the forkchoice is sound from the start on, and what the order of
  the start means for a node that synced blocks from Celestia.
\<close>

section \<open>The runtime configuration\<close>

lemma build_validator_set_Inr:
  assumes "build_validator_set K cs pk = Inr (vs, a)"
  shows "vs = map (\<lambda>seed. ka_public K (ka_from_seed K seed)) (cs_validator_seeds cs)" "pk \<in> set vs"
    "a = derive_our_address K pk"
  using assms by (auto simp: build_validator_set_def Let_def split: if_splits)

lemma build_runtime_config_Inr:
  assumes "build_runtime_config K A H cs g w = (Inr c, w')"
  shows "sc_validators c = map (\<lambda>seed. ka_public K (ka_from_seed K seed)) (cs_validator_seeds cs)"
    "ka_public K (sc_private_key c) \<in> set (sc_validators c)" "sc_initial_hash c = g"
    "sc_our_address c = derive_our_address K (ka_public K (sc_private_key c))"
    "sc_allow_private_ips c = cs_allow_private_ips cs"
proof -
  from assms obtain sk vs a where "build_validator_set K cs (ka_public K sk) = Inr (vs, a)"
    "sc_private_key c = sk" "sc_validators c = vs" "sc_our_address c = a"
    "sc_initial_hash c = g" "sc_allow_private_ips c = cs_allow_private_ips cs"
    unfolding build_runtime_config_def
    by (auto simp: Let_def split: prod.splits sum.splits)
  with build_validator_set_Inr [OF this(1)] show
    "sc_validators c = map (\<lambda>seed. ka_public K (ka_from_seed K seed)) (cs_validator_seeds cs)"
    "ka_public K (sc_private_key c) \<in> set (sc_validators c)" "sc_initial_hash c = g"
    "sc_our_address c = derive_our_address K (ka_public K (sc_private_key c))"
    "sc_allow_private_ips c = cs_allow_private_ips cs"
    by simp_all
qed

text \<open>
  C33: a runtime configuration that the sequencer builds can be run. The runtime refuses it on none of
  its checks, the signing scheme exists so that setting up does not panic, and what runs then is the
  finalization loop over the deduplicated participants; this validator has an index, and the set of
  participants is not empty, so no leader index divides by zero. The validators are the keys of the
  configured seeds in their order.
\<close>

theorem built_config_runs:
  assumes "build_runtime_config K A H cs g w = (Inr c, w')"
    and "dedups dedup"
    and "\<forall>ns parts sk. ka_public K sk \<in> set parts \<longrightarrow> signer ns parts sk \<noteq> None"
  shows "start_simplex_runtime (ka_public K) (run_simplex N dedup (ka_public K) show_key signer callback events) c =
      bind_act (run_finalization_loop (ka_public K) c callback (dedup (sc_validators c)) events)
        (\<lambda>_. ret (Inr ())) \<and>
    run_simplex_setup N dedup (ka_public K) show_key signer c \<noteq> None \<and>
    (\<exists>i. validator_index (ka_public K) c = Some i \<and> i < length (cs_validator_seeds cs)) \<and>
    dedup (sc_validators c) \<noteq> [] \<and>
    sc_validators c = map (\<lambda>seed. ka_public K (ka_from_seed K seed)) (cs_validator_seeds cs)"
proof -
  note c = build_runtime_config_Inr [OF assms(1)]
  have "is_validator (ka_public K) c" using c(2) by (simp add: is_validator_def)
  moreover have ne: "sc_validators c \<noteq> []" using c(2) by auto
  moreover have sets: "set (dedup (sc_validators c)) = set (sc_validators c)"
    using assms(2) by (simp add: dedups_def)
  moreover from this obtain s where "signer (sc_namespace c) (dedup (sc_validators c)) (sc_private_key c) = Some s"
    using assms(3) c(2) by fastforce
  moreover obtain i where "validator_index (ka_public K) c = Some i"
    unfolding validator_index_def using position_eq_Some [OF c(2)] by blast
  moreover from this have "i < length (cs_validator_seeds cs)"
    unfolding validator_index_def c(1) by (simp add: position_Some)
  moreover have "dedup (sc_validators c) \<noteq> []"
    using sets ne by (metis set_empty)
  ultimately show ?thesis
    using c(1)
    by (simp add: fun_eq_iff start_simplex_runtime_def run_simplex_setup_def build_engine_config_def
        create_scheme_def non_zero_def PAGE_SIZE_def PAGE_CACHE_SIZE_def Let_def run_simplex_def
        bind_act_def unwrap_def ret_def split: option.splits)
qed

section \<open>Peers\<close>

definition peer_text :: "u64 \<times> string \<Rightarrow> string" where
  "peer_text p = show_nat (unat (fst p)) @ CHR ''@'' # snd p"

lemma parse_peer_text:
  assumes "aa_parse A (snd p) = Inr a"
  shows "parse_peer K A (peer_text p) w = (Inr (ka_public K (ka_from_seed K (fst p)), a), w)"
proof -
  have "split_once CHR ''@'' (peer_text p) = Some (show_nat (unat (fst p)), snd p)"
    unfolding peer_text_def by (simp add: split_once_Some show_nat_no_at)
  then show ?thesis
    using assms parse_u64_show_nat [of "unat (fst p)"] unsigned_less [of "fst p", where ?'a = nat]
    by (simp add: parse_peer_def resolve_address_def context_err_def)
qed

text \<open>
  Peers are read as they were written. Any list of seeds and addresses, also addresses that
  contain an \<open>@\<close>, written as \<open>seed@address\<close>, gives the keys of the seeds with the addresses, in the
  same order, when every address parses; nothing is looked up then.
\<close>

theorem peers_roundtrip:
  assumes "\<forall>(seed, addr) \<in> set peers. aa_parse A addr = Inr (f addr)"
  shows "parse_bootstrappers K A (map peer_text peers) w =
    (Inr (map (\<lambda>(seed, addr). (ka_public K (ka_from_seed K seed), f addr)) peers), w)"
  using assms
proof (induction peers)
  case Nil
  then show ?case by simp
next
  case (Cons p peers)
  then show ?case
    using parse_peer_text [of A p "f (snd p)" K w] by (cases p) simp
qed

section \<open>A concrete key and address scheme\<close>

text \<open>Keys are their seeds, addresses are strings that start with a digit, the others are looked up.\<close>

definition demo_keys :: "(u64, u64) key_api" where
  "demo_keys =
     \<lparr>ka_from_seed = (\<lambda>s. s), ka_public = (\<lambda>s. s), ka_bytes = (\<lambda>k. [ucast k]),
      ka_keccak256 = (\<lambda>bs. 0),
      ka_hex_decode = (\<lambda>s. if s = ''00'' then Inr (replicate 32 0) else Inl s)\<rparr>"

definition demo_addrs :: "('w, string) addr_api" where
  "demo_addrs =
     \<lparr>aa_parse = (\<lambda>s. if s \<noteq> [] \<and> hd s \<in> set ''0123456789'' then Inr s else Inl s),
      aa_lookup = (\<lambda>s w. (Inr [], w))\<rparr>"

definition demo_files :: "'w host" where
  "demo_files = \<lparr>clock = (\<lambda>w. (Some 0, w)), sleep_ms = (\<lambda>d w. w), read_file = (\<lambda>p w. (Inr ''00'', w))\<rparr>"

definition demo_chain :: consensus_config where
  "demo_chain = (default_consensus 9)
     \<lparr>cs_validator_seeds := [0, 1], cs_listen_addr := ''0.0.0.0:26656'', cs_dialable_addr := None,
      cs_peers := [peer_text (1, ''10.0.0.1:26656'')]\<rparr>"

lemma demo_fields [simp]:
  "ka_from_seed demo_keys s = s" "ka_public demo_keys k = k" "ka_keccak256 demo_keys bs = 0"
  "ka_hex_decode demo_keys t = (if t = ''00'' then Inr (replicate 32 0) else Inl t)"
  "read_file demo_files path w = (Inr ''00'', w)"
  "aa_parse demo_addrs (CHR ''0'' # t) = Inr (CHR ''0'' # t)"
  "aa_parse demo_addrs (CHR ''1'' # t) = Inr (CHR ''1'' # t)"
  by (simp_all add: demo_keys_def demo_files_def demo_addrs_def)

lemma demo_chain_fields [simp]:
  "cs_validator_seeds demo_chain = [0, 1]" "cs_listen_addr demo_chain = ''0.0.0.0:26656''"
  "cs_dialable_addr demo_chain = None" "cs_peers demo_chain = [peer_text (1, ''10.0.0.1:26656'')]"
  by (simp_all add: demo_chain_def)

lemma demo_peers [simp]:
  "parse_peer demo_keys demo_addrs (peer_text (1, ''10.0.0.1:26656'')) w = (Inr (1, ''10.0.0.1:26656''), w)"
  using parse_peer_text [of demo_addrs "(1, ''10.0.0.1:26656'')" "''10.0.0.1:26656''" demo_keys w] by simp

theorem peers_roundtrip_witness:
  "parse_bootstrappers demo_keys demo_addrs (map peer_text [(7, ''1.2.3.4:5''), (0, ''10.0.0.1:26656'')]) (0 :: nat) =
    (Inr [(7, ''1.2.3.4:5''), (0, ''10.0.0.1:26656'')], 0)"
proof -
  have "\<forall>(seed, addr) \<in> set [(7 :: u64, ''1.2.3.4:5''), (0, ''10.0.0.1:26656'')].
      aa_parse (demo_addrs :: (nat, string) addr_api) addr = Inr addr"
    by simp
  from peers_roundtrip [OF this, of demo_keys 0] show ?thesis by simp
qed

lemma zero_seed: "u64_from_le_bytes (replicate n 0) = 0"
proof -
  have "foldr (\<lambda>b acc. unat b + 256 * acc) (replicate n (0 :: u8)) (0 :: nat) = 0"
    by (induction n) simp_all
  then show ?thesis by (simp add: u64_from_le_bytes_def)
qed

lemma demo_runtime_config:
  "\<exists>c. build_runtime_config demo_keys demo_addrs demo_files demo_chain 7 w = (Inr c, w)"
  by (simp add: build_runtime_config_def load_private_key_def build_validator_set_def
      resolve_network_addrs_def context_err_def zero_seed trim_def is_whitespace_def
      Let_def)

definition demo_signer :: "bytes \<Rightarrow> u64 list \<Rightarrow> u64 \<Rightarrow> u64 option" where
  "demo_signer ns parts sk = (if sk \<in> set parts then Some sk else None)"

theorem built_config_runs_witness:
  "\<exists>c. build_runtime_config demo_keys demo_addrs demo_files demo_chain 7 (0 :: nat) = (Inr c, 0) \<and>
    (\<forall>(N :: (u64, u64, string, unit, unit) p2p_api) (callback :: nat finalized_callback) show_key.
       start_simplex_runtime (ka_public demo_keys)
         (run_simplex N remdups (ka_public demo_keys) show_key demo_signer callback [RV_Stopped]) c 0 =
       Some (Inr (), 0)) \<and>
    (\<exists>i. validator_index (ka_public demo_keys) c = Some i \<and> i < 2) \<and> sc_validators c = [0, 1]"
proof -
  from demo_runtime_config [of "0 :: nat"] obtain c
    where c: "build_runtime_config demo_keys demo_addrs demo_files demo_chain 7 (0 :: nat) = (Inr c, 0)" ..
  have "\<forall>ns parts sk. ka_public demo_keys sk \<in> set parts \<longrightarrow> demo_signer ns parts sk \<noteq> None"
    by (simp add: demo_signer_def)
  note r = built_config_runs [OF c dedups_remdups this]
  obtain i where i: "validator_index (ka_public demo_keys) c = Some i" "i < 2"
    using r [THEN conjunct2, THEN conjunct2, THEN conjunct1] by (auto simp: numeral_2_eq_2)
  have "start_simplex_runtime (ka_public demo_keys)
      (run_simplex N remdups (ka_public demo_keys) show_key demo_signer callback [RV_Stopped]) c 0 =
    Some (Inr (), 0)" for N :: "(u64, u64, string, unit, unit) p2p_api" and callback :: "nat finalized_callback"
      and show_key
    by (subst r [THEN conjunct1])
      (simp add: run_finalization_loop_def i(1) wait_for_block_def bind_act_def unwrap_def ret_def)
  moreover have "sc_validators c = [0, 1]"
    using r [THEN conjunct2, THEN conjunct2, THEN conjunct2, THEN conjunct2] by simp
  ultimately show ?thesis using c i by blast
qed

section \<open>The forkchoice from the start on\<close>

lemma node_safe_frame [simp]:
  "node_safe cache g (n\<lparr>nd_world := w\<rparr>) = node_safe cache g n"
  "node_safe cache g (n\<lparr>nd_index := i\<rparr>) = node_safe cache g n"
  "node_safe cache g (n\<lparr>nd_da := d\<rparr>) = node_safe cache g n"
  by (simp_all add: node_safe_def)

lemma tracker_beside_frame [simp]:
  "nd_forkchoice (tracker_beside D hs n) = nd_forkchoice n"
  "nd_executed_blocks (tracker_beside D hs n) = nd_executed_blocks n"
  "nd_exec (tracker_beside D hs n) = nd_exec n" "nd_index (tracker_beside D hs n) = nd_index n"
  "nd_batch_queue (tracker_beside D hs n) = nd_batch_queue n"
  "nd_batch_open (tracker_beside D hs n) = nd_batch_open n"
  "node_safe cache g (tracker_beside D hs n) = node_safe cache g n"
  by (simp_all add: tracker_beside_def node_safe_def case_prod_unfold Let_def)

lemma tracker_beside_Nil [simp]: "tracker_beside D [] n = n"
  by (simp add: tracker_beside_def)

text \<open>The four parts of a start that succeeds.\<close>

lemma start_sequencer_Inr:
  assumes "start_sequencer CL K A F J E D hs c x w = Some (Inr (E1, D1, rc, n))"
  obtains n0 w1 n1 where "init_components CL E D (fst hs) c x w = Some (Inr (E1, D1, n0))"
    "build_runtime_config K A (da_host D1) (cg_consensus c) (fc_head (nd_forkchoice n0)) (nd_world n0) =
      (Inr rc, w1)"
    "init_from_celestia (execution_client E1) D1 F J
      (tracker_beside D1 (fst (snd hs)) (n0\<lparr>nd_world := w1\<rparr>)) = Some (Inr (), n1)"
    "n = tracker_beside D1 (snd (snd hs)) n1"
  using assms unfolding start_sequencer_def
  by (auto simp: Let_def split: prod.splits sum.splits option.splits)

context execution_contract begin

lemma sync_from_celestia_safe:
  assumes "sync_from_celestia X D F J h n = Some (r, n')" "node_safe cache g n" "index_ok (nd_index n)"
  shows "node_safe cache g n'"
proof -
  from assms(1) consider "n' = n"
    | bs n1 where "fetch_blocks_from_celestia D h (finalized_height (ds_tracker (nd_da n))) n = Some (Inr bs, n1)"
        "bs = [] \<and> n' = n1 \<or> sync_block_batch X F J bs n1 = Some (r, n')"
    | e where "fetch_blocks_from_celestia D h (finalized_height (ds_tracker (nd_da n))) n = Some (Inl e, n')"
    unfolding sync_from_celestia_def Let_def
    by (auto elim!: bind_try_SomeE split: option.splits if_splits)
  then show ?thesis
  proof cases
    case 2
    from fetch_frame [OF 2(1)] obtain w where "n1 = n\<lparr>nd_world := w\<rparr>" by blast
    with assms(2,3) have "node_safe cache g n1" "index_ok (nd_index n1)" by simp_all
    with 2(2) show ?thesis
      unfolding sync_block_batch_def by (auto dest: sync_blocks_safe)
  next
    case 3
    from fetch_frame [OF 3] assms(2) show ?thesis by auto
  qed (use assms in simp)
qed

lemma init_from_celestia_safe:
  assumes "init_from_celestia X D F J n = Some (r, n')" "node_safe cache g n"
  shows "node_safe cache g n'"
proof (cases "ce_genesis_da_height (da_config D) = 0")
  case True
  with assms show ?thesis by (simp add: init_from_celestia_def)
next
  case False
  obtain opened w where o: "index_open F J (ce_index_path (da_config D)) (nd_world n) = (opened, w)"
    by (cases "index_open F J (ce_index_path (da_config D)) (nd_world n)")
  show ?thesis
  proof (cases opened)
    case (Inl e)
    with False assms o show ?thesis by (auto simp: init_from_celestia_def)
  next
    case (Inr i)
    let ?m = "n\<lparr>nd_world := w, nd_index := i\<rparr>"
    from False assms(1) o Inr obtain q where q:
      "sync_from_celestia X D F J (ce_genesis_da_height (da_config D)) ?m = Some (q, n')"
      by (auto simp: init_from_celestia_def elim!: bind_try_SomeE)
    have "index_ok (nd_index ?m)" using index_open_ok o Inr by fastforce
    with assms(2) show ?thesis by (intro sync_from_celestia_safe [OF q]) simp_all
  qed
qed

end

lemma init_components_safe:
  assumes "init_components CL E D hs c x w = Some (Inr (E1, D1, n))"
  shows "\<exists>g. nd_forkchoice n = fc_genesis g \<and> node_safe ew_forkchoice g n"
proof -
  from assms obtain g x2 x3 where "init_forkchoice E1 g x2 = Some (Inr (), x3)"
    "nd_forkchoice n = fc_genesis g" "nd_exec n = x3"
    unfolding init_components_def
    by (auto simp: Let_def fc_genesis_def split: prod.splits sum.splits option.splits)
  moreover from this(1) have "ew_forkchoice x3 = fc_genesis g"
    by (rule init_forkchoice_Ok_cache)
  ultimately show ?thesis
    by (auto simp: node_safe_def head_is_safe_def fc_genesis_def)
qed

text \<open>
  A node is sound when its tasks start, also after a sync: sequencer and client agree, and every
  pointer is on genesis, the runtime's initial hash, or on a block that was executed.
\<close>

lemma start_sequencer_safe:
  assumes "start_sequencer CL K A F J E D hs c x w = Some (Inr (E1, D1, rc, n))"
  shows "node_safe ew_forkchoice (sc_initial_hash rc) n"
proof (rule start_sequencer_Inr [OF assms])
  fix n0 w1 n1
  assume init: "init_components CL E D (fst hs) c x w = Some (Inr (E1, D1, n0))"
    and rc: "build_runtime_config K A (da_host D1) (cg_consensus c) (fc_head (nd_forkchoice n0)) (nd_world n0) =
      (Inr rc, w1)"
    and sync: "init_from_celestia (execution_client E1) D1 F J
      (tracker_beside D1 (fst (snd hs)) (n0\<lparr>nd_world := w1\<rparr>)) = Some (Inr (), n1)"
    and n: "n = tracker_beside D1 (snd (snd hs)) n1"
  obtain g where g: "nd_forkchoice n0 = fc_genesis g" "node_safe ew_forkchoice g n0"
    using init_components_safe [OF init] by blast
  have "sc_initial_hash rc = g"
    using build_runtime_config_Inr(3) [OF rc] g(1) by (simp add: fc_genesis_def)
  moreover have "node_safe ew_forkchoice g n1"
    by (rule ec.init_from_celestia_safe [OF sync]) (simp add: g(2))
  ultimately show ?thesis by (simp add: n)
qed

section \<open>A concrete start\<close>

definition demo_libs :: "'w celestia_libs" where
  "demo_libs =
     \<lparr>cl_hex_decode = (\<lambda>s. Inr [0]), cl_namespace_new_v0 = Inr, cl_path_exists = (\<lambda>p w. (True, w)),
      cl_build_lumina = (\<lambda>b w. (Inr (), w)), cl_build_rpc = (\<lambda>a t w. (Inr (), w))\<rparr>"

definition demo_config :: chain_config where
  "demo_config = (default_config (\<lambda>bs. 0) (\<lambda>s. []))\<lparr>cg_consensus := demo_chain\<rparr>"

definition demo_da :: "(celestia_node, bytes, bytes) da_env" where
  "demo_da = node_env\<lparr>da_host := demo_files\<rparr>"

lemma demo_config_fields [simp]:
  "cg_consensus demo_config = demo_chain" "cg_celestia demo_config = default_celestia"
  "cg_execution demo_config = default_execution"
  by (simp_all add: demo_config_def default_config_def)

lemma demo_client:
  "exec_client_new (ee_libs reth_env) reth_host (xc_reth_url default_execution)
     (xc_jwt_secret_path default_execution) r = Some (Inr (ee_client reth_env), tick r)"
proof -
  obtain token where "build_token (\<lambda>bs. replicate 32 0) (\<lambda>s. Inr (replicate 32 0))
      (Some (reth_now r)) (replicate 64 CHR ''0'') = Some (Inr token)"
    using build_token_Ok_iff [of "\<lambda>bs. replicate 32 0" "\<lambda>s. Inr (replicate 32 0)"] by fastforce
  moreover have "trim_start_0x (trim (replicate 64 (CHR ''0''))) = replicate 64 (CHR ''0'')"
    by code_simp
  ultimately show ?thesis
    by (simp add: exec_client_new_def reth_env_def reth_host_def default_execution_def Let_def)
qed

lemma demo_init_forkchoice:
  assumes "map_of (reth_known (ew_outside w)) h = Some (number, time)"
  shows "\<exists>w'. init_forkchoice reth_env h w = Some (Inr (), w')"
proof -
  have "(30 :: nat) = Suc 29" by simp
  then show ?thesis
    using assms
    by (simp only: init_forkchoice_def max_init_retries_def init_forkchoice_loop.simps)
      (simp add: try_init_forkchoice_def bind_act_def tick_def Let_def)
qed

lemma demo_libs_simps:
  "validate_config default_celestia = Inr ()" "ce_genesis_da_height default_celestia = 0"
  "parse_namespace demo_libs s = Inr [0]"
  "load_celestia_key demo_libs demo_files p w = (Inr ''00'', w)"
  "build_lumina_client demo_libs c u k w = (Inr (), w)" "build_rpc_client demo_libs c w = (Inr (), w)"
  by (simp_all add: validate_config_def default_celestia_def parse_namespace_def load_celestia_key_def
      trim_def is_whitespace_def build_lumina_client_def build_rpc_client_def demo_libs_def Let_def)

lemma demo_celestia: "celestia_new demo_libs demo_files default_celestia w = (Inr [0], w)"
  by (simp add: celestia_new_def demo_libs_simps)

section \<open>A node that synced\<close>

text \<open>
  The state of an application that was started on genesis while the chain is further: nothing it
  holds has the first height, and it has proposed and finalized nothing.
\<close>

definition stuck_inv :: "b256 \<Rightarrow> app \<Rightarrow> bool" where
  "stuck_inv g a \<longleftrightarrow> app_height a = 1 \<and> app_last_hash a = g \<and> app_block_sender a = [] \<and>
     app_block_relay_sender a = [] \<and> (\<forall>d b. app_pending_blocks a d = Some b \<longrightarrow> block_height b \<noteq> 1)"

text \<open>Relayed blocks are later ones, and reth never reports genesis as its head.\<close>

definition past_genesis :: "b256 \<Rightarrow> 'w app_env \<Rightarrow> message \<Rightarrow> bool" where
  "past_genesis g E m \<longleftrightarrow> (\<forall>d b p. m = M_ReceiveBlock d b p \<longrightarrow> block_height b \<noteq> 1) \<and>
     (\<forall>x number t x'. bb_get_head (ae_builder E) x \<noteq> Some (Inr (g, number, t), x'))"

interpretation st: app_invariant "stuck_inv g" "past_genesis g E" E for g and E :: "'w app_env"
  by unfold_locales
    (auto simp: stuck_inv_def past_genesis_def after_finalize_def after_receive_def remove_payload_def
      remove_block_def split: if_splits)

text \<open>
  C34: a node that synced blocks does not take part. The runtime is configured before the sync, so the
  application starts at height 1 on genesis whatever was replayed. When reth's head has moved past
  genesis and only later blocks are relayed, then in every run the application stays at height 1,
  reports no block as finalized and proposes nothing; every \<open>Propose\<close> answers the null digest.
\<close>

theorem synced_application_stuck:
  assumes "aw_app w = create_application c"
    and "list_all (past_genesis (sc_initial_hash c) E) ms" "run_app E ms w = Some (rs, w')"
  shows "app_height (aw_app w') = 1 \<and> app_block_sender (aw_app w') = [] \<and>
    app_block_relay_sender (aw_app w') = [] \<and>
    list_all2 (\<lambda>m r. m = M_Propose \<longrightarrow> r = R_Digest null_proposal) ms rs"
proof -
  have start: "stuck_inv (sc_initial_hash c) (aw_app w)"
    by (simp add: assms(1) create_application_def application_new_def stuck_inv_def)
  have "stuck_inv (sc_initial_hash c) (aw_app w')"
    by (rule st.run_app_inv [OF start assms(2,3)])
  moreover have "list_all2 (\<lambda>m r. m = M_Propose \<longrightarrow> r = R_Digest null_proposal) ms rs"
  proof (rule st.run_app_responses [OF _ start assms(2,3)])
    fix w1 m r w2
    assume m: "stuck_inv (sc_initial_hash c) (aw_app w1)" "past_genesis (sc_initial_hash c) E m"
      and step: "process_message E m w1 = Some (r, w2)"
    show "m = M_Propose \<longrightarrow> r = R_Digest null_proposal"
    proof
      assume "m = M_Propose"
      with step obtain d where d: "propose E w1 = Some (d, w2)" "r = R_Digest d"
        by (auto elim!: act_elims)
      from d(1) show "r = R_Digest null_proposal"
      proof (cases rule: propose_cases)
        case (built p x number t x')
        with m show ?thesis by (simp add: stuck_inv_def past_genesis_def)
      qed (simp add: d(2))
    qed
  qed
  ultimately show ?thesis by (simp add: stuck_inv_def)
qed

text \<open>reth after the sync of a thousand blocks, at a head that is not genesis and does not change.\<close>

definition synced_app_env :: "reth exec_world app_env" where
  "synced_app_env = reth_app_env\<lparr>ae_builder := (ae_builder reth_app_env)
     \<lparr>bb_get_head := (\<lambda>x. Some (Inr (999, 1000, 50), x))\<rparr>\<rparr>"

theorem synced_application_stuck_witness:
  "\<exists>r w'. run_app synced_app_env [M_Propose] \<lparr>aw_app = create_application demo_simplex, aw_world = reth_world\<rparr> =
      Some ([r], w') \<and> r = R_Digest null_proposal \<and> app_height (aw_app w') = 1"
proof -
  let ?w = "\<lparr>aw_app = create_application demo_simplex, aw_world = reth_world\<rparr>"
  have fields: "sc_initial_hash demo_simplex = 7"
    by (simp add: demo_simplex_def from_chain_config_def)
  have "\<exists>d w'. propose synced_app_env ?w = Some (d, w')"
    by (simp add: propose_def already_proposed_at_height_def wait_for_reth_sync_step
        query_reth_head_def in_client_def bind_act_def Let_def check_sync_state_def synced_app_env_def
        create_application_def application_new_def fields sat_sub_def)
  then obtain d w' where run: "run_app synced_app_env [M_Propose] ?w = Some ([R_Digest d], w')"
    by (auto simp: bind_act_def)
  have ok: "list_all (past_genesis (sc_initial_hash demo_simplex) synced_app_env) [M_Propose]"
    by (simp add: past_genesis_def synced_app_env_def fields)
  show ?thesis
    using synced_application_stuck [OF _ ok run] run by simp
qed

end
