(* ===== verification/Pipeline.thy ===== *)
theory Pipeline
  imports Startup_Props
begin

text \<open>
  The tasks of a running node together: the application actor (crates/consensus,
  \<open>src/application.rs\<close>), the finalization loop (\<open>src/runtime.rs\<close>), the batch task, the finality
  tracker and the event loop (crates/sequencer, \<open>src/simplex_sequencer.rs\<close>; crates/celestia,
  \<open>src/client.rs\<close>). The path of a block through them: the application broadcasts it when it is final,
  the finalization loop executes it and queues it, the batch task submits it to Celestia and tracks
  it, a header releases its confirmation, and the event loop makes it reth's finalized block. A
  channel is the list of what was sent on it with the number of elements its receiver has taken.

  A step is one turn of one task, in any order; within a turn no other task runs. What interleaving
  inside the turns can do to the forkchoice is the subject of the theory \<open>Node_Race\<close>.
\<close>

section \<open>The system\<close>

record ('x, 'w) system =
  sy_app :: app
  sy_node :: "('x, 'w) node"
  sy_blocks_read :: nat
  sy_loop_running :: bool
  sy_queue_read :: nat
  sy_batch :: batch_state
  sy_batch_failures :: u32
  sy_batch_running :: bool
  sy_submitted :: "block list"
  sy_confirmations_read :: nat

text \<open>
  After the start: the application is created from the runtime configuration, and the batch task runs
  when there is a queue. \<open>sy_submitted\<close> is a history: the blocks of the batches that Celestia took.
\<close>

definition system_start ::
  "celestia_config \<Rightarrow> ('sk, 'pk, 'addr) simplex_config \<Rightarrow> ('x, 'w) node \<Rightarrow> ('x, 'w) system" where
  "system_start c rc n =
     \<lparr>sy_app = create_application rc, sy_node = n, sy_blocks_read = 0, sy_loop_running = True,
      sy_queue_read = 0, sy_batch = batch_new, sy_batch_failures = 0,
      sy_batch_running = (spawn_batch_task c \<noteq> None), sy_submitted = [], sy_confirmations_read = 0\<rparr>"

text \<open>
  What the batch task may receive: its ticker fires at any time; a block that is in the queue; the end
  of the queue, when it is empty and the finalization loop, which owns the sender, has ended.
\<close>

fun batch_input :: "('x, 'w) system \<Rightarrow> batch_event \<Rightarrow> bool" where
  "batch_input s BE_Tick \<longleftrightarrow> True"
| "batch_input s (BE_Recv (Some b)) \<longleftrightarrow> sy_queue_read s < length (nd_batch_queue (sy_node s)) \<and>
     b = nd_batch_queue (sy_node s) ! sy_queue_read s"
| "batch_input s (BE_Recv None) \<longleftrightarrow> sy_queue_read s = length (nd_batch_queue (sy_node s)) \<and>
     \<not> sy_loop_running s"

text \<open>
  The turns: the application handles a message, any message at any time; the finalization loop takes
  the next block, or ends because the receiver lagged or the runtime stops; the batch task takes an
  event; the tracker processes a header of any height; the event loop takes the next confirmation.
\<close>

inductive system_step ::
  "'x app_env \<Rightarrow> 'x execution \<Rightarrow> ('w, 'b, 'h) da_env \<Rightarrow> nat \<Rightarrow> nat \<Rightarrow> ('x, 'w) system \<Rightarrow> ('x, 'w) system
    \<Rightarrow> bool"
  for A :: "'x app_env" and X :: "'x execution" and D :: "('w, 'b, 'h) da_env"
    and our_index :: nat and num_validators :: nat where
  message_turn:
    "process_message A m \<lparr>aw_app = sy_app s, aw_world = nd_exec (sy_node s)\<rparr> = Some (r, w) \<Longrightarrow>
     system_step A X D our_index num_validators s
       (s\<lparr>sy_app := aw_app w, sy_node := (sy_node s)\<lparr>nd_exec := aw_world w\<rparr>\<rparr>)"
| block_turn:
    "sy_loop_running s \<Longrightarrow> sy_blocks_read s < length (app_block_sender (sy_app s)) \<Longrightarrow>
     handle_finalized_block (create_finalization_callback X D)
       (app_block_sender (sy_app s) ! sy_blocks_read s) our_index num_validators (sy_node s) = Some ((), n) \<Longrightarrow>
     system_step A X D our_index num_validators s
       (s\<lparr>sy_node := n, sy_blocks_read := Suc (sy_blocks_read s)\<rparr>)"
| loop_ends:
    "system_step A X D our_index num_validators s (s\<lparr>sy_loop_running := False\<rparr>)"
| batch_task_turn:
    "sy_batch_running s \<Longrightarrow> spawn_batch_task (da_config D) = Some (interval, max_size) \<Longrightarrow>
     batch_input s e \<Longrightarrow>
     batch_turn D max_size e (sy_batch_failures s) (sy_batch s)
       (nd_da (sy_node s), nd_world (sy_node s)) = (out, batches, failures, b, da, w) \<Longrightarrow>
     system_step A X D our_index num_validators s
       (s\<lparr>sy_batch := b, sy_batch_failures := failures, sy_batch_running := (out = BO_Waiting),
          sy_queue_read := sy_queue_read s + length (event_blocks e),
          sy_submitted := sy_submitted s @ concat batches,
          sy_node := (sy_node s)\<lparr>nd_da := da, nd_world := w, nd_batch_open := (out = BO_Waiting)\<rparr>\<rparr>)"
| header_turn:
    "process_header D h (nd_da (sy_node s), nd_world (sy_node s)) = Some (r, da, w) \<Longrightarrow>
     system_step A X D our_index num_validators s
       (s\<lparr>sy_node := (sy_node s)\<lparr>nd_da := da, nd_world := w\<rparr>\<rparr>)"
| confirmation_turn:
    "sy_confirmations_read s < length (ds_finality_tx (nd_da (sy_node s))) \<Longrightarrow>
     handle_finality_confirmation X
       (ds_finality_tx (nd_da (sy_node s)) ! sy_confirmations_read s) (sy_node s) = Some ((), n) \<Longrightarrow>
     system_step A X D our_index num_validators s
       (s\<lparr>sy_node := n, sy_confirmations_read := Suc (sy_confirmations_read s)\<rparr>)"

text \<open>The turns of the batch task alone.\<close>

inductive batch_step :: "('w, 'b, 'h) da_env \<Rightarrow> ('x, 'w) system \<Rightarrow> ('x, 'w) system \<Rightarrow> bool"
  for D :: "('w, 'b, 'h) da_env" where
  batch_step:
    "sy_batch_running s \<Longrightarrow> spawn_batch_task (da_config D) = Some (interval, max_size) \<Longrightarrow>
     batch_input s e \<Longrightarrow>
     batch_turn D max_size e (sy_batch_failures s) (sy_batch s)
       (nd_da (sy_node s), nd_world (sy_node s)) = (out, batches, failures, b, da, w) \<Longrightarrow>
     batch_step D s
       (s\<lparr>sy_batch := b, sy_batch_failures := failures, sy_batch_running := (out = BO_Waiting),
          sy_queue_read := sy_queue_read s + length (event_blocks e),
          sy_submitted := sy_submitted s @ concat batches,
          sy_node := (sy_node s)\<lparr>nd_da := da, nd_world := w, nd_batch_open := (out = BO_Waiting)\<rparr>\<rparr>)"

lemma batch_step_system: "batch_step D s s' \<Longrightarrow> system_step A X D i k s s'"
  by (induction rule: batch_step.induct) (rule system_step.batch_task_turn)

lemma batch_steps_system: "(batch_step D)\<^sup>*\<^sup>* s s' \<Longrightarrow> (system_step A X D i k)\<^sup>*\<^sup>* s s'"
  by (induction rule: rtranclp_induct) (auto intro: rtranclp.rtrancl_into_rtrancl batch_step_system)

abbreviation system_run ::
  "'x app_env \<Rightarrow> 'x execution \<Rightarrow> ('w, 'b, 'h) da_env \<Rightarrow> nat \<Rightarrow> nat \<Rightarrow> ('x, 'w) system \<Rightarrow> ('x, 'w) system
    \<Rightarrow> bool" where
  "system_run A X D i k \<equiv> (system_step A X D i k)\<^sup>*\<^sup>*"

text \<open>
  A node runs with the index of its key in the configured list and as many validators as the set of
  participants has.
\<close>

definition node_runs ::
  "('sk \<Rightarrow> 'pk) \<Rightarrow> ('pk list \<Rightarrow> 'pk list) \<Rightarrow> 'x app_env \<Rightarrow> 'x execution \<Rightarrow> ('w, 'b, 'h) da_env
    \<Rightarrow> ('sk, 'pk, 'addr) simplex_config \<Rightarrow> ('x, 'w) node \<Rightarrow> ('x, 'w) system \<Rightarrow> bool" where
  "node_runs pub dedup A X D rc n s \<longleftrightarrow>
     (case validator_index pub rc of
        None \<Rightarrow> False
      | Some our_index \<Rightarrow>
          system_run A X D our_index (length (dedup (sc_validators rc)))
            (system_start (da_config D) rc n) s)"

section \<open>What each turn contributes\<close>

lemma retain_pending_within:
  "retain_pending h hdr now ks m acc = (cs, m') \<Longrightarrow>
     cf_block_hash ` set cs \<subseteq> cf_block_hash ` set acc \<union> dom m \<and> dom m' \<subseteq> dom m"
proof (induction ks arbitrary: m acc)
  case Nil
  then show ?case by auto
next
  case (Cons k ks)
  show ?case
  proof (cases "m k")
    case None
    with Cons show ?thesis by simp
  next
    case (Some p)
    show ?thesis
    proof (cases "pf_celestia_height p > h")
      case True
      with Cons Some show ?thesis by simp
    next
      case False
      with Cons.prems Some have "retain_pending h hdr now ks (m(k := None))
          (acc @ [build_confirmation k p hdr now]) = (cs, m')" by simp
      note IH = Cons.IH [OF this]
      have dom: "dom (m(k := None)) \<subseteq> dom m" "k \<in> dom m" using Some by auto
      have "cf_block_hash ` set (acc @ [build_confirmation k p hdr now]) =
          insert k (cf_block_hash ` set acc)" by simp
      with IH have "cf_block_hash ` set cs \<subseteq> insert k (cf_block_hash ` set acc) \<union> dom (m(k := None))"
        "dom m' \<subseteq> dom (m(k := None))" by metis+
      with dom show ?thesis by blast
    qed
  qed
qed

text \<open>Headers confirm only what is pending, for every order in which the table is visited.\<close>

lemma process_header_within:
  assumes "process_header D h (s, w) = Some (r, s', w')"
  shows "dom (ft_pending (ds_tracker s')) \<subseteq> dom (ft_pending (ds_tracker s))"
    and "\<exists>cs. ds_finality_tx s' = ds_finality_tx s @ cs \<and>
      cf_block_hash ` set cs \<subseteq> dom (ft_pending (ds_tracker s))"
proof -
  obtain hh now w1 cs t where header: "header_to_b256 D h = Some hh" "da_now D w = (now, w1)"
    and fin: "on_celestia_finality (da_pending_order D) now (da_header_height D h) hh (ds_tracker s) = (cs, t)"
    and s': "s' = broadcast_confirmations cs (s\<lparr>ds_tracker := t\<rparr>)"
    using assms unfolding process_header_def by (auto split: option.splits prod.splits)
  obtain cs0 rest where retain: "retain_pending (da_header_height D h) hh now
      (da_pending_order D (ft_pending (ds_tracker s))) (ft_pending (ds_tracker s)) [] = (cs0, rest)"
    by force
  have cs: "cs = sort_key cf_block_height cs0" and t: "ft_pending t = rest"
    using fin by (auto simp: on_celestia_finality_def retain)
  have within: "cf_block_hash ` set cs \<subseteq> dom (ft_pending (ds_tracker s))"
      "dom (ft_pending t) \<subseteq> dom (ft_pending (ds_tracker s))"
    using retain_pending_within [OF retain] by (simp_all add: cs t)
  show "dom (ft_pending (ds_tracker s')) \<subseteq> dom (ft_pending (ds_tracker s))"
    using within(2) by (simp add: s' broadcast_confirmations_channels)
  show "\<exists>cs. ds_finality_tx s' = ds_finality_tx s @ cs \<and>
      cf_block_hash ` set cs \<subseteq> dom (ft_pending (ds_tracker s))"
    by (rule exI [of _ "if ds_receiver_dropped s then [] else cs"])
      (use within(1) in \<open>simp add: s' broadcast_confirmations_channels\<close>)
qed

lemma submit_blocks_hashes:
  assumes "submit_blocks D bs w = (Inr subs, w')"
  shows "map bs_block_hash subs = map blk_block_hash bs"
proof (cases "bs = []")
  case True
  with assms show ?thesis by (simp add: submit_blocks_def)
next
  case False
  with assms obtain blobs infos h where
    blobs: "create_blobs_for_blocks D bs = Inr (blobs, infos)" and "subs = build_submissions D blobs infos h"
    by (auto simp: submit_blocks_def split: sum.splits prod.splits)
  with build_submissions_fields [OF create_blobs_length [OF blobs], of D h] create_blobs_spec [OF blobs]
  have "map (\<lambda>s. (bs_block_hash s, bs_block_height s)) subs = map (\<lambda>b. (blk_block_hash b, block_height b)) bs"
    by simp
  then have "map fst (map (\<lambda>s. (bs_block_hash s, bs_block_height s)) subs) =
      map fst (map (\<lambda>b. (blk_block_hash b, block_height b)) bs)" by simp
  then show ?thesis by (simp add: comp_def)
qed

lemma track_all:
  "fold (track_finality D) subs (s, w) = (s', w') \<Longrightarrow>
     dom (ft_pending (ds_tracker s')) = dom (ft_pending (ds_tracker s)) \<union> bs_block_hash ` set subs \<and>
     ds_finality_tx s' = ds_finality_tx s"
proof (induction subs arbitrary: s w)
  case (Cons x subs)
  then show ?case
    by (cases "da_now D w") (auto simp: track_finality_def track_def)
qed simp

lemma submit_batch_tracks:
  assumes "submit_batch D b (s, w) = (ok, b', s', w')"
  shows "dom (ft_pending (ds_tracker s')) \<subseteq> dom (ft_pending (ds_tracker s)) \<union>
      (if ok then blk_block_hash ` set (bt_pending_blocks b) else {})"
    and "ds_finality_tx s' = ds_finality_tx s"
proof -
  have "dom (ft_pending (ds_tracker s')) \<subseteq> dom (ft_pending (ds_tracker s)) \<union>
      (if ok then blk_block_hash ` set (bt_pending_blocks b) else {}) \<and> ds_finality_tx s' = ds_finality_tx s"
  proof (cases "bt_pending_blocks b = []")
    case True
    with assms show ?thesis by (auto simp: submit_batch_def)
  next
    case False
    obtain r w1 where r: "submit_blocks D (bt_pending_blocks b) w = (r, w1)" by force
    show ?thesis
    proof (cases r)
      case (Inl e)
      with assms False r show ?thesis by (simp add: submit_batch_def)
    next
      case (Inr subs)
      with assms False r have ok: "ok" and track: "fold (track_finality D) subs (s, w1) = (s', w')"
        by (auto simp: submit_batch_def log_batch_success_def)
      have "bs_block_hash ` set subs = blk_block_hash ` set (bt_pending_blocks b)"
        using submit_blocks_hashes [of D "bt_pending_blocks b" w subs w1] r Inr
        by (metis list.set_map)
      with track_all [OF track] ok show ?thesis by simp
    qed
  qed
  then show "dom (ft_pending (ds_tracker s')) \<subseteq> dom (ft_pending (ds_tracker s)) \<union>
      (if ok then blk_block_hash ` set (bt_pending_blocks b) else {})"
    "ds_finality_tx s' = ds_finality_tx s" by blast+
qed

lemma batch_turn_tracks:
  assumes "batch_turn D m e f b (s, w) = (out, h, f', b', s', w')"
  shows "dom (ft_pending (ds_tracker s')) \<subseteq>
      dom (ft_pending (ds_tracker s)) \<union> blk_block_hash ` set (concat h)"
    and "ds_finality_tx s' = ds_finality_tx s"
proof -
  obtain a b1 where e: "wait_for_batch_event e b m = (a, b1)" by force
  obtain ok b2 s2 w2 where sub: "submit_batch D b1 (s, w) = (ok, b2, s2, w2)" by (metis prod.collapse)
  note tracks = submit_batch_tracks [OF sub]
  show "dom (ft_pending (ds_tracker s')) \<subseteq>
      dom (ft_pending (ds_tracker s)) \<union> blk_block_hash ` set (concat h)"
    using assms tracks unfolding batch_turn_def e
    by (cases a) (auto simp: sub Let_def split: if_splits)
  show "ds_finality_tx s' = ds_finality_tx s"
    using assms tracks unfolding batch_turn_def e
    by (cases a) (auto simp: sub Let_def split: if_splits)
qed

section \<open>The application and the cached forkchoice\<close>

text \<open>
  What the system relies on of the application's environment: the contract of the builder, and that
  clock and pauses leave the client's cache alone.
\<close>

locale app_contract = builder_contract "ae_builder A" cache
  for A :: "'x app_env" and cache :: "'x \<Rightarrow> forkchoice_state" +
  assumes clock_cache: "cache (snd (clock (ae_host A) x)) = cache x"
    and sleep_cache: "cache (sleep_ms (ae_host A) d x) = cache x"
begin

text \<open>The cache, from the application's world.\<close>

abbreviation seen :: "'x app_world \<Rightarrow> forkchoice_state" where
  "seen w \<equiv> cache (aw_world w)"

lemma wall_clock_cache: "wall_clock A w = Some (r, w') \<Longrightarrow> seen w' = seen w"
  using clock_cache [of "aw_world w"]
  by (auto simp: wall_clock_def in_client_Some wall_clock_timestamp_def split: prod.splits)

lemma query_reth_head_cache: "query_reth_head A w = Some (r, w') \<Longrightarrow> seen w' = seen w"
  unfolding query_reth_head_def
  by (auto simp: in_client_Some elim!: act_elims dest!: head_cache split: sum.splits)

lemma sync_sleep_cache: "sync_sleep A w = Some (r, w') \<Longrightarrow> seen w' = seen w"
  by (auto simp: sync_sleep_def in_client_Some sleep_cache dest: sym)

lemma sync_loop_cache: "sync_loop A n i w = Some (r, w') \<Longrightarrow> seen w' = seen w"
proof (induction n arbitrary: i w)
  case 0
  then show ?case by simp
next
  case (Suc n)
  from Suc.prems show ?case
    by (auto elim!: act_elims dest!: query_reth_head_cache sync_sleep_cache Suc.IH
        split: option.splits sync_check.splits)
qed

lemma build_via_reth_cache: "build_via_reth A t w = Some (r, w') \<Longrightarrow> seen w' = seen w"
  unfolding build_via_reth_def
  by (auto simp: in_client_Some elim!: act_elims dest!: building_cache payload_cache split: sum.splits)

lemma propose_cache: "propose A w = Some (d, w') \<Longrightarrow> seen w' = seen w"
  unfolding propose_def wait_for_reth_sync_def can_build_block_def
  by (auto simp: complete_proposal_app elim!: act_elims
      dest!: sync_loop_cache wall_clock_cache build_via_reth_cache
      split: if_splits sync_result.splits option.splits)

lemma finalize_cache:
  "finalize A d w = Some (r, w') \<Longrightarrow> seen w' = seen w \<or> (\<exists>h. seen w' = with_soft (seen w) h)"
  unfolding finalize_def apply_to_reth_def
  by (auto simp: in_client_Some Let_def elim!: act_elims dest!: apply_cache
      split: option.splits if_splits sum.splits) blast

lemma receive_cache: "handle_receive_block A d b p w = Some (r, w') \<Longrightarrow> seen w' = seen w"
  by (auto simp: handle_receive_block_apply dest!: import_cache split: if_splits option.splits)

text \<open>A message leaves the cache alone or moves its head and safe block together.\<close>

lemma process_message_cache:
  "process_message A m w = Some (r, w') \<Longrightarrow> seen w' = seen w \<or> (\<exists>h. seen w' = with_soft (seen w) h)"
  by (cases m)
    (auto simp: genesis_def verify_def broadcast_def Let_def elim!: act_elims
      dest: propose_cache finalize_cache receive_cache split: if_splits)

lemma process_message_fin:
  "process_message A m w = Some (r, w') \<Longrightarrow> fc_finalized (seen w') = fc_finalized (seen w)"
  by (auto dest: process_message_cache simp: with_soft_def)

end

definition client_app_env :: "'x exec_env \<Rightarrow> (bytes \<Rightarrow> digest) \<Rightarrow> (u64 \<Rightarrow> string) \<Rightarrow> 'x exec_world app_env" where
  "client_app_env E sha256 show_epoch =
     \<lparr>ae_builder = builder_client E, ae_host = exec_host (ee_host E), ae_sha256 = sha256,
      ae_show_epoch = show_epoch\<rparr>"

lemma client_app_env_fields [simp]:
  "ae_builder (client_app_env E sha256 show_epoch) = builder_client E"
  "ae_host (client_app_env E sha256 show_epoch) = exec_host (ee_host E)"
  by (simp_all add: client_app_env_def)

interpretation ac: app_contract "client_app_env E sha256 show_epoch" ew_forkchoice
  for E :: "'x exec_env" and sha256 show_epoch
  by (unfold_locales; unfold client_app_env_fields)
    (auto simp: exec_host_def dest: get_head_cache import_payload_cache start_building_cache get_payload_cache
      apply_built_payload_cache split: prod.split)

section \<open>The invariant\<close>

text \<open>
  What every turn keeps. \<open>led\<close> says which blocks this validator leads. The queue holds executed blocks
  that were finalized and led, in order; what was submitted and what is pending is what the batch
  task took from the queue; the tracker, the finality channel and the finalized pointers only name
  blocks that were submitted.
\<close>

definition queue_inv :: "(block \<Rightarrow> bool) \<Rightarrow> ('x, 'w) system \<Rightarrow> bool" where
  "queue_inv led s \<longleftrightarrow>
     sy_blocks_read s \<le> length (app_block_sender (sy_app s)) \<and>
     subseq (nd_batch_queue (sy_node s))
       (filter led (take (sy_blocks_read s) (app_block_sender (sy_app s)))) \<and>
     blk_block_hash ` set (nd_batch_queue (sy_node s)) \<subseteq> nd_executed_blocks (sy_node s) \<and>
     sy_queue_read s \<le> length (nd_batch_queue (sy_node s)) \<and>
     sy_submitted s @ bt_pending_blocks (sy_batch s) = take (sy_queue_read s) (nd_batch_queue (sy_node s))"

lemma submitted_subseq:
  assumes "queue_inv led s"
  shows "subseq (sy_submitted s) (nd_batch_queue (sy_node s))"
proof -
  have "nd_batch_queue (sy_node s) = sy_submitted s @ bt_pending_blocks (sy_batch s) @
      drop (sy_queue_read s) (nd_batch_queue (sy_node s))"
    using assms append_take_drop_id [of "sy_queue_read s" "nd_batch_queue (sy_node s)"]
    by (simp add: queue_inv_def flip: append_assoc)
  then show ?thesis by (metis prefixI prefix_imp_subseq)
qed

lemma queue_subseq:
  assumes "queue_inv led s"
  shows "subseq (nd_batch_queue (sy_node s)) (app_block_sender (sy_app s))"
proof -
  let ?read = "take (sy_blocks_read s) (app_block_sender (sy_app s))"
  have "subseq (nd_batch_queue (sy_node s)) (filter led ?read)"
    using assms by (simp add: queue_inv_def)
  also have "subseq (filter led ?read) ?read" by (rule subseq_filter_left)
  also have "subseq ?read (app_block_sender (sy_app s))"
    by (rule prefix_imp_subseq [OF take_is_prefix])
  finally show ?thesis .
qed

lemma subseq_set: "subseq xs ys \<Longrightarrow> set xs \<subseteq> set ys"
  by (induction rule: list_emb.induct) auto

lemma queued_block:
  assumes "queue_inv led s" "b \<in> set (nd_batch_queue (sy_node s))"
  shows "led b \<and> b \<in> set (app_block_sender (sy_app s)) \<and> blk_block_hash b \<in> nd_executed_blocks (sy_node s)"
proof -
  from assms have "b \<in> set (filter led (take (sy_blocks_read s) (app_block_sender (sy_app s))))"
    using subseq_set unfolding queue_inv_def by blast
  then show ?thesis
    using assms by (auto simp: queue_inv_def dest: in_set_takeD)
qed

lemma submitted_block:
  "queue_inv led s \<Longrightarrow> b \<in> set (sy_submitted s) \<Longrightarrow> led b \<and> b \<in> set (app_block_sender (sy_app s)) \<and>
     blk_block_hash b \<in> nd_executed_blocks (sy_node s)"
  using subseq_set [OF submitted_subseq] queued_block by blast

lemma submitted_block_led: "queue_inv led s \<Longrightarrow> b \<in> set (sy_submitted s) \<Longrightarrow> led b"
  using submitted_block by blast

definition submitted_hashes :: "('x, 'w) system \<Rightarrow> b256 set" where
  "submitted_hashes s = blk_block_hash ` set (sy_submitted s)"

definition pointer_inv :: "('x \<Rightarrow> forkchoice_state) \<Rightarrow> b256 \<Rightarrow> ('x, 'w) system \<Rightarrow> bool" where
  "pointer_inv cache g s \<longleftrightarrow>
     dom (ft_pending (ds_tracker (nd_da (sy_node s)))) \<subseteq> submitted_hashes s \<and>
     cf_block_hash ` set (ds_finality_tx (nd_da (sy_node s))) \<subseteq> submitted_hashes s \<and>
     fc_finalized (nd_forkchoice (sy_node s)) \<in> insert g (submitted_hashes s) \<and>
     fc_finalized (cache (nd_exec (sy_node s))) \<in> insert g (submitted_hashes s)"

lemma pointer_published:
  assumes "pointer_inv cache g s" "f = nd_forkchoice (sy_node s) \<or> f = cache (nd_exec (sy_node s))"
    and "fc_finalized f \<noteq> g"
  obtains b where "b \<in> set (sy_submitted s)" "blk_block_hash b = fc_finalized f"
  using assms by (auto simp: pointer_inv_def submitted_hashes_def)

text \<open>
  Head and safe block agree, in the sequencer's forkchoice and in the client's cache; the sequencer's
  head and both finalized blocks are \<open>g\<close> or were executed; and what was executed is in \<open>E\<close> or a final
  block that the finalization loop has read. The cache's head may be a block that the application
  applied and the loop has not executed yet.
\<close>

definition sound_inv :: "('x \<Rightarrow> forkchoice_state) \<Rightarrow> b256 \<Rightarrow> b256 set \<Rightarrow> ('x, 'w) system \<Rightarrow> bool" where
  "sound_inv cache g E s \<longleftrightarrow>
     head_is_safe (nd_forkchoice (sy_node s)) \<and>
     fc_head (nd_forkchoice (sy_node s)) \<in> insert g (nd_executed_blocks (sy_node s)) \<and>
     fc_finalized (nd_forkchoice (sy_node s)) \<in> insert g (nd_executed_blocks (sy_node s)) \<and>
     head_is_safe (cache (nd_exec (sy_node s))) \<and>
     fc_finalized (cache (nd_exec (sy_node s))) \<in> insert g (nd_executed_blocks (sy_node s)) \<and>
     nd_executed_blocks (sy_node s) \<subseteq>
       E \<union> blk_block_hash ` set (take (sy_blocks_read s) (app_block_sender (sy_app s)))"

text \<open>The blocks that the application has broadcast only grow, by at most one for a message.\<close>

lemma process_message_sender:
  assumes "process_message A m w = Some (r, w')"
  shows "app_block_sender (aw_app w') = app_block_sender (aw_app w) \<or>
    (\<exists>b. app_block_sender (aw_app w') = app_block_sender (aw_app w) @ [b])"
  using assms
proof (cases m)
  case M_Propose
  with assms show ?thesis
    by (auto elim!: act_elims propose_outcome simp: app_update_simps)
next
  case (M_Finalize d)
  with assms show ?thesis
    by (auto elim!: act_elims finalize_cases simp: app_update_simps)
next
  case (M_ReceiveBlock d b p)
  with assms show ?thesis
    by (auto elim!: act_elims handle_receive_block_cases simp: app_update_simps)
qed (auto simp: genesis_def verify_def broadcast_def Let_def elim!: act_elims split: if_splits)

lemma take_append_le: "n \<le> length xs \<Longrightarrow> take n (xs @ ys) = take n xs"
  by simp

text \<open>A contract for the whole system: the client through both traits.\<close>

locale system_contract = execution_contract X cache + app_contract A cache
  for X :: "'x execution" and A :: "'x app_env" and cache :: "'x \<Rightarrow> forkchoice_state"
begin

lemma finalized_block_turn:
  assumes "handle_finalized_block (create_finalization_callback X D) b i k n = Some (u, n')"
  shows "process_finalized_block X D b (unat (block_height b) mod k = i) n = Some ((), n')"
  using assms
  by (auto simp: handle_finalized_block_def create_finalization_callback_def is_leader_def
      leader_index_def unwrap_def elim!: act_elims split: option.splits if_splits)

lemma system_step_queue:
  assumes batching: "ce_batch_interval_ms (da_config D) > 0"
    and "system_step A X D i k s s'" "queue_inv (\<lambda>b. unat (block_height b) mod k = i) s"
  shows "queue_inv (\<lambda>b. unat (block_height b) mod k = i) s'"
  using assms(2-)
proof (induction rule: system_step.induct)
  case (message_turn m s r w)
  obtain bs where "app_block_sender (aw_app w) = app_block_sender (sy_app s) @ bs"
    using process_message_sender [OF message_turn.hyps] by (metis append_Nil2 app_world.select_convs(1))
  with message_turn.prems show ?case by (simp add: queue_inv_def)
next
  case (block_turn s n)
  let ?b = "app_block_sender (sy_app s) ! sy_blocks_read s"
  note effect = process_finalized_block_effect [OF finalized_block_turn [OF block_turn.hyps(3)] batching]
  have read: "take (Suc (sy_blocks_read s)) (app_block_sender (sy_app s)) =
      take (sy_blocks_read s) (app_block_sender (sy_app s)) @ [?b]"
    using block_turn.hyps(2) by (rule take_Suc_conv_app_nth)
  let ?led = "\<lambda>b. unat (block_height b) mod k = i"
  let ?q = "nd_batch_queue (sy_node s)"
  let ?read = "filter ?led (take (sy_blocks_read s) (app_block_sender (sy_app s)))"
  have inv: "subseq ?q ?read" "blk_block_hash ` set ?q \<subseteq> nd_executed_blocks (sy_node s)"
    using block_turn.prems by (simp_all add: queue_inv_def)
  have kept: "subseq ?q (?read @ xs)" for xs
    using list_emb_append_mono [OF inv(1), of "[]" xs] by simp
  have added: "subseq (?q @ [?b]) (?read @ [?b])"
    using inv(1) by (simp add: list_emb_append_mono)
  have queue: "nd_batch_queue n = ?q \<or> (?led ?b \<and> nd_batch_queue n = ?q @ [?b] \<and>
      blk_block_hash ?b \<in> nd_executed_blocks n)"
    and executed: "nd_executed_blocks (sy_node s) \<subseteq> nd_executed_blocks n"
    using effect by (auto split: if_splits)
  show ?case
    using queue
  proof
    assume same: "nd_batch_queue n = ?q"
    with inv(2) executed have "blk_block_hash ` set ?q \<subseteq> nd_executed_blocks n" by blast
    with same block_turn.prems block_turn.hyps(2) kept show ?case
      by (simp add: queue_inv_def read)
  next
    assume q: "?led ?b \<and> nd_batch_queue n = ?q @ [?b] \<and> blk_block_hash ?b \<in> nd_executed_blocks n"
    with inv(2) executed have "blk_block_hash ` set (?q @ [?b]) \<subseteq> nd_executed_blocks n" by auto
    with q block_turn.prems block_turn.hyps(2) added show ?case
      by (simp add: queue_inv_def read)
  qed
next
  case (loop_ends s)
  then show ?case by (simp add: queue_inv_def)
next
  case (batch_task_turn s interval max_size e out batches failures b da w)
  have "concat batches @ bt_pending_blocks b = bt_pending_blocks (sy_batch s) @ event_blocks e"
    by (rule batch_turn_blocks(1) [OF batch_task_turn.hyps(4)])
  with batch_task_turn.prems batch_task_turn.hyps(3) show ?case
    by (cases e rule: event_blocks.cases) (auto simp: queue_inv_def take_Suc_conv_app_nth)
next
  case (header_turn h s r da w)
  then show ?case by (simp add: queue_inv_def)
next
  case (confirmation_turn s n)
  with confirmation_pointers [OF confirmation_turn.hyps(2)] show ?case by (simp add: queue_inv_def)
qed

lemma system_step_pointers:
  assumes batching: "ce_batch_interval_ms (da_config D) > 0"
    and "system_step A X D i k s s'" "pointer_inv cache g s"
  shows "pointer_inv cache g s'"
  using assms(2-)
proof (induction rule: system_step.induct)
  case (message_turn m s r w)
  have "fc_finalized (cache (aw_world w)) = fc_finalized (cache (nd_exec (sy_node s)))"
    using process_message_fin [OF message_turn.hyps] by simp
  with message_turn.prems show ?case by (simp add: pointer_inv_def submitted_hashes_def)
next
  case (block_turn s n)
  from process_finalized_block_effect [OF finalized_block_turn [OF block_turn.hyps(3)] batching]
  have "nd_da n = nd_da (sy_node s)"
    "fc_finalized (nd_forkchoice n) = fc_finalized (nd_forkchoice (sy_node s))"
    "fc_finalized (cache (nd_exec n)) \<in>
      {fc_finalized (nd_forkchoice (sy_node s)), fc_finalized (cache (nd_exec (sy_node s)))}"
    by (auto simp: with_soft_def)
  with block_turn.prems show ?case by (auto simp: pointer_inv_def submitted_hashes_def)
next
  case (loop_ends s)
  then show ?case by (simp add: pointer_inv_def submitted_hashes_def)
next
  case (batch_task_turn s interval max_size e out batches failures b da w)
  have hashes: "submitted_hashes (s\<lparr>sy_batch := b, sy_batch_failures := failures,
        sy_batch_running := out = BO_Waiting, sy_queue_read := sy_queue_read s + length (event_blocks e),
        sy_submitted := sy_submitted s @ concat batches,
        sy_node := (sy_node s)\<lparr>nd_da := da, nd_world := w, nd_batch_open := out = BO_Waiting\<rparr>\<rparr>) =
      submitted_hashes s \<union> blk_block_hash ` set (concat batches)"
    by (simp add: submitted_hashes_def image_Un)
  from batch_turn_tracks [OF batch_task_turn.hyps(4)] batch_task_turn.prems show ?case
    unfolding pointer_inv_def hashes by auto
next
  case (header_turn h s r da w)
  let ?dom = "\<lambda>d. dom (ft_pending (ds_tracker d))"
  from process_header_within [OF header_turn.hyps] obtain cs where
    within: "?dom da \<subseteq> ?dom (nd_da (sy_node s))" "cf_block_hash ` set cs \<subseteq> ?dom (nd_da (sy_node s))"
    and tx: "ds_finality_tx da = ds_finality_tx (nd_da (sy_node s)) @ cs"
    by blast
  have pending: "?dom (nd_da (sy_node s)) \<subseteq> submitted_hashes s"
    using header_turn.prems by (simp add: pointer_inv_def)
  note within' = subset_trans [OF within(1) pending] subset_trans [OF within(2) pending]
  have "submitted_hashes (s\<lparr>sy_node := (sy_node s)\<lparr>nd_da := da, nd_world := w\<rparr>\<rparr>) = submitted_hashes s"
    by (simp add: submitted_hashes_def)
  with header_turn.prems within' show ?case
    by (simp add: pointer_inv_def image_Un tx)
next
  case (confirmation_turn s n)
  let ?c = "ds_finality_tx (nd_da (sy_node s)) ! sy_confirmations_read s"
  have "cf_block_hash ?c \<in> submitted_hashes s"
    using confirmation_turn.prems nth_mem [OF confirmation_turn.hyps(1)]
    by (auto simp: pointer_inv_def)
  moreover have "submitted_hashes (s\<lparr>sy_node := n, sy_confirmations_read := Suc (sy_confirmations_read s)\<rparr>) =
      submitted_hashes s"
    by (simp add: submitted_hashes_def)
  ultimately show ?case
    using confirmation_pointers [OF confirmation_turn.hyps(2)] confirmation_turn.prems
    by (auto simp: pointer_inv_def with_firm_def)
qed

text \<open>
  The forkchoice in the running system, with or without batching. \<open>X\<close> are the blocks that were
  executed when the tasks started.
\<close>

lemma system_step_sound:
  assumes "system_step A X D i k s s'" "sound_inv cache g E s"
  shows "sound_inv cache g E s'"
  using assms
proof (induction rule: system_step.induct)
  case (message_turn m s r w)
  obtain bs where "app_block_sender (aw_app w) = app_block_sender (sy_app s) @ bs"
    using process_message_sender [OF message_turn.hyps] by (metis append_Nil2 app_world.select_convs(1))
  with process_message_cache [OF message_turn.hyps] message_turn.prems show ?case
    by (auto simp: sound_inv_def head_is_safe_def with_soft_def)
next
  case (block_turn s n)
  let ?b = "app_block_sender (sy_app s) ! sy_blocks_read s"
  have read: "take (Suc (sy_blocks_read s)) (app_block_sender (sy_app s)) =
      take (sy_blocks_read s) (app_block_sender (sy_app s)) @ [?b]"
    using block_turn.hyps(2) by (rule take_Suc_conv_app_nth)
  from finalized_block_turn [OF block_turn.hyps(3)] show ?case
    by (cases rule: process_finalized_block_result)
      (use block_turn.prems in \<open>auto simp: sound_inv_def head_is_safe_def with_soft_def read\<close>)
next
  case (confirmation_turn s n)
  from confirmation_pointers [OF confirmation_turn.hyps(2)] confirmation_turn.prems show ?case
    by (auto simp: sound_inv_def head_is_safe_def with_firm_def)
qed (auto simp: sound_inv_def)

lemma system_run_sound:
  assumes "system_run A X D i k s s'" "sound_inv cache g E s"
  shows "sound_inv cache g E s'"
  using assms by (induction rule: rtranclp_induct) (auto dest: system_step_sound)

lemma system_run_inv:
  assumes batching: "ce_batch_interval_ms (da_config D) > 0"
    and "system_run A X D i k s s'"
    and "queue_inv (\<lambda>b. unat (block_height b) mod k = i) s" "pointer_inv cache g s"
  shows "queue_inv (\<lambda>b. unat (block_height b) mod k = i) s' \<and> pointer_inv cache g s'"
  using assms(2-)
  by (induction rule: rtranclp_induct)
    (auto dest: system_step_queue [OF batching] system_step_pointers [OF batching])

end

text \<open>The application's own invariants hold of the application in the system.\<close>

context app_invariant begin

lemma system_run_app:
  assumes "system_run E X D i k s s'" "I (sy_app s)" "\<And>m. ok m"
  shows "I (sy_app s')"
  using assms(1,2)
proof (induction rule: rtranclp_induct)
  case base
  then show ?case .
next
  case (step s1 s2)
  have I: "I (sy_app s1)" by (rule step.IH [OF step.prems])
  from step.hyps(2) show ?case
  proof cases
    case (message_turn m r w)
    with process_message_inv [OF _ assms(3) message_turn(2)] I show ?thesis by simp
  qed (use I in simp_all)
qed

end

interpretation sc: system_contract "execution_client E" "client_app_env E sha256 show_epoch" ew_forkchoice
  for E :: "'x exec_env" and sha256 show_epoch
  by unfold_locales

section \<open>The start\<close>

text \<open>What the sync leaves alone.\<close>

definition sync_frame :: "('x, 'w) node \<Rightarrow> ('x, 'w) node \<Rightarrow> bool" where
  "sync_frame n n' \<longleftrightarrow> nd_da n' = nd_da n \<and> nd_batch_queue n' = nd_batch_queue n \<and>
     fc_finalized (nd_forkchoice n') = fc_finalized (nd_forkchoice n)"

lemma sync_frame_refl [simp]: "sync_frame n n"
  "sync_frame n (n\<lparr>nd_world := w\<rparr>)" "sync_frame n (n\<lparr>nd_index := i, nd_world := w\<rparr>)"
  "sync_frame n (n\<lparr>nd_world := w, nd_index := i\<rparr>)" "sync_frame n (n\<lparr>nd_exec := x\<rparr>)"
  "sync_frame n (n\<lparr>nd_executed_blocks := h\<rparr>)"
  by (simp_all add: sync_frame_def)

lemma sync_frame_trans: "sync_frame n n1 \<Longrightarrow> sync_frame n1 n' \<Longrightarrow> sync_frame n n'"
  by (simp add: sync_frame_def)

lemma execute_sync_block_frame: "execute_sync_block X b h n = Some (r, n') \<Longrightarrow> sync_frame n n'"
  unfolding execute_sync_block_def
  by (elim bind_try_SomeE)
    (auto simp: wrap_exec_Some update_and_store_apply sync_frame_def with_soft_def
      split: if_splits option.splits sum.splits)

lemma index_insert_node_frame: "index_insert_node F J e n = Some (r, n') \<Longrightarrow> sync_frame n n'"
  by (erule index_insert_node_result) simp_all

lemma sync_single_block_frame: "sync_single_block X F J b c p n = Some (r, n') \<Longrightarrow> sync_frame n n'"
  unfolding sync_single_block_def Let_def
  by (elim bind_try_SomeE)
    (auto simp: bind_act_def dest!: index_step_result index_insert_node_frame execute_sync_block_frame
      simp: sync_frame_def)

lemma sync_blocks_frame: "sync_blocks X F J bs p l n = Some (r, n') \<Longrightarrow> sync_frame n n'"
proof (induction bs arbitrary: p l n)
  case Nil
  then show ?case by simp
next
  case (Cons cb bs)
  then show ?case
    by (cases cb) (auto elim!: bind_try_SomeE split: if_splits
        dest: sync_single_block_frame intro: sync_frame_trans)
qed

lemma sync_from_celestia_frame: "sync_from_celestia X D F J h n = Some (r, n') \<Longrightarrow> sync_frame n n'"
  unfolding sync_from_celestia_def sync_block_batch_def Let_def
  by (auto elim!: bind_try_SomeE split: option.splits if_splits dest!: fetch_frame sync_blocks_frame
      simp: sync_frame_def)

lemma init_from_celestia_frame: "init_from_celestia X D F J n = Some (r, n') \<Longrightarrow> sync_frame n n'"
  unfolding init_from_celestia_def Let_def
  by (auto elim!: bind_try_SomeE split: if_splits prod.splits sum.splits
      dest!: sync_from_celestia_frame simp: sync_frame_def)

lemma init_celestia_initial: "init_celestia CL H c w = (Inr (ns, da), w1) \<Longrightarrow> da = da_initial"
  by (cases "celestia_new CL H c w"; cases "fst (celestia_new CL H c w)")
    (auto simp: init_celestia_def)

text \<open>During the start nothing is pending, so the headers that arrive release nothing.\<close>

definition tracker_idle :: "('x, 'w) node \<Rightarrow> bool" where
  "tracker_idle n \<longleftrightarrow> ft_pending (ds_tracker (nd_da n)) = Map.empty \<and> ds_finality_tx (nd_da n) = []"

lemma tracker_turns_idle:
  "tracker_turns D hs (s, w) = (s', w') \<Longrightarrow> ft_pending (ds_tracker s) = Map.empty \<Longrightarrow>
     ft_pending (ds_tracker s') = Map.empty \<and> ds_finality_tx s' = ds_finality_tx s"
proof (induction hs arbitrary: s w)
  case (Cons h hs)
  show ?case
  proof (cases "process_header D h (s, w)")
    case None
    with Cons.prems show ?thesis by simp
  next
    case (Some p)
    then obtain r s1 w1 where p: "process_header D h (s, w) = Some (r, s1, w1)" by (cases p) auto
    note within = process_header_within [OF p]
    have "ft_pending (ds_tracker s1) = Map.empty" "ds_finality_tx s1 = ds_finality_tx s"
      using within Cons.prems(2) by auto
    with Cons.IH [of s1 w1] Cons.prems(1) p show ?thesis by simp
  qed
qed simp

lemma tracker_beside_idle: "tracker_idle n \<Longrightarrow> tracker_idle (tracker_beside D hs n)"
  using tracker_turns_idle [of D hs "nd_da n" "nd_world n"]
  by (cases "tracker_turns D hs (nd_da n, nd_world n)") (simp add: tracker_idle_def tracker_beside_def)

lemma init_components_fields:
  assumes "init_components CL E D hs c x w = Some (Inr (E1, D1, n))"
  shows "tracker_idle n" "nd_batch_queue n = []" "da_config D1 = cg_celestia c"
  using assms unfolding init_components_def
  by (auto simp: Let_def split: prod.splits sum.splits option.splits dest!: init_celestia_initial
      intro!: tracker_beside_idle) (simp_all add: tracker_idle_def da_initial_def tracker_new_def)

lemma sorted_wrt_subseq: "subseq xs ys \<Longrightarrow> sorted_wrt R ys \<Longrightarrow> sorted_wrt R xs"
  by (induction rule: list_emb.induct) (auto dest: subseq_set)

lemma consecutive_sorted:
  assumes "map block_height bs = map (\<lambda>i. 1 + of_nat i) [0..<length bs]" "length bs < 2 ^ 64 - 1"
  shows "sorted_wrt (<) (map block_height bs)"
proof -
  have "1 + of_nat i < (1 + of_nat j :: u64)" if "i < j" "j < length bs" for i j
  proof -
    have "unat (1 + of_nat i :: u64) = 1 + i" "unat (1 + of_nat j :: u64) = 1 + j"
      using that assms(2) unat_add_of_nat [of 1 i] unat_add_of_nat [of 1 j] by simp_all
    with that show ?thesis by (simp add: word_less_nat_alt)
  qed
  then show ?thesis
    unfolding assms(1) by (simp add: sorted_wrt_map sorted_wrt_iff_nth_less)
qed

lemma started_system:
  assumes "start_sequencer CL K A F J E D hs c x w = Some (Inr (E1, D1, rc, n))"
  shows "da_config D1 = cg_celestia c"
    and "queue_inv led (system_start (da_config D1) rc n)"
    and "pointer_inv ew_forkchoice (sc_initial_hash rc) (system_start (da_config D1) rc n)"
    and "sound_inv ew_forkchoice (sc_initial_hash rc) (nd_executed_blocks n) (system_start (da_config D1) rc n)"
proof -
  have "da_config D1 = cg_celestia c \<and> queue_inv led (system_start (da_config D1) rc n) \<and>
      pointer_inv ew_forkchoice (sc_initial_hash rc) (system_start (da_config D1) rc n) \<and>
      sound_inv ew_forkchoice (sc_initial_hash rc) (nd_executed_blocks n) (system_start (da_config D1) rc n)"
  proof (rule start_sequencer_Inr [OF assms])
  fix n0 w1 n1
  assume init: "init_components CL E D (fst hs) c x w = Some (Inr (E1, D1, n0))"
    and rc: "build_runtime_config K A (da_host D1) (cg_consensus c) (fc_head (nd_forkchoice n0)) (nd_world n0) =
      (Inr rc, w1)"
    and sync: "init_from_celestia (execution_client E1) D1 F J
      (tracker_beside D1 (fst (snd hs)) (n0\<lparr>nd_world := w1\<rparr>)) = Some (Inr (), n1)"
    and n: "n = tracker_beside D1 (snd (snd hs)) n1"
  obtain g where g: "nd_forkchoice n0 = fc_genesis g"
    using init_components_safe [OF init] by blast
  have hash: "sc_initial_hash rc = g"
    using build_runtime_config_Inr(3) [OF rc] g by (simp add: fc_genesis_def)
  note fields = init_components_fields [OF init]
  note frame = init_from_celestia_frame [OF sync]
  have "tracker_idle (n0\<lparr>nd_world := w1\<rparr>)" using fields(1) by (simp add: tracker_idle_def)
  from tracker_beside_idle [OF this, of D1 "fst (snd hs)"] frame have "tracker_idle n1"
    by (simp add: tracker_idle_def sync_frame_def)
  from tracker_beside_idle [OF this, of D1 "snd (snd hs)"]
  have idle: "ft_pending (ds_tracker (nd_da n)) = Map.empty" "ds_finality_tx (nd_da n) = []"
    by (simp_all add: n tracker_idle_def)
  have queue: "nd_batch_queue n = []" "fc_finalized (nd_forkchoice n) = sc_initial_hash rc"
    using frame fields(2) g by (simp_all add: sync_frame_def fc_genesis_def n hash)
  have safe: "node_safe ew_forkchoice (sc_initial_hash rc) n" by (rule start_sequencer_safe [OF assms])
  then have cache: "ew_forkchoice (nd_exec n) = nd_forkchoice n" by (simp add: node_safe_def)
  have "queue_inv led (system_start (da_config D1) rc n)"
    by (simp add: queue_inv_def system_start_def queue batch_new_def)
  moreover have "pointer_inv ew_forkchoice (sc_initial_hash rc) (system_start (da_config D1) rc n)"
    by (simp add: pointer_inv_def system_start_def submitted_hashes_def queue cache idle)
  moreover have "sound_inv ew_forkchoice (sc_initial_hash rc) (nd_executed_blocks n)
      (system_start (da_config D1) rc n)"
    using safe by (simp add: sound_inv_def node_safe_def system_start_def Let_def)
  ultimately show ?thesis using fields(3) by blast
  qed
  then show "da_config D1 = cg_celestia c" "queue_inv led (system_start (da_config D1) rc n)"
    "pointer_inv ew_forkchoice (sc_initial_hash rc) (system_start (da_config D1) rc n)"
    "sound_inv ew_forkchoice (sc_initial_hash rc) (nd_executed_blocks n) (system_start (da_config D1) rc n)"
    by blast+
qed

text \<open>
  A started node keeps both invariants in every run; the blocks it leads are those whose height is
  its index modulo the number of validators.
\<close>

definition leads_block ::
  "('sk \<Rightarrow> 'pk) \<Rightarrow> ('pk list \<Rightarrow> 'pk list) \<Rightarrow> ('sk, 'pk, 'addr) simplex_config \<Rightarrow> block \<Rightarrow> bool" where
  "leads_block pub dedup rc b \<longleftrightarrow>
     validator_index pub rc = Some (unat (block_height b) mod length (dedup (sc_validators rc)))"

lemma node_runs_inv:
  assumes "start_sequencer CL K A F J E D hs c x w = Some (Inr (E1, D1, rc, n))"
    and "ce_batch_interval_ms (cg_celestia c) > 0"
    and "node_runs pub dedup (client_app_env E1 sha256 show_epoch) (execution_client E1) D1 rc n s"
  shows "queue_inv (leads_block pub dedup rc) s" "pointer_inv ew_forkchoice (sc_initial_hash rc) s"
    "map block_height (app_block_sender (sy_app s)) =
      map (\<lambda>i. 1 + of_nat i) [0..<length (app_block_sender (sy_app s))]"
proof -
  let ?A = "client_app_env E1 sha256 show_epoch"
  from assms(3) obtain i where i: "validator_index pub rc = Some i"
    and run: "system_run ?A (execution_client E1) D1 i (length (dedup (sc_validators rc)))
      (system_start (da_config D1) rc n) s"
    by (auto simp: node_runs_def split: option.splits)
  note start = started_system [OF assms(1)]
  have batching: "ce_batch_interval_ms (da_config D1) > 0" using assms(2) start(1) by simp
  have led: "leads_block pub dedup rc =
      (\<lambda>b. unat (block_height b) mod length (dedup (sc_validators rc)) = i)"
    by (auto simp: leads_block_def i)
  show "queue_inv (leads_block pub dedup rc) s" "pointer_inv ew_forkchoice (sc_initial_hash rc) s"
    using sc.system_run_inv [OF batching run] start(2,3) by (simp_all add: led)
  have "chain_inv 1 (sc_initial_hash rc) (sy_app s)"
    by (rule ci.system_run_app [OF run])
      (simp_all add: system_start_def create_application_def application_new_def chain_inv_def)
  then show "map block_height (app_block_sender (sy_app s)) =
      map (\<lambda>i. 1 + of_nat i) [0..<length (app_block_sender (sy_app s))]"
    by (simp add: chain_inv_def)
qed

lemma node_runs_sound:
  assumes "start_sequencer CL K A F J E D hs c x w = Some (Inr (E1, D1, rc, n))"
    and "node_runs pub dedup (client_app_env E1 sha256 show_epoch) (execution_client E1) D1 rc n s"
  shows "sound_inv ew_forkchoice (sc_initial_hash rc) (nd_executed_blocks n) s"
proof -
  from assms(2) obtain i where "system_run (client_app_env E1 sha256 show_epoch) (execution_client E1) D1 i
      (length (dedup (sc_validators rc))) (system_start (da_config D1) rc n) s"
    by (auto simp: node_runs_def split: option.splits)
  then show ?thesis by (rule sc.system_run_sound [OF _ started_system(4) [OF assms(1)]])
qed

section \<open>Draining the queue\<close>

lemma tick_empties:
  assumes "accepts_batches D" "batch_turn D m BE_Tick f b sw = (out, h, f', b', sw')"
  shows "bt_pending_blocks b' = []"
proof -
  obtain b2 sw2 where sub: "submit_batch D b sw = (True, b2, sw2)"
    using accepted_batch [OF assms(1), of b sw] by (cases "submit_batch D b sw") auto
  then have "bt_pending_blocks b2 = []" by (auto elim: submit_batch_cases)
  with assms(2) sub show ?thesis
    by (auto simp: batch_turn_def wait_for_batch_event_def batch_is_empty_def split: if_splits)
qed

lemma spawned_batch_task:
  "ce_batch_interval_ms c > 0 \<Longrightarrow>
     spawn_batch_task c = Some (ce_batch_interval_ms c, ce_max_batch_size_bytes c)"
  by (auto simp: spawn_batch_task_def Let_def)

context system_contract begin

lemma batch_turn_step:
  assumes "sy_batch_running s" "spawn_batch_task (da_config D) = Some (interval, m)"
    and "accepts_batches D" "batch_input s e" "e \<noteq> BE_Recv None"
  obtains s' h f' b' sw' where "batch_step D s s'"
    "batch_turn D m e (sy_batch_failures s) (sy_batch s) (nd_da (sy_node s), nd_world (sy_node s)) =
      (BO_Waiting, h, f', b', sw')"
    "sy_batch s' = b'" "sy_batch_running s'" "sy_app s' = sy_app s"
    "nd_batch_queue (sy_node s') = nd_batch_queue (sy_node s)"
    "sy_queue_read s' = sy_queue_read s + length (event_blocks e)"
proof -
  obtain h f' b' da w where t: "batch_turn D m e (sy_batch_failures s) (sy_batch s)
      (nd_da (sy_node s), nd_world (sy_node s)) = (BO_Waiting, h, f', b', da, w)"
    using accepted_turn [OF assms(3,5)] by (metis prod.collapse)
  show ?thesis
    by (rule that [OF batch_step.batch_step [OF assms(1,2,4) t] t]) simp_all
qed

lemma queue_drains:
  fixes s :: "('x, 'w) system"
  assumes batching: "ce_batch_interval_ms (da_config D) > 0" and accepts: "accepts_batches D"
    and "queue_inv (\<lambda>b. unat (block_height b) mod k = i) s" "sy_batch_running s"
  shows "\<exists>s'. (batch_step D)\<^sup>*\<^sup>* s s' \<and> sy_batch_running s' \<and> sy_app s' = sy_app s \<and>
    nd_batch_queue (sy_node s') = nd_batch_queue (sy_node s) \<and>
    sy_submitted s' = nd_batch_queue (sy_node s)"
  using assms(3,4)
proof (induction "length (nd_batch_queue (sy_node s)) - sy_queue_read s" arbitrary: s)
  case 0
  note spawn = spawned_batch_task [OF batching]
  have "batch_input s BE_Tick" "BE_Tick \<noteq> BE_Recv None" by simp_all
  from batch_turn_step [OF 0(3) spawn accepts this] obtain s' h f' b' sw' where
    step: "batch_step D s s'"
    and t: "batch_turn D (ce_max_batch_size_bytes (da_config D)) BE_Tick (sy_batch_failures s) (sy_batch s)
      (nd_da (sy_node s), nd_world (sy_node s)) = (BO_Waiting, h, f', b', sw')"
    and s': "sy_batch s' = b'" "sy_batch_running s'" "sy_app s' = sy_app s"
      "nd_batch_queue (sy_node s') = nd_batch_queue (sy_node s)"
      "sy_queue_read s' = sy_queue_read s + length (event_blocks BE_Tick)" by blast
  have "queue_inv (\<lambda>b. unat (block_height b) mod k = i) s'"
    by (rule system_step_queue [OF batching _ 0(2)]) (rule batch_step_system [OF step])
  then have "sy_submitted s' = nd_batch_queue (sy_node s)"
    using tick_empties [OF accepts t] s' 0(1) by (simp add: queue_inv_def)
  with step s' show ?case by blast
next
  case (Suc r)
  note spawn = spawned_batch_task [OF batching]
  let ?e = "BE_Recv (Some (nd_batch_queue (sy_node s) ! sy_queue_read s))"
  have "batch_input s ?e" "?e \<noteq> BE_Recv None" using Suc(2) by simp_all
  from batch_turn_step [OF Suc(4) spawn accepts this] obtain s1 where
    step: "batch_step D s s1" "sy_batch_running s1" "sy_app s1 = sy_app s"
      "nd_batch_queue (sy_node s1) = nd_batch_queue (sy_node s)"
      "sy_queue_read s1 = sy_queue_read s + length (event_blocks ?e)" by blast
  have inv: "queue_inv (\<lambda>b. unat (block_height b) mod k = i) s1"
    by (rule system_step_queue [OF batching _ Suc(3)]) (rule batch_step_system [OF step(1)])
  have "r = length (nd_batch_queue (sy_node s1)) - sy_queue_read s1"
    using Suc(2) step(4,5) by simp
  from Suc(1) [OF this inv step(2)] step(1,3,4) show ?case
    by (metis converse_rtranclp_into_rtranclp)
qed

end

end
