(* ===== verification/Ledger.thy ===== *)
theory Ledger
  imports Pipeline
begin

text \<open>
  What a node promises, without its tasks: a ledger of the final blocks, of those the node has looked
  at, led, published and seen confirmed. A node with batching implements it: every turn of a task in
  \<open>Pipeline\<close> is a step of the ledger or none.
\<close>

section \<open>The ledger\<close>

record ledger =
  lg_final :: "block list"
  lg_seen :: nat
  lg_led :: "block list"
  lg_published :: "block list"
  lg_finalized :: b256

definition ledger_start :: "b256 \<Rightarrow> ledger" where
  "ledger_start g =
     \<lparr>lg_final = [], lg_seen = 0, lg_led = [], lg_published = [], lg_finalized = g\<rparr>"

text \<open>
  A block of the next height becomes final; the next final block is passed over, or, if this node
  leads it, is to be published; the next of these are published; a published block is the finalized
  one.
\<close>

inductive ledger_step :: "(block \<Rightarrow> bool) \<Rightarrow> ledger \<Rightarrow> ledger \<Rightarrow> bool" for led :: "block \<Rightarrow> bool" where
  decide: "block_height b = 1 + of_nat (length (lg_final l)) \<Longrightarrow>
    ledger_step led l (l\<lparr>lg_final := lg_final l @ [b]\<rparr>)"
| pass: "lg_seen l < length (lg_final l) \<Longrightarrow> ledger_step led l (l\<lparr>lg_seen := Suc (lg_seen l)\<rparr>)"
| lead: "lg_seen l < length (lg_final l) \<Longrightarrow> b = lg_final l ! lg_seen l \<Longrightarrow> led b \<Longrightarrow>
    ledger_step led l (l\<lparr>lg_seen := Suc (lg_seen l), lg_led := lg_led l @ [b]\<rparr>)"
| publish: "lg_published l @ bs = take n (lg_led l) \<Longrightarrow>
    ledger_step led l (l\<lparr>lg_published := lg_published l @ bs\<rparr>)"
| confirm: "b \<in> set (lg_published l) \<Longrightarrow> ledger_step led l (l\<lparr>lg_finalized := blk_block_hash b\<rparr>)"

inductive_cases ledger_stepE: "ledger_step led l l'"

text \<open>
  What follows from the ledger alone: final heights count from one; only led final blocks are to be
  published, in their order; what is published is a prefix of these; and the finalized block is the
  genesis block or was published.
\<close>

definition ledger_ok :: "(block \<Rightarrow> bool) \<Rightarrow> b256 \<Rightarrow> ledger \<Rightarrow> bool" where
  "ledger_ok led g l \<longleftrightarrow>
     map block_height (lg_final l) = map (\<lambda>i. 1 + of_nat i) [0..<length (lg_final l)] \<and>
     lg_seen l \<le> length (lg_final l) \<and>
     subseq (lg_led l) (filter led (take (lg_seen l) (lg_final l))) \<and>
     prefix (lg_published l) (lg_led l) \<and>
     lg_finalized l \<in> insert g (blk_block_hash ` set (lg_published l))"

lemma subseq_extend: "subseq xs ys \<Longrightarrow> subseq xs (ys @ zs)"
  using list_emb_append_mono [of "(=)" xs ys "[]" zs] by simp

lemma ledger_step_ok: "ledger_step led l l' \<Longrightarrow> ledger_ok led g l \<Longrightarrow> ledger_ok led g l'"
proof (induction rule: ledger_step.induct)
  case (publish l bs n)
  then have "prefix (lg_published l @ bs) (lg_led l)" by (simp add: take_is_prefix)
  with publish.prems show ?case by (auto simp: ledger_ok_def)
qed (auto simp: ledger_ok_def take_Suc_conv_app_nth subseq_extend list_emb_append_mono prefix_def)

lemma ledger_start_ok: "ledger_ok led g (ledger_start g)"
  by (simp add: ledger_ok_def ledger_start_def)

lemma ledger_reaches_ok: "(ledger_step led)\<^sup>*\<^sup>* (ledger_start g) l \<Longrightarrow> ledger_ok led g l"
  by (induction rule: rtranclp_induct) (rule ledger_start_ok, rule ledger_step_ok)

section \<open>The node as a ledger\<close>

definition ledger_of :: "('x, 'w) system \<Rightarrow> ledger" where
  "ledger_of s =
     \<lparr>lg_final = app_block_sender (sy_app s), lg_seen = sy_blocks_read s,
      lg_led = nd_batch_queue (sy_node s), lg_published = sy_submitted s,
      lg_finalized = fc_finalized (nd_forkchoice (sy_node s))\<rparr>"

lemma ledger_of_fields [simp]:
  "lg_final (ledger_of s) = app_block_sender (sy_app s)" "lg_seen (ledger_of s) = sy_blocks_read s"
  "lg_led (ledger_of s) = nd_batch_queue (sy_node s)" "lg_published (ledger_of s) = sy_submitted s"
  "lg_finalized (ledger_of s) = fc_finalized (nd_forkchoice (sy_node s))"
  by (simp_all add: ledger_of_def)

text \<open>The heights of the blocks that the application has broadcast.\<close>

definition counted :: "block list \<Rightarrow> bool" where
  "counted bs \<longleftrightarrow> map block_height bs = map (\<lambda>i. 1 + of_nat i) [0..<length bs]"

lemma counted_last: "counted (bs @ [b]) \<Longrightarrow> block_height b = 1 + of_nat (length bs)"
  by (simp add: counted_def)

context system_contract begin

lemma system_step_ledger:
  assumes batching: "ce_batch_interval_ms (da_config D) > 0"
    and step: "system_step A X D i k s s'"
    and "queue_inv (\<lambda>b. unat (block_height b) mod k = i) s'" "pointer_inv cache g s"
    and "counted (app_block_sender (sy_app s'))"
  shows "ledger_of s' = ledger_of s \<or>
    ledger_step (\<lambda>b. unat (block_height b) mod k = i) (ledger_of s) (ledger_of s')"
  using step assms(3-)
proof (induction rule: system_step.induct)
  case (message_turn m s r w)
  from process_message_sender [OF message_turn.hyps]
  consider "app_block_sender (aw_app w) = app_block_sender (sy_app s)"
    | b where "app_block_sender (aw_app w) = app_block_sender (sy_app s) @ [b]" by auto
  then show ?case
  proof cases
    case 1
    then show ?thesis by (simp add: ledger_of_def)
  next
    case (2 b)
    with message_turn.prems(3) have "block_height b = 1 + of_nat (length (lg_final (ledger_of s)))"
      by (simp add: counted_last)
    from ledger_step.decide [OF this] show ?thesis by (simp add: ledger_of_def 2)
  qed
next
  case (block_turn s n)
  let ?b = "app_block_sender (sy_app s) ! sy_blocks_read s"
  let ?led = "\<lambda>b. unat (block_height b) mod k = i"
  from process_finalized_block_effect [OF finalized_block_turn [OF block_turn.hyps(3)] batching]
  have queue: "nd_batch_queue n = nd_batch_queue (sy_node s) \<or>
      (?led ?b \<and> nd_batch_queue n = nd_batch_queue (sy_node s) @ [?b])"
    and same: "fc_finalized (nd_forkchoice n) = fc_finalized (nd_forkchoice (sy_node s))"
    by (auto simp: with_soft_def split: if_splits)
  have seen: "lg_seen (ledger_of s) < length (lg_final (ledger_of s))"
    using block_turn.hyps(2) by simp
  from queue show ?case
  proof
    assume "nd_batch_queue n = nd_batch_queue (sy_node s)"
    with ledger_step.pass [OF seen, of ?led] same show ?case by (simp add: ledger_of_def)
  next
    assume "?led ?b \<and> nd_batch_queue n = nd_batch_queue (sy_node s) @ [?b]"
    with ledger_step.lead [OF seen, of ?b ?led] same show ?case by (simp add: ledger_of_def)
  qed
next
  case (loop_ends s)
  then show ?case by (simp add: ledger_of_def)
next
  case (batch_task_turn s interval max_size e out batches failures b da w)
  then obtain n where "sy_submitted s @ concat batches @ bt_pending_blocks b = take n (nd_batch_queue (sy_node s))"
    by (auto simp: queue_inv_def)
  then have "take (length (sy_submitted s @ concat batches)) (take n (nd_batch_queue (sy_node s))) =
      sy_submitted s @ concat batches"
    by (metis append_assoc append_eq_conv_conj)
  then have "lg_published (ledger_of s) @ concat batches =
      take (min (length (sy_submitted s @ concat batches)) n) (lg_led (ledger_of s))"
    by (simp add: min.commute)
  from ledger_step.publish [OF this, of "\<lambda>b. unat (block_height b) mod k = i"] show ?case
    by (simp add: ledger_of_def)
next
  case (header_turn h s r da w)
  then show ?case by (simp add: ledger_of_def)
next
  case (confirmation_turn s n)
  let ?c = "ds_finality_tx (nd_da (sy_node s)) ! sy_confirmations_read s"
  note effect = confirmation_pointers [OF confirmation_turn.hyps(2)]
  from effect(2) consider "nd_forkchoice n = nd_forkchoice (sy_node s)"
    | "nd_forkchoice n = with_firm (nd_forkchoice (sy_node s)) (cf_block_hash ?c)" by blast
  then show ?case
  proof cases
    case 1
    with effect(1) show ?thesis by (simp add: ledger_of_def)
  next
    case 2
    have "cf_block_hash ?c \<in> submitted_hashes s"
      using confirmation_turn.prems(2) nth_mem [OF confirmation_turn.hyps(1)] by (auto simp: pointer_inv_def)
    then obtain b where b: "b \<in> set (lg_published (ledger_of s))" "cf_block_hash ?c = blk_block_hash b"
      by (auto simp: submitted_hashes_def)
    from ledger_step.confirm [OF b(1)] effect(1) 2 b(2) show ?thesis
      by (simp add: ledger_of_def with_firm_def)
  qed
qed

end

lemma started_ledger:
  assumes "start_sequencer CL K A F J E D hs c x w = Some (Inr (E1, D1, rc, n))"
  shows "ledger_of (system_start (da_config D1) rc n) = ledger_start (sc_initial_hash rc)"
proof -
  have inv: "queue_inv (\<lambda>b. True) (system_start (da_config D1) rc n)"
    "pointer_inv ew_forkchoice (sc_initial_hash rc) (system_start (da_config D1) rc n)"
    by (rule started_system [OF assms])+
  from inv(1) have "nd_batch_queue n = []"
    by (auto simp: queue_inv_def system_start_def create_application_def application_new_def
        dest: list_emb_Nil2)
  moreover from inv(2) have "fc_finalized (nd_forkchoice n) = sc_initial_hash rc"
    by (simp add: pointer_inv_def system_start_def submitted_hashes_def)
  ultimately show ?thesis
    by (simp add: ledger_of_def ledger_start_def system_start_def create_application_def
        application_new_def)
qed

end
