(* ===== verification/Cluster.thy ===== *)
theory Cluster
  imports Ledger
begin

text \<open>
  The validators together: every validator is a system of \<open>Pipeline\<close>; what they share is the engine
  of commonware, which finalizes digests of proposed blocks and tells every application in the order
  in which it finalized them, and the block relay, which hands the blocks that one application has
  proposed to the others. The validators are the elements of a type.

  Of the engine nothing is assumed but that it finalizes what was proposed: the same digest twice,
  or two blocks of the same height, as consecutive views can do. A relayed block may arrive late,
  again or never, and a finalization may be lost (the mailbox refuses messages when it is full).
\<close>

section \<open>The cluster\<close>

record ('v, 'x, 'w) cluster =
  cl_system :: "'v \<Rightarrow> ('x, 'w) system"
  cl_decided :: "digest list"
  cl_read :: "'v \<Rightarrow> nat"
  cl_missed :: bool

abbreviation cl_app :: "('v, 'x, 'w) cluster \<Rightarrow> 'v \<Rightarrow> app" where
  "cl_app c v \<equiv> sy_app (cl_system c v)"

text \<open>What any validator has broadcast on its relay channel.\<close>

definition relayed :: "('v, 'x, 'w) cluster \<Rightarrow> proposed_block set" where
  "relayed c = (\<Union>v. set (app_block_relay_sender (cl_app c v)))"

definition set_system :: "'v \<Rightarrow> ('x, 'w) system \<Rightarrow> ('v, 'x, 'w) cluster \<Rightarrow> ('v, 'x, 'w) cluster" where
  "set_system v s c = c\<lparr>cl_system := (cl_system c)(v := s)\<rparr>"

definition read_decision :: "'v \<Rightarrow> bool \<Rightarrow> ('v, 'x, 'w) cluster \<Rightarrow> ('v, 'x, 'w) cluster" where
  "read_decision v missed c =
     c\<lparr>cl_read := (cl_read c)(v := Suc (cl_read c v)), cl_missed := cl_missed c \<or> missed\<rparr>"

text \<open>What a handler of the application works on, and the system after it.\<close>

definition app_part :: "('x, 'w) system \<Rightarrow> 'x app_world" where
  "app_part s = \<lparr>aw_app = sy_app s, aw_world = nd_exec (sy_node s)\<rparr>"

definition answered :: "('x, 'w) system \<Rightarrow> 'x app_world \<Rightarrow> ('x, 'w) system" where
  "answered s w = s\<lparr>sy_app := aw_app w, sy_node := (sy_node s)\<lparr>nd_exec := aw_world w\<rparr>\<rparr>"

lemma app_part_simps [simp]: "aw_app (app_part s) = sy_app s" "sy_app (answered s w) = aw_app w"
  by (simp_all add: app_part_def answered_def)

text \<open>
  The messages that reach an application at any time: those of the engine, except finalizations,
  and blocks that were relayed.
\<close>

fun arrives :: "('v, 'x, 'w) cluster \<Rightarrow> message \<Rightarrow> bool" where
  "arrives c (M_Finalize d) \<longleftrightarrow> False"
| "arrives c (M_ReceiveBlock d b p) \<longleftrightarrow> \<lparr>pb_digest = d, pb_block = b, pb_payload = p\<rparr> \<in> relayed c"
| "arrives c m \<longleftrightarrow> True"

text \<open>The finalized block is the next one of the validator.\<close>

definition next_block :: "('v, 'x, 'w) cluster \<Rightarrow> 'v \<Rightarrow> digest \<Rightarrow> bool" where
  "next_block c v d \<longleftrightarrow>
     (\<exists>p \<in> relayed c. pb_digest p = d \<and> block_height (pb_block p) = app_height (cl_app c v))"

text \<open>
  A validator misses a decision when the next block is final and it does not have the block, or is
  not told; the flag remembers that some validator has.
\<close>

inductive cluster_step ::
  "('v \<Rightarrow> 'x app_env) \<Rightarrow> ('v \<Rightarrow> 'x execution) \<Rightarrow> ('v \<Rightarrow> ('w, 'b, 'h) da_env) \<Rightarrow> ('v \<Rightarrow> nat) \<Rightarrow> ('v \<Rightarrow> nat)
    \<Rightarrow> ('v, 'x, 'w) cluster \<Rightarrow> ('v, 'x, 'w) cluster \<Rightarrow> bool"
  for A :: "'v \<Rightarrow> 'x app_env" and X :: "'v \<Rightarrow> 'x execution" and D :: "'v \<Rightarrow> ('w, 'b, 'h) da_env"
    and our_index num_validators :: "'v \<Rightarrow> nat" where
  engine_decides:
    "p \<in> relayed c \<Longrightarrow>
     cluster_step A X D our_index num_validators c (c\<lparr>cl_decided := cl_decided c @ [pb_digest p]\<rparr>)"
| message_arrives:
    "arrives c m \<Longrightarrow>
     process_message (A v) m (app_part (cl_system c v)) = Some (r, w) \<Longrightarrow>
     cluster_step A X D our_index num_validators c (set_system v (answered (cl_system c v) w) c)"
| finalization_arrives:
    "cl_read c v < length (cl_decided c) \<Longrightarrow> d = cl_decided c ! cl_read c v \<Longrightarrow>
     process_message (A v) (M_Finalize d) (app_part (cl_system c v)) = Some (r, w) \<Longrightarrow>
     cluster_step A X D our_index num_validators c
       (read_decision v (app_pending_blocks (cl_app c v) d = None \<and> next_block c v d)
         (set_system v (answered (cl_system c v) w) c))"
| finalization_lost:
    "cl_read c v < length (cl_decided c) \<Longrightarrow>
     cluster_step A X D our_index num_validators c
       (read_decision v (next_block c v (cl_decided c ! cl_read c v)) c)"
| task_turn:
    "system_step (A v) (X v) (D v) (our_index v) (num_validators v) (cl_system c v) s \<Longrightarrow>
     sy_app s = cl_app c v \<Longrightarrow>
     cluster_step A X D our_index num_validators c (set_system v s c)"

text \<open>A validator after its start: the results of \<open>start_sequencer\<close>.\<close>

record ('x, 'w, 'b, 'h, 'sk, 'pk, 'addr) validator =
  va_exec :: "'x exec_env"
  va_da :: "('w, 'b, 'h) da_env"
  va_config :: "('sk, 'pk, 'addr) simplex_config"
  va_node :: "('x exec_world, 'w) node"

definition cluster_start ::
  "('v \<Rightarrow> ('x, 'w, 'b, 'h, 'sk, 'pk, 'addr) validator) \<Rightarrow> ('v, 'x exec_world, 'w) cluster" where
  "cluster_start V =
     \<lparr>cl_system = (\<lambda>v. system_start (da_config (va_da (V v))) (va_config (V v)) (va_node (V v))),
      cl_decided = [], cl_read = (\<lambda>v. 0), cl_missed = False\<rparr>"

abbreviation validator_step ::
  "('pk list \<Rightarrow> 'pk list) \<Rightarrow> (bytes \<Rightarrow> digest) \<Rightarrow> (u64 \<Rightarrow> string)
    \<Rightarrow> ('v \<Rightarrow> ('x, 'w, 'b, 'h, 'sk, 'pk, 'addr) validator) \<Rightarrow> ('v \<Rightarrow> nat)
    \<Rightarrow> ('v, 'x exec_world, 'w) cluster \<Rightarrow> ('v, 'x exec_world, 'w) cluster \<Rightarrow> bool" where
  "validator_step dedup sha256 show_epoch V our_index \<equiv>
     cluster_step (\<lambda>v. client_app_env (va_exec (V v)) sha256 show_epoch)
       (\<lambda>v. execution_client (va_exec (V v))) (\<lambda>v. va_da (V v)) our_index
       (\<lambda>v. length (dedup (sc_validators (va_config (V v)))))"

definition cluster_runs ::
  "('sk \<Rightarrow> 'pk) \<Rightarrow> ('pk list \<Rightarrow> 'pk list) \<Rightarrow> (bytes \<Rightarrow> digest) \<Rightarrow> (u64 \<Rightarrow> string)
    \<Rightarrow> ('v \<Rightarrow> ('x, 'w, 'b, 'h, 'sk, 'pk, 'addr) validator) \<Rightarrow> ('v, 'x exec_world, 'w) cluster \<Rightarrow> bool" where
  "cluster_runs pub dedup sha256 show_epoch V c \<longleftrightarrow>
     (\<exists>our_index. (\<forall>v. validator_index pub (va_config (V v)) = Some (our_index v)) \<and>
        (validator_step dedup sha256 show_epoch V our_index)\<^sup>*\<^sup>* (cluster_start V) c)"

text \<open>A state that the validators reach from another one, by any of their steps.\<close>

definition cluster_continues ::
  "('sk \<Rightarrow> 'pk) \<Rightarrow> ('pk list \<Rightarrow> 'pk list) \<Rightarrow> (bytes \<Rightarrow> digest) \<Rightarrow> (u64 \<Rightarrow> string)
    \<Rightarrow> ('v \<Rightarrow> ('x, 'w, 'b, 'h, 'sk, 'pk, 'addr) validator) \<Rightarrow> ('v, 'x exec_world, 'w) cluster
    \<Rightarrow> ('v, 'x exec_world, 'w) cluster \<Rightarrow> bool" where
  "cluster_continues pub dedup sha256 show_epoch V c c' \<longleftrightarrow>
     (\<exists>our_index. (\<forall>v. validator_index pub (va_config (V v)) = Some (our_index v)) \<and>
        (validator_step dedup sha256 show_epoch V our_index)\<^sup>*\<^sup>* c c')"

lemma cluster_runs_continues:
  assumes "cluster_runs pub dedup sha256 show_epoch V c" "cluster_continues pub dedup sha256 show_epoch V c c'"
  shows "cluster_runs pub dedup sha256 show_epoch V c'"
proof -
  from assms obtain i j where i: "\<forall>v. validator_index pub (va_config (V v)) = Some (i v)"
      "(validator_step dedup sha256 show_epoch V i)\<^sup>*\<^sup>* (cluster_start V) c"
    and j: "\<forall>v. validator_index pub (va_config (V v)) = Some (j v)"
      "(validator_step dedup sha256 show_epoch V j)\<^sup>*\<^sup>* c c'"
    unfolding cluster_runs_def cluster_continues_def by blast
  have "i = j" by (rule ext) (use i(1) j(1) in simp)
  with i j show ?thesis unfolding cluster_runs_def by (blast intro: rtranclp_trans)
qed

section \<open>The replicated log\<close>

text \<open>
  The specification: every validator's chain is computed from the decisions alone. A decided block
  extends the chain when it has the next height and is passed over otherwise.
\<close>

definition extend :: "(digest \<Rightarrow> block) \<Rightarrow> block list \<Rightarrow> digest \<Rightarrow> block list" where
  "extend T bs d = (if block_height (T d) = 1 + of_nat (length bs) then bs @ [T d] else bs)"

definition chain :: "(digest \<Rightarrow> block) \<Rightarrow> digest list \<Rightarrow> block list" where
  "chain T ds = foldl (extend T) [] ds"

lemma chain_snoc: "chain T (ds @ [d]) = extend T (chain T ds) d"
  by (simp add: chain_def)

lemma extend_prefix: "prefix bs (extend T bs d)"
  by (simp add: extend_def)

lemma foldl_extend_prefix: "prefix bs (foldl (extend T) bs ds)"
proof (induction ds arbitrary: bs)
  case (Cons d ds)
  have "prefix bs (extend T bs d)" by (rule extend_prefix)
  also have "prefix (extend T bs d) (foldl (extend T) (extend T bs d) ds)" by (rule Cons.IH)
  finally show ?case by simp
qed simp

lemma chain_take_prefix: "m \<le> n \<Longrightarrow> prefix (chain T (take m ds)) (chain T (take n ds))"
proof -
  assume "m \<le> n"
  then have "take n ds = take m ds @ take (n - m) (drop m ds)"
    by (metis le_add_diff_inverse take_add)
  then show ?thesis by (simp add: chain_def foldl_extend_prefix)
qed

text \<open>The digests of relayed blocks name them: no two blocks share a digest.\<close>

definition names_blocks :: "(digest \<Rightarrow> block) \<Rightarrow> ('v, 'x, 'w) cluster \<Rightarrow> bool" where
  "names_blocks T c \<longleftrightarrow> (\<forall>p \<in> relayed c. pb_block p = T (pb_digest p))"

section \<open>What a message does to an application\<close>

lemma finalization_effect:
  assumes "process_message A (M_Finalize d) w = Some (r, w')"
  shows "app_block_relay_sender (aw_app w') = app_block_relay_sender (aw_app w)"
    and "app_pending_blocks (aw_app w') \<subseteq>\<^sub>m app_pending_blocks (aw_app w)"
    and "if \<exists>b. app_pending_blocks (aw_app w) d = Some b \<and> block_height b = app_height (aw_app w)
      then app_block_sender (aw_app w') = app_block_sender (aw_app w) @ [the (app_pending_blocks (aw_app w) d)] \<and>
        app_height (aw_app w') = app_height (aw_app w) + 1
      else app_block_sender (aw_app w') = app_block_sender (aw_app w) \<and>
        app_height (aw_app w') = app_height (aw_app w)"
proof -
  from assms obtain x where "finalize A d w = Some (x, w')" by (auto elim!: act_elims)
  then have "app_block_relay_sender (aw_app w') = app_block_relay_sender (aw_app w) \<and>
    app_pending_blocks (aw_app w') \<subseteq>\<^sub>m app_pending_blocks (aw_app w) \<and>
    (if \<exists>b. app_pending_blocks (aw_app w) d = Some b \<and> block_height b = app_height (aw_app w)
      then app_block_sender (aw_app w') = app_block_sender (aw_app w) @ [the (app_pending_blocks (aw_app w) d)] \<and>
        app_height (aw_app w') = app_height (aw_app w) + 1
      else app_block_sender (aw_app w') = app_block_sender (aw_app w) \<and>
        app_height (aw_app w') = app_height (aw_app w))"
    by (cases rule: finalize_cases) (auto simp: app_update_simps map_le_def dom_def split: if_splits)
  then show "app_block_relay_sender (aw_app w') = app_block_relay_sender (aw_app w)"
    "app_pending_blocks (aw_app w') \<subseteq>\<^sub>m app_pending_blocks (aw_app w)"
    "if \<exists>b. app_pending_blocks (aw_app w) d = Some b \<and> block_height b = app_height (aw_app w)
      then app_block_sender (aw_app w') = app_block_sender (aw_app w) @ [the (app_pending_blocks (aw_app w) d)] \<and>
        app_height (aw_app w') = app_height (aw_app w) + 1
      else app_block_sender (aw_app w') = app_block_sender (aw_app w) \<and>
        app_height (aw_app w') = app_height (aw_app w)" by blast+
qed

lemma finalize_unknown_keeps:
  assumes "process_message A (M_Finalize d) w = Some (r, w')"
    and "app_pending_blocks (aw_app w) d = None" "app_pending_blocks (aw_app w) d' = Some b"
  shows "app_pending_blocks (aw_app w') d' = Some b"
proof -
  from assms(1) obtain x where "finalize A d w = Some (x, w')" by (auto elim!: act_elims)
  then show ?thesis by (cases rule: finalize_cases) (use assms(2,3) in \<open>simp_all add: app_update_simps\<close>)
qed

lemma message_effect:
  assumes "process_message A m w = Some (r, w')" "arrives c m"
  shows "(app_block_sender (aw_app w') = app_block_sender (aw_app w) \<and>
      app_height (aw_app w') = app_height (aw_app w)) \<and>
    (\<exists>ps. app_block_relay_sender (aw_app w') = app_block_relay_sender (aw_app w) @ ps \<and>
      (\<forall>d b. app_pending_blocks (aw_app w') d = Some b \<longrightarrow>
         app_pending_blocks (aw_app w) d = Some b \<or>
         (\<exists>p \<in> set ps \<union> relayed c. pb_digest p = d \<and> pb_block p = b)))"
    (is "?same \<and> (\<exists>ps. ?relay ps \<and> ?pending ps)")
proof (cases m)
  case M_Propose
  with assms(1) obtain d where "propose A w = Some (d, w')" by (auto elim!: act_elims)
  then show ?thesis
  proof (cases rule: propose_outcome)
    case 1
    then show ?thesis by simp
  next
    case (2 p)
    then have "?same" "?relay [\<lparr>pb_digest = d, pb_block = build_block_from_payload p, pb_payload = p\<rparr>]"
      "?pending [\<lparr>pb_digest = d, pb_block = build_block_from_payload p, pb_payload = p\<rparr>]"
      by (simp_all add: app_update_simps)
    then show ?thesis by blast
  qed
next
  case (M_ReceiveBlock d b p)
  with assms(1) obtain x where "handle_receive_block A d b p w = Some (x, w')" by (auto elim!: act_elims)
  then show ?thesis
  proof (cases rule: handle_receive_block_cases)
    case known
    then show ?thesis by simp
  next
    case (received v)
    have "\<lparr>pb_digest = d, pb_block = b, pb_payload = p\<rparr> \<in> relayed c"
      using assms(2) M_ReceiveBlock by simp
    then have "\<exists>q \<in> set [] \<union> relayed c. pb_digest q = d \<and> pb_block q = b"
      by (intro bexI [where x = "\<lparr>pb_digest = d, pb_block = b, pb_payload = p\<rparr>"]) simp_all
    then have "?pending []" using received(2) by (simp add: app_update_simps)
    moreover have "?same" "?relay []" using received(2) by (simp_all add: app_update_simps)
    ultimately show ?thesis by blast
  qed
qed (use assms in \<open>auto simp: genesis_def verify_def broadcast_def Let_def elim!: act_elims split: if_splits\<close>)

section \<open>The invariant\<close>

text \<open>
  Of one validator, with what was relayed and decided so far: what is pending was relayed; the chain
  has consecutive heights and consists of decided blocks.
\<close>

definition app_ok :: "proposed_block set \<Rightarrow> digest list \<Rightarrow> app \<Rightarrow> bool" where
  "app_ok R ds a \<longleftrightarrow>
     (\<forall>d b. app_pending_blocks a d = Some b \<longrightarrow> (\<exists>p \<in> R. pb_digest p = d \<and> pb_block p = b)) \<and>
     app_height a = 1 + of_nat (length (app_block_sender a)) \<and> counted (app_block_sender a) \<and>
     (\<forall>b \<in> set (app_block_sender a). \<exists>p \<in> R. pb_digest p \<in> set ds \<and> pb_block p = b)"

lemma app_ok_mono: "app_ok R ds a \<Longrightarrow> R \<subseteq> R' \<Longrightarrow> set ds \<subseteq> set ds' \<Longrightarrow> app_ok R' ds' a"
  unfolding app_ok_def by blast

lemma app_ok_pending: "app_ok R ds a \<Longrightarrow> app_pending_blocks a d = Some b \<Longrightarrow>
    \<exists>p \<in> R. pb_digest p = d \<and> pb_block p = b"
  by (simp add: app_ok_def)

lemma counted_snoc: "counted (bs @ [b]) \<longleftrightarrow> counted bs \<and> block_height b = 1 + of_nat (length bs)"
  by (simp add: counted_def)

definition cluster_ok :: "('v, 'x, 'w) cluster \<Rightarrow> bool" where
  "cluster_ok c \<longleftrightarrow>
     (\<forall>v. app_ok (relayed c) (cl_decided c) (cl_app c v)) \<and>
     (\<forall>v. cl_read c v \<le> length (cl_decided c)) \<and>
     (\<forall>d \<in> set (cl_decided c). \<exists>p \<in> relayed c. pb_digest p = d)"

text \<open>The validators follow the replicated log, as long as none has missed a decision.\<close>

definition follows :: "(digest \<Rightarrow> block) \<Rightarrow> ('v, 'x, 'w) cluster \<Rightarrow> bool" where
  "follows T c \<longleftrightarrow> (\<not> cl_missed c \<longrightarrow>
     (\<forall>v. app_block_sender (cl_app c v) = chain T (take (cl_read c v) (cl_decided c))))"

lemma set_system_simps [simp]:
  "cl_system (set_system v s c) = (cl_system c)(v := s)" "cl_decided (set_system v s c) = cl_decided c"
  "cl_read (set_system v s c) = cl_read c" "cl_missed (set_system v s c) = cl_missed c"
  by (simp_all add: set_system_def)

lemma read_decision_simps [simp]:
  "cl_system (read_decision v m c) = cl_system c" "cl_decided (read_decision v m c) = cl_decided c"
  "cl_read (read_decision v m c) = (cl_read c)(v := Suc (cl_read c v))"
  "cl_missed (read_decision v m c) \<longleftrightarrow> cl_missed c \<or> m"
  "relayed (read_decision v m c) = relayed c"
  by (simp_all add: read_decision_def relayed_def)

lemma relayed_extended:
  assumes "app_block_relay_sender (sy_app s) = app_block_relay_sender (cl_app c v) @ ps"
  shows "relayed (set_system v s c) = relayed c \<union> set ps"
  using assms by (auto simp: relayed_def split: if_splits)

lemma relayed_kept:
  "app_block_relay_sender (sy_app s) = app_block_relay_sender (cl_app c v) \<Longrightarrow>
     relayed (set_system v s c) = relayed c"
  using relayed_extended [of s c v "[]"] by simp

text \<open>What was relayed stays relayed.\<close>

lemma cluster_step_relayed:
  assumes "cluster_step A X D i k c c'"
  shows "relayed c \<subseteq> relayed c'"
  using assms
proof cases
  case (engine_decides p)
  then show ?thesis by (simp add: relayed_def)
next
  case (message_arrives m v r w)
  obtain ps where "app_block_relay_sender (aw_app w) = app_block_relay_sender (cl_app c v) @ ps"
    using message_effect [OF message_arrives(3,2)] by auto
  then show ?thesis
    unfolding message_arrives(1) by (subst relayed_extended [of _ _ _ ps]) simp_all
next
  case (finalization_arrives v d r w)
  show ?thesis
    using finalization_effect(1) [OF finalization_arrives(4)]
    by (simp add: finalization_arrives(1) relayed_kept)
next
  case (finalization_lost v)
  then show ?thesis by simp
next
  case (task_turn v s)
  then show ?thesis by (simp add: relayed_kept)
qed

lemma app_ok_message:
  assumes "process_message A m (app_part s) = Some (r, w)" "arrives c m"
    and "app_ok (relayed c) ds (sy_app s)"
    and "app_block_relay_sender (aw_app w) = app_block_relay_sender (sy_app s) @ ps"
  shows "app_ok (relayed c \<union> set ps) ds (aw_app w)"
proof -
  from message_effect [OF assms(1,2)] assms(4)
  have same: "app_block_sender (aw_app w) = app_block_sender (sy_app s)"
      "app_height (aw_app w) = app_height (sy_app s)"
    and pending: "\<And>d b. app_pending_blocks (aw_app w) d = Some b \<Longrightarrow>
      app_pending_blocks (sy_app s) d = Some b \<or> (\<exists>p \<in> set ps \<union> relayed c. pb_digest p = d \<and> pb_block p = b)"
    by auto
  have "\<exists>p \<in> relayed c \<union> set ps. pb_digest p = d \<and> pb_block p = b"
    if "app_pending_blocks (aw_app w) d = Some b" for d b
    using pending [OF that] app_ok_pending [OF assms(3), of d b] by blast
  with assms(3) show ?thesis unfolding app_ok_def same by blast
qed

lemma app_ok_finalization:
  assumes "process_message A (M_Finalize d) (app_part s) = Some (r, w)"
    and "app_ok R ds (sy_app s)" "d \<in> set ds"
  shows "app_ok R ds (aw_app w)"
proof -
  note effect = finalization_effect [OF assms(1)]
  have pending: "\<exists>p \<in> R. pb_digest p = x \<and> pb_block p = b" if "app_pending_blocks (aw_app w) x = Some b" for x b
  proof -
    have "app_pending_blocks (sy_app s) x = Some b"
      using effect(2) that by (force simp: map_le_def)
    then show ?thesis by (rule app_ok_pending [OF assms(2)])
  qed
  show ?thesis
  proof (cases "\<exists>b. app_pending_blocks (sy_app s) d = Some b \<and> block_height b = app_height (sy_app s)")
    case True
    then obtain b where b: "app_pending_blocks (sy_app s) d = Some b" "block_height b = app_height (sy_app s)"
      by blast
    from app_ok_pending [OF assms(2) b(1)] assms(3)
    have "\<exists>p \<in> R. pb_digest p \<in> set ds \<and> pb_block p = b" by blast
    moreover have "app_block_sender (aw_app w) = app_block_sender (sy_app s) @ [b]"
      "app_height (aw_app w) = app_height (sy_app s) + 1"
      using effect(3) b by simp_all
    ultimately show ?thesis
      using assms(2) pending b(2) by (simp add: app_ok_def counted_snoc)
  next
    case False
    then have "app_block_sender (aw_app w) = app_block_sender (sy_app s)"
      "app_height (aw_app w) = app_height (sy_app s)"
      using effect(3) by simp_all
    with assms(2) pending show ?thesis by (simp add: app_ok_def)
  qed
qed

lemma cluster_step_ok:
  assumes "cluster_step A X D i k c c'" "cluster_ok c"
  shows "cluster_ok c'"
  using assms(1)
proof cases
  case (engine_decides p)
  have "relayed c' = relayed c" by (simp add: engine_decides(1) relayed_def)
  moreover have "app_ok (relayed c) (cl_decided c @ [pb_digest p]) (cl_app c u)" for u
    by (rule app_ok_mono [where R = "relayed c" and ds = "cl_decided c"])
      (use assms(2) in \<open>auto simp: cluster_ok_def\<close>)
  moreover have "cl_read c u \<le> Suc (length (cl_decided c))" for u
    using assms(2) by (simp add: cluster_ok_def le_Suc_eq)
  ultimately show ?thesis
    using assms(2) engine_decides(2) unfolding cluster_ok_def by (auto simp: engine_decides(1))
next
  case (message_arrives m v r w)
  obtain ps where ps: "app_block_relay_sender (aw_app w) = app_block_relay_sender (cl_app c v) @ ps"
    using message_effect [OF message_arrives(3,2)] by auto
  have R: "relayed c' = relayed c \<union> set ps"
    unfolding message_arrives(1) by (rule relayed_extended) (simp add: ps)
  have "app_ok (relayed c') (cl_decided c) (aw_app w)"
    unfolding R by (rule app_ok_message [OF message_arrives(3,2) _ ps]) (use assms(2) in \<open>simp add: cluster_ok_def\<close>)
  moreover have "app_ok (relayed c') (cl_decided c) (cl_app c u)" for u
    by (rule app_ok_mono [where R = "relayed c" and ds = "cl_decided c"])
      (use assms(2) in \<open>simp_all add: cluster_ok_def R\<close>)
  ultimately show ?thesis
    using assms(2) R unfolding cluster_ok_def by (auto simp: message_arrives(1))
next
  case (finalization_arrives v d r w)
  have R: "relayed c' = relayed c"
    using finalization_effect(1) [OF finalization_arrives(4)]
    by (simp add: finalization_arrives(1) relayed_kept)
  have "app_ok (relayed c) (cl_decided c) (aw_app w)"
    by (rule app_ok_finalization [OF finalization_arrives(4)])
      (use assms(2) finalization_arrives(2,3) in \<open>simp_all add: cluster_ok_def\<close>)
  with assms(2) R finalization_arrives(2) show ?thesis
    unfolding cluster_ok_def by (auto simp: finalization_arrives(1))
next
  case (finalization_lost v)
  with assms(2) show ?thesis by (auto simp: cluster_ok_def)
next
  case (task_turn v s)
  then have "relayed c' = relayed c" by (simp add: relayed_kept)
  with assms(2) task_turn(3) show ?thesis by (auto simp: cluster_ok_def task_turn(1))
qed

text \<open>One more decision read: the chain is extended exactly when the application takes the block.\<close>

lemma chain_take_Suc:
  assumes "n < length ds"
  shows "chain T (take (Suc n) ds) = extend T (chain T (take n ds)) (ds ! n)"
  using assms by (simp add: take_Suc_conv_app_nth chain_snoc)

lemma not_next_block:
  assumes "cluster_ok c" "names_blocks T c" "cl_read c v < length (cl_decided c)"
    and "\<not> next_block c v (cl_decided c ! cl_read c v)"
  shows "block_height (T (cl_decided c ! cl_read c v)) \<noteq> app_height (cl_app c v)"
proof -
  obtain p where p: "p \<in> relayed c" "pb_digest p = cl_decided c ! cl_read c v"
    using assms(1,3) nth_mem [OF assms(3)] unfolding cluster_ok_def by blast
  with assms(2) have "pb_block p = T (cl_decided c ! cl_read c v)"
    by (simp add: names_blocks_def)
  with assms(4) p show ?thesis by (auto simp: next_block_def)
qed

lemma cluster_step_follows:
  assumes "cluster_step A X D i k c c'" "cluster_ok c" "names_blocks T c" "follows T c"
  shows "follows T c'"
  using assms(1)
proof cases
  case (engine_decides p)
  have "take (cl_read c v) (cl_decided c @ [pb_digest p]) = take (cl_read c v) (cl_decided c)" for v
    using assms(2) by (simp add: cluster_ok_def)
  with assms(4) show ?thesis by (simp add: follows_def engine_decides(1))
next
  case (message_arrives m v r w)
  have "app_block_sender (aw_app w) = app_block_sender (cl_app c v)"
    using message_effect [OF message_arrives(3,2)] by simp
  with assms(4) show ?thesis by (simp add: follows_def message_arrives(1))
next
  case (finalization_arrives v d r w)
  have app: "app_height (cl_app c v) = 1 + of_nat (length (app_block_sender (cl_app c v)))"
      "app_ok (relayed c) (cl_decided c) (cl_app c v)"
    using assms(2) by (simp_all add: cluster_ok_def app_ok_def)
  note effect = finalization_effect(3) [OF finalization_arrives(4)]
  have "app_block_sender (aw_app w) = extend T (app_block_sender (cl_app c v)) d"
    if missed: "\<not> (app_pending_blocks (cl_app c v) d = None \<and> next_block c v d)"
  proof (cases "app_pending_blocks (cl_app c v) d")
    case None
    with missed have "block_height (T d) \<noteq> app_height (cl_app c v)"
      using not_next_block [OF assms(2,3) finalization_arrives(2)] finalization_arrives(3) by simp
    with effect None app(1) show ?thesis by (simp add: extend_def)
  next
    case (Some b)
    from app_ok_pending [OF app(2) Some] assms(3) have "b = T d" by (auto simp: names_blocks_def)
    with effect Some app(1) show ?thesis by (auto simp: extend_def)
  qed
  with assms(4) finalization_arrives(2,3) show ?thesis
    by (auto simp: follows_def finalization_arrives(1) chain_take_Suc)
next
  case (finalization_lost v)
  have "app_height (cl_app c v) = 1 + of_nat (length (app_block_sender (cl_app c v)))"
    using assms(2) by (simp add: cluster_ok_def app_ok_def)
  with assms(4) not_next_block [OF assms(2,3) finalization_lost(2)] finalization_lost(2) show ?thesis
    by (auto simp: follows_def finalization_lost(1) chain_take_Suc extend_def)
next
  case (task_turn v s)
  with assms(4) show ?thesis by (simp add: follows_def)
qed

section \<open>Runs\<close>

lemma cluster_start_ok:
  "cluster_ok (cluster_start V)" "follows T (cluster_start V)"
  by (simp_all add: cluster_ok_def follows_def cluster_start_def app_ok_def counted_def chain_def
      system_start_def create_application_def application_new_def)

lemma names_blocks_mono: "relayed c \<subseteq> relayed c' \<Longrightarrow> names_blocks T c' \<Longrightarrow> names_blocks T c"
  by (auto simp: names_blocks_def)

lemma cluster_run_ok:
  "(cluster_step A X D i k)\<^sup>*\<^sup>* c c' \<Longrightarrow> cluster_ok c \<Longrightarrow> cluster_ok c'"
  by (induction rule: rtranclp_induct) (auto intro: cluster_step_ok)

lemma cluster_run_follows:
  assumes "(cluster_step A X D i k)\<^sup>*\<^sup>* c c'" "cluster_ok c" "follows T c" "names_blocks T c'"
  shows "follows T c'"
  using assms
proof (induction rule: rtranclp_induct)
  case (step c1 c2)
  have "names_blocks T c1"
    by (rule names_blocks_mono [OF cluster_step_relayed [OF step.hyps(2)] step.prems(3)])
  moreover have "cluster_ok c1" by (rule cluster_run_ok [OF step.hyps(1) step.prems(1)])
  ultimately show ?case
    using cluster_step_follows [OF step.hyps(2)] step.IH step.prems(1,2) by simp
qed

text \<open>Each validator runs as in \<open>Pipeline\<close>.\<close>

lemma cluster_step_system:
  assumes "cluster_step A X D i k c c'"
  shows "system_run (A v) (X v) (D v) (i v) (k v) (cl_system c v) (cl_system c' v)"
  using assms
proof cases
  case (message_arrives m u r w)
  show ?thesis
  proof (cases "u = v")
    case True
    with message_turn [OF message_arrives(3) [unfolded app_part_def], of "X v" "D v" "i v" "k v"]
    show ?thesis by (simp add: message_arrives(1) answered_def r_into_rtranclp)
  qed (simp add: message_arrives(1))
next
  case (finalization_arrives u d r w)
  show ?thesis
  proof (cases "u = v")
    case True
    with message_turn [OF finalization_arrives(4) [unfolded app_part_def], of "X v" "D v" "i v" "k v"]
    show ?thesis by (simp add: finalization_arrives(1) answered_def r_into_rtranclp)
  qed (simp add: finalization_arrives(1))
qed (auto simp: r_into_rtranclp)

lemma cluster_run_system:
  assumes "(cluster_step A X D i k)\<^sup>*\<^sup>* c c'"
  shows "system_run (A v) (X v) (D v) (i v) (k v) (cl_system c v) (cl_system c' v)"
  using assms
  by (induction rule: rtranclp_induct) (auto dest: cluster_step_system [where v = v])

lemma cluster_runs_nodes:
  assumes "cluster_runs pub dedup sha256 show_epoch V c"
  shows "node_runs pub dedup (client_app_env (va_exec (V v)) sha256 show_epoch)
    (execution_client (va_exec (V v))) (va_da (V v)) (va_config (V v)) (va_node (V v)) (cl_system c v)"
  using assms cluster_run_system [where v = v]
  by (fastforce simp: cluster_runs_def node_runs_def cluster_start_def)

text \<open>Two chains with consecutive heights that agree on every height are one a prefix of the other.\<close>

lemma prefix_by_nth:
  assumes "length xs \<le> length ys" "\<And>i. i < length xs \<Longrightarrow> xs ! i = ys ! i"
  shows "prefix xs ys"
proof -
  have "xs = take (length xs) ys" using assms by (auto intro: nth_equalityI)
  then show ?thesis by (metis take_is_prefix)
qed

definition one_per_height :: "('v, 'x, 'w) cluster \<Rightarrow> bool" where
  "one_per_height c \<longleftrightarrow>
     (\<forall>p \<in> relayed c. \<forall>q \<in> relayed c. pb_digest p \<in> set (cl_decided c) \<longrightarrow> pb_digest q \<in> set (cl_decided c) \<longrightarrow>
        block_height (pb_block p) = block_height (pb_block q) \<longrightarrow> pb_block p = pb_block q)"

lemma counted_nth:
  assumes "counted bs" "i < length bs"
  shows "block_height (bs ! i) = 1 + of_nat i"
proof -
  have "map block_height bs ! i = map (\<lambda>i. 1 + of_nat i) [0..<length bs] ! i"
    by (rule arg_cong [OF assms(1) [unfolded counted_def]])
  with assms(2) show ?thesis by simp
qed

lemma one_per_height_agrees:
  assumes "cluster_ok c" "one_per_height c"
    and "length (app_block_sender (cl_app c u)) \<le> length (app_block_sender (cl_app c v))"
  shows "prefix (app_block_sender (cl_app c u)) (app_block_sender (cl_app c v))"
proof (rule prefix_by_nth [OF assms(3)])
  fix i
  assume i: "i < length (app_block_sender (cl_app c u))"
  let ?b = "app_block_sender (cl_app c u) ! i" and ?b' = "app_block_sender (cl_app c v) ! i"
  have ok: "app_ok (relayed c) (cl_decided c) (cl_app c u)" "app_ok (relayed c) (cl_decided c) (cl_app c v)"
    using assms(1) by (simp_all add: cluster_ok_def)
  have "?b \<in> set (app_block_sender (cl_app c u))" "?b' \<in> set (app_block_sender (cl_app c v))"
    using i assms(3) by simp_all
  then obtain p q where "p \<in> relayed c" "pb_digest p \<in> set (cl_decided c)" "pb_block p = ?b"
    and "q \<in> relayed c" "pb_digest q \<in> set (cl_decided c)" "pb_block q = ?b'"
    using ok unfolding app_ok_def by meson
  moreover have "block_height ?b = block_height ?b'"
    using ok i assms(3) by (simp add: app_ok_def counted_nth)
  ultimately show "?b = ?b'" using assms(2) unfolding one_per_height_def by metis
qed

lemma follows_agrees:
  assumes "follows T c" "\<not> cl_missed c" "cl_read c u \<le> cl_read c v"
  shows "prefix (app_block_sender (cl_app c u)) (app_block_sender (cl_app c v))"
  using assms by (simp add: follows_def chain_take_prefix)

lemma cluster_runs_ok:
  assumes "cluster_runs pub dedup sha256 show_epoch V c"
  shows "cluster_ok c"
proof -
  from assms obtain i where "(validator_step dedup sha256 show_epoch V i)\<^sup>*\<^sup>* (cluster_start V) c"
    by (auto simp: cluster_runs_def)
  then show ?thesis by (rule cluster_run_ok [OF _ cluster_start_ok(1)])
qed

lemma cluster_runs_follows:
  assumes "cluster_runs pub dedup sha256 show_epoch V c" "names_blocks T c"
  shows "follows T c"
proof -
  from assms(1) obtain i where "(validator_step dedup sha256 show_epoch V i)\<^sup>*\<^sup>* (cluster_start V) c"
    by (auto simp: cluster_runs_def)
  then show ?thesis by (rule cluster_run_follows [OF _ cluster_start_ok assms(2)])
qed

text \<open>
  Agreement: all validators read the same decisions in the same order, or there is one decision per
  height.
\<close>

definition agrees :: "(digest \<Rightarrow> block) \<Rightarrow> ('v, 'x, 'w) cluster \<Rightarrow> bool" where
  "agrees T c \<longleftrightarrow> names_blocks T c \<and> \<not> cl_missed c \<or> one_per_height c"

lemma cluster_agreement:
  assumes "cluster_runs pub dedup sha256 show_epoch V c" "agrees T c"
  shows "prefix (app_block_sender (cl_app c u)) (app_block_sender (cl_app c v)) \<or>
    prefix (app_block_sender (cl_app c v)) (app_block_sender (cl_app c u))"
  using assms(2) unfolding agrees_def
proof
  assume names: "names_blocks T c \<and> \<not> cl_missed c"
  then have "follows T c" using cluster_runs_follows [OF assms(1)] by blast
  note agree = follows_agrees [OF this names [THEN conjunct2]]
  show ?thesis
    by (cases "cl_read c u \<le> cl_read c v") (simp_all add: agree)
next
  assume "one_per_height c"
  note agree = one_per_height_agrees [OF cluster_runs_ok [OF assms(1)] this]
  show ?thesis
    by (cases "length (app_block_sender (cl_app c u)) \<le> length (app_block_sender (cl_app c v))")
      (simp_all add: agree)
qed

lemma prefix_either_nth:
  assumes "prefix xs ys \<or> prefix ys xs" "i < length xs" "i < length ys"
  shows "xs ! i = ys ! i"
  using assms by (auto simp: prefix_def nth_append)

lemma counted_height:
  assumes "counted bs" "i < length bs" "length bs < 2 ^ 64 - 1"
  shows "unat (block_height (bs ! i)) = Suc i"
proof -
  have "unat (1 + of_nat i :: u64) = 1 + i"
    using assms(2,3) unat_add_of_nat [of 1 i] by simp
  then show ?thesis by (simp add: counted_nth [OF assms(1,2)])
qed

end
