(* ===== verification/Cluster_Live.thy ===== *)
theory Cluster_Live
  imports Cluster
begin

text \<open>
  Every validator can catch up: from every state of the validators together in which no decision has
  been missed, deliveries of relayed blocks and of decisions lead to a state in which all of them
  have read all decisions. The handlers that are used return, because the payloads of relayed blocks
  have logs blooms that the Engine API types take.
\<close>

section \<open>Payloads\<close>

text \<open>Pending payloads were relayed.\<close>

definition payloads_ok :: "proposed_block set \<Rightarrow> app \<Rightarrow> bool" where
  "payloads_ok R a \<longleftrightarrow> (\<forall>d pl. app_pending_payloads a d = Some pl \<longrightarrow> (\<exists>p \<in> R. pb_payload p = pl))"

lemma payloads_ok_mono: "payloads_ok R a \<Longrightarrow> R \<subseteq> R' \<Longrightarrow> payloads_ok R' a"
  unfolding payloads_ok_def by blast

lemma payloads_ok_submap:
  "payloads_ok R a \<Longrightarrow> app_pending_payloads a' \<subseteq>\<^sub>m app_pending_payloads a \<Longrightarrow> payloads_ok R a'"
  unfolding payloads_ok_def map_le_def dom_def by (metis (mono_tags) mem_Collect_eq option.distinct(1))

lemma finalization_payloads:
  assumes "process_message A (M_Finalize d) w = Some (r, w')"
  shows "app_pending_payloads (aw_app w') \<subseteq>\<^sub>m app_pending_payloads (aw_app w)"
proof -
  from assms obtain x where "finalize A d w = Some (x, w')" by (auto elim!: act_elims)
  then show ?thesis
    by (cases rule: finalize_cases) (auto simp: app_update_simps map_le_def dom_def)
qed

lemma message_payloads:
  assumes "process_message A m w = Some (r, w')" "arrives c m" "payloads_ok (relayed c) (aw_app w)"
    and "app_block_relay_sender (aw_app w') = app_block_relay_sender (aw_app w) @ ps"
  shows "payloads_ok (relayed c \<union> set ps) (aw_app w')"
proof (cases m)
  case M_Propose
  with assms(1) obtain d where "propose A w = Some (d, w')" by (auto elim!: act_elims)
  then show ?thesis
  proof (cases rule: propose_outcome)
    case 1
    with assms(3) show ?thesis by (auto simp: payloads_ok_def)
  next
    case (2 p)
    with assms(4) have "ps = [\<lparr>pb_digest = d, pb_block = build_block_from_payload p, pb_payload = p\<rparr>]"
      by (simp add: app_update_simps)
    with 2 assms(3) show ?thesis by (auto simp: payloads_ok_def app_update_simps split: if_splits)
  qed
next
  case (M_ReceiveBlock d b p)
  with assms(1) obtain x where "handle_receive_block A d b p w = Some (x, w')" by (auto elim!: act_elims)
  then show ?thesis
  proof (cases rule: handle_receive_block_cases)
    case known
    with assms(3) show ?thesis by (auto simp: payloads_ok_def)
  next
    case (received v)
    have "\<lparr>pb_digest = d, pb_block = b, pb_payload = p\<rparr> \<in> relayed c"
      using assms(2) M_ReceiveBlock by simp
    then have "\<exists>q \<in> relayed c. pb_payload q = p" by (rule rev_bexI) simp
    with received(2) assms(3) show ?thesis by (auto simp: payloads_ok_def app_update_simps split: if_splits)
  qed
next
  case (M_Finalize d)
  with assms(2) show ?thesis by simp
qed (use assms in \<open>auto simp: payloads_ok_def genesis_def verify_def broadcast_def Let_def
      elim!: act_elims split: if_splits\<close>)

lemma cluster_step_payloads:
  assumes "cluster_step A X D i k c c'" "\<forall>v. payloads_ok (relayed c) (cl_app c v)"
  shows "\<forall>v. payloads_ok (relayed c') (cl_app c' v)"
proof -
  have others: "payloads_ok (relayed c') (cl_app c v)" for v
    using assms(2) cluster_step_relayed [OF assms(1)] by (blast intro: payloads_ok_mono)
  show ?thesis
    using assms(1)
  proof cases
    case (engine_decides p)
    with others show ?thesis by simp
  next
    case (message_arrives m v r w)
    obtain ps where ps: "app_block_relay_sender (aw_app w) = app_block_relay_sender (cl_app c v) @ ps"
      using message_effect [OF message_arrives(3,2)] by auto
    have "relayed c' = relayed c \<union> set ps"
      unfolding message_arrives(1) by (rule relayed_extended) (simp add: ps)
    moreover have "payloads_ok (relayed c \<union> set ps) (aw_app w)"
      by (rule message_payloads [OF message_arrives(3,2)]) (use assms(2) ps in simp_all)
    ultimately show ?thesis using others by (simp add: message_arrives(1))
  next
    case (finalization_arrives v d r w)
    have "payloads_ok (relayed c') (aw_app w)"
      by (rule payloads_ok_submap [OF _ finalization_payloads [OF finalization_arrives(4)]])
        (use others in simp)
    with others show ?thesis by (simp add: finalization_arrives(1))
  next
    case (finalization_lost v)
    with others show ?thesis by simp
  next
    case (task_turn v s)
    with others show ?thesis by simp
  qed
qed

lemma cluster_runs_payloads:
  assumes "(cluster_step A X D i k)\<^sup>*\<^sup>* c c'" "\<forall>v. payloads_ok (relayed c) (cl_app c v)"
  shows "\<forall>v. payloads_ok (relayed c') (cl_app c' v)"
  using assms by (induction rule: rtranclp_induct) (auto dest: cluster_step_payloads)

lemma cluster_start_payloads: "payloads_ok R (cl_app (cluster_start V) v)"
  by (simp add: payloads_ok_def cluster_start_def system_start_def create_application_def application_new_def)

section \<open>The handlers return\<close>

definition known_bloom :: "'x exec_env \<Rightarrow> built_payload \<Rightarrow> bool" where
  "known_bloom E p \<longleftrightarrow> to_execution_payload (lib_alloy (ee_libs E)) p \<noteq> None"

lemma known_bloom_iff:
  "known_bloom E p \<longleftrightarrow> bloom_from_slice (lib_alloy (ee_libs E)) (pl_logs_bloom p) \<noteq> None"
  by (cases "bloom_from_slice (lib_alloy (ee_libs E)) (pl_logs_bloom p)")
    (simp_all add: known_bloom_def to_execution_payload_def)

lemma no_panic_new_payload: "known_bloom E p \<Longrightarrow> no_panic (call_new_payload E p) w"
  unfolding call_new_payload_def known_bloom_def by (intro no_panic_intros) simp_all

lemma no_panic_apply_built_payload:
  assumes "known_bloom E p"
  shows "no_panic (apply_built_payload E p) w"
proof -
  have "no_panic (update_forkchoice_for_payload E p) w" for w
    by (simp add: no_panic_def update_forkchoice_for_payload_def Let_def)
      (use no_panicD [OF no_panic_update_forkchoice] in fastforce)
  then show ?thesis
    unfolding apply_built_payload_def by (intro no_panic_intros no_panic_new_payload assms)
qed

lemma no_panic_modify_app [simp]: "no_panic (modify_app f) w"
  by (simp add: no_panic_def)

lemma finalization_returns:
  assumes "\<And>p. app_pending_payloads (aw_app w) d = Some p \<Longrightarrow> known_bloom E p"
  shows "\<exists>r w'. process_message (client_app_env E h e) (M_Finalize d) w = Some (r, w')"
proof -
  have "no_panic (apply_to_reth (client_app_env E h e) (app_pending_payloads (aw_app w) d)) v" for v
    unfolding apply_to_reth_def
    by (auto intro!: no_panic_intros no_panic_apply_built_payload assms split: option.split sum.split)
  then have returns: "apply_to_reth (client_app_env E h e) (app_pending_payloads (aw_app w) d) v = None \<longleftrightarrow> False" for v
    by (simp add: no_panic_def)
  have "\<exists>r w'. finalize (client_app_env E h e) d w = Some (r, w')"
    by (auto simp: finalize_def bind_act_def Let_def returns split: option.split prod.split)
  then show ?thesis by (auto simp: bind_act_def)
qed

lemma receive_returns:
  assumes "known_bloom E p"
  obtains r w' where "process_message (client_app_env E h e) (M_ReceiveBlock d b p) w = Some (r, w')"
    "app_pending_blocks (aw_app w') d \<noteq> None"
    "app_block_relay_sender (aw_app w') = app_block_relay_sender (aw_app w)"
proof -
  obtain r x where "import_payload E p (aw_world w) = Some (r, x)"
    using no_panicD [OF no_panic_new_payload [OF assms]] by (metis import_is_call_new_payload)
  then obtain w' where w': "handle_receive_block (client_app_env E h e) d b p w = Some ((), w')"
    by (cases "app_pending_blocks (aw_app w) d") (simp_all add: handle_receive_block_apply)
  then have "app_pending_blocks (aw_app w') d \<noteq> None \<and>
      app_block_relay_sender (aw_app w') = app_block_relay_sender (aw_app w)"
    by (cases rule: handle_receive_block_cases) (auto simp: app_update_simps)
  with w' show ?thesis by (intro that [of R_Nothing w']) (simp_all add: bind_act_def)
qed

section \<open>Catching up\<close>

text \<open>What catching up leaves alone.\<close>

definition same_decisions :: "('v, 'x, 'w) cluster \<Rightarrow> ('v, 'x, 'w) cluster \<Rightarrow> bool" where
  "same_decisions c c' \<longleftrightarrow>
     cl_decided c' = cl_decided c \<and> relayed c' = relayed c \<and> (cl_missed c' \<longrightarrow> cl_missed c)"

lemma same_decisions_trans: "same_decisions c c1 \<Longrightarrow> same_decisions c1 c2 \<Longrightarrow> same_decisions c c2"
  by (simp add: same_decisions_def)

lemma read_block:
  assumes "cl_read c v < length (cl_decided c)" "\<forall>u. payloads_ok (relayed c) (cl_app c u)"
    and "\<forall>p \<in> relayed c. known_bloom (va_exec (V v)) (pb_payload p)"
    and "app_pending_blocks (cl_app c v) (cl_decided c ! cl_read c v) = None \<Longrightarrow>
      \<not> next_block c v (cl_decided c ! cl_read c v)"
  shows "\<exists>c'. validator_step dedup h e V i c c' \<and> same_decisions c c' \<and>
    cl_read c' = (cl_read c)(v := Suc (cl_read c v))"
proof -
  let ?d = "cl_decided c ! cl_read c v"
  let ?missed = "app_pending_blocks (cl_app c v) ?d = None \<and> next_block c v ?d"
  have "known_bloom (va_exec (V v)) p" if "app_pending_payloads (cl_app c v) ?d = Some p" for p
    using assms(2,3) that unfolding payloads_ok_def by blast
  with finalization_returns [of "app_part (cl_system c v)" ?d "va_exec (V v)" h e] obtain r w where
    w: "process_message (client_app_env (va_exec (V v)) h e) (M_Finalize ?d) (app_part (cl_system c v)) = Some (r, w)"
    by auto
  let ?c = "read_decision v ?missed (set_system v (answered (cl_system c v) w) c)"
  have "validator_step dedup h e V i c ?c"
    by (rule finalization_arrives) (use assms(1) w in simp_all)
  moreover have "relayed ?c = relayed c"
    using finalization_effect(1) [OF w] by (simp add: relayed_kept)
  ultimately show ?thesis
    using assms(4) by (intro exI [of _ ?c] conjI) (auto simp: same_decisions_def)
qed

lemma read_one:
  assumes "cl_read c v < length (cl_decided c)" "\<forall>u. payloads_ok (relayed c) (cl_app c u)"
    and "\<forall>p \<in> relayed c. known_bloom (va_exec (V v)) (pb_payload p)"
  shows "\<exists>c'. (validator_step dedup h e V i)\<^sup>*\<^sup>* c c' \<and> same_decisions c c' \<and>
    cl_read c' = (cl_read c)(v := Suc (cl_read c v))"
proof (cases "app_pending_blocks (cl_app c v) (cl_decided c ! cl_read c v) = None \<and>
    next_block c v (cl_decided c ! cl_read c v)")
  case False
  have "\<exists>c'. validator_step dedup h e V i c c' \<and> same_decisions c c' \<and>
      cl_read c' = (cl_read c)(v := Suc (cl_read c v))"
    by (rule read_block) (use assms False in simp_all)
  then show ?thesis by (meson r_into_rtranclp)
next
  case True
  let ?d = "cl_decided c ! cl_read c v"
  from True obtain p where p: "p \<in> relayed c" "pb_digest p = ?d" unfolding next_block_def by blast
  obtain r w where w: "process_message (client_app_env (va_exec (V v)) h e)
      (M_ReceiveBlock ?d (pb_block p) (pb_payload p)) (app_part (cl_system c v)) = Some (r, w)"
    "app_pending_blocks (aw_app w) ?d \<noteq> None"
    "app_block_relay_sender (aw_app w) = app_block_relay_sender (cl_app c v)"
    by (rule receive_returns [of "va_exec (V v)" "pb_payload p" h e ?d "pb_block p" "app_part (cl_system c v)"])
      (use assms(3) p(1) in \<open>simp_all del: process_message.simps\<close>)
  let ?c = "set_system v (answered (cl_system c v) w) c"
  have "arrives c (M_ReceiveBlock ?d (pb_block p) (pb_payload p))"
    using p by (cases p) simp
  then have step: "validator_step dedup h e V i c ?c" by (rule message_arrives) (rule w(1))
  have R: "relayed ?c = relayed c" by (rule relayed_kept) (simp add: w(3))
  then have same: "same_decisions c ?c" by (simp add: same_decisions_def)
  have "\<exists>c'. validator_step dedup h e V i ?c c' \<and> same_decisions ?c c' \<and>
      cl_read c' = (cl_read ?c)(v := Suc (cl_read ?c v))"
    by (rule read_block)
      (use assms(1,3) w(2) R cluster_step_payloads [OF step assms(2)] in simp_all)
  then obtain c' where "validator_step dedup h e V i ?c c'" "same_decisions ?c c'"
      "cl_read c' = (cl_read c)(v := Suc (cl_read c v))" by auto
  with step same show ?thesis
    by (intro exI [of _ c'] conjI) (rule converse_rtranclp_into_rtranclp, assumption, rule r_into_rtranclp,
      assumption, rule same_decisions_trans, assumption+)
qed

lemma read_all:
  assumes "cl_read c v \<le> length (cl_decided c)" "\<forall>u. payloads_ok (relayed c) (cl_app c u)"
    and "\<forall>p \<in> relayed c. known_bloom (va_exec (V v)) (pb_payload p)"
  shows "\<exists>c'. (validator_step dedup h e V i)\<^sup>*\<^sup>* c c' \<and> same_decisions c c' \<and>
    cl_read c' = (cl_read c)(v := length (cl_decided c))"
  using assms
proof (induction "length (cl_decided c) - cl_read c v" arbitrary: c)
  case 0
  then have "cl_read c = (cl_read c)(v := length (cl_decided c))" by simp
  then show ?case by (intro exI [of _ c]) (simp add: same_decisions_def)
next
  case (Suc n)
  then have "cl_read c v < length (cl_decided c)" by simp
  then have "\<exists>c1. (validator_step dedup h e V i)\<^sup>*\<^sup>* c c1 \<and> same_decisions c c1 \<and>
      cl_read c1 = (cl_read c)(v := Suc (cl_read c v))"
    by (rule read_one) (use Suc.prems in simp_all)
  then obtain c1 where
    c1: "(validator_step dedup h e V i)\<^sup>*\<^sup>* c c1" "same_decisions c c1"
      "cl_read c1 = (cl_read c)(v := Suc (cl_read c v))" by blast
  then have same: "cl_decided c1 = cl_decided c" "relayed c1 = relayed c" by (simp_all add: same_decisions_def)
  have "\<exists>c'. (validator_step dedup h e V i)\<^sup>*\<^sup>* c1 c' \<and> same_decisions c1 c' \<and>
      cl_read c' = (cl_read c1)(v := length (cl_decided c1))"
    by (rule Suc.hyps(1))
      (use Suc.hyps(2) Suc.prems c1(3) same cluster_runs_payloads [OF c1(1) Suc.prems(2)] in simp_all)
  then obtain c2 where c2: "(validator_step dedup h e V i)\<^sup>*\<^sup>* c1 c2" "same_decisions c1 c2"
      "cl_read c2 = (cl_read c1)(v := length (cl_decided c1))" by blast
  have "cl_read c2 = (cl_read c)(v := length (cl_decided c))" by (simp add: c2(3) c1(3) same)
  with rtranclp_trans [OF c1(1) c2(1)] same_decisions_trans [OF c1(2) c2(2)] show ?case by blast
qed

lemma everybody_reads:
  assumes "finite F" "\<forall>v. cl_read c v \<le> length (cl_decided c)" "\<forall>u. payloads_ok (relayed c) (cl_app c u)"
    and "\<forall>p \<in> relayed c. \<forall>v. known_bloom (va_exec (V v)) (pb_payload p)"
  shows "\<exists>c'. (validator_step dedup h e V i)\<^sup>*\<^sup>* c c' \<and> same_decisions c c' \<and>
    cl_read c' = (\<lambda>v. if v \<in> F then length (cl_decided c) else cl_read c v)"
  using assms(1)
proof (induction F rule: finite_induct)
  case empty
  then show ?case by (intro exI [of _ c]) (simp add: same_decisions_def)
next
  case (insert v F)
  then obtain c1 where c1: "(validator_step dedup h e V i)\<^sup>*\<^sup>* c c1" "same_decisions c c1"
      "cl_read c1 = (\<lambda>v. if v \<in> F then length (cl_decided c) else cl_read c v)" by blast
  then have same: "cl_decided c1 = cl_decided c" "relayed c1 = relayed c" by (simp_all add: same_decisions_def)
  have "\<exists>c'. (validator_step dedup h e V i)\<^sup>*\<^sup>* c1 c' \<and> same_decisions c1 c' \<and>
      cl_read c' = (cl_read c1)(v := length (cl_decided c1))"
    by (rule read_all) (use assms(2,4) c1(3) same cluster_runs_payloads [OF c1(1) assms(3)] in simp_all)
  then obtain c2 where c2: "(validator_step dedup h e V i)\<^sup>*\<^sup>* c1 c2" "same_decisions c1 c2"
      "cl_read c2 = (cl_read c1)(v := length (cl_decided c1))" by blast
  have "cl_read c2 = (\<lambda>u. if u \<in> insert v F then length (cl_decided c) else cl_read c u)"
    by (rule ext) (simp add: c2(3) c1(3) same)
  with rtranclp_trans [OF c1(1) c2(1)] same_decisions_trans [OF c1(2) c2(2)] show ?case by blast
qed

end
