(* ===== verification/Pipeline_Demo.thy ===== *)
theory Pipeline_Demo
  imports Pipeline
begin

text \<open>
  One block through the whole system, on the reth of \<open>Model_Reth\<close> and the Celestia node of
  \<open>Celestia_Props\<close>: it is relayed, finalized, executed and queued, submitted in a batch, released by
  a header and confirmed. The witnesses of the properties of the system run it.
\<close>

section \<open>The environments\<close>

definition encoding_da :: "(celestia_node, bytes, bytes) da_env" where
  "encoding_da = demo_da\<lparr>da_encode := (\<lambda>b. Inr [1])\<rparr>"

definition started_da :: "(celestia_node, bytes, bytes) da_env" where
  "started_da = encoding_da\<lparr>da_config := default_celestia, da_namespace := [0]\<rparr>"

lemmas started_da_defs = started_da_def encoding_da_def demo_da_def node_env_def

lemma started_da_fields [simp]: "da_config started_da = default_celestia" "da_now started_da w = (7, w)"
  by (simp_all add: started_da_defs)

lemma tick_known [simp]: "reth_known (tick r) = reth_known r"
  by (simp add: tick_def)

lemma batching_default: "ce_batch_interval_ms default_celestia > 0"
  by (simp add: default_celestia_def)

text \<open>
  The node with key 0 in a list of two validators: as the second it leads height 1, as the first it
  does not.
\<close>

definition seeded_config :: "u64 list \<Rightarrow> chain_config" where
  "seeded_config seeds = demo_config\<lparr>cg_consensus := demo_chain\<lparr>cs_validator_seeds := seeds\<rparr>\<rparr>"

lemma seeded_config_fields [simp]:
  "cg_celestia (seeded_config seeds) = default_celestia"
  "cg_execution (seeded_config seeds) = default_execution"
  "cg_consensus (seeded_config seeds) = demo_chain\<lparr>cs_validator_seeds := seeds\<rparr>"
  by (simp_all add: seeded_config_def)

lemma seeded_runtime_config:
  assumes "0 \<in> set seeds"
  shows "\<exists>c. build_runtime_config demo_keys demo_addrs demo_files (demo_chain\<lparr>cs_validator_seeds := seeds\<rparr>) 7 w =
      (Inr c, w) \<and>
    validator_index (ka_public demo_keys) c = position (\<lambda>s. s = 0) seeds \<and> sc_validators c = seeds \<and>
    sc_initial_hash c = 7 \<and> sc_block_timing c = Vanilla"
  using assms
  by (simp add: build_runtime_config_def load_private_key_def build_validator_set_def
      resolve_network_addrs_def context_err_def zero_seed trim_def is_whitespace_def
      validator_index_def demo_chain_def default_consensus_def Let_def)

lemma init_forkchoice_state:
  assumes "map_of (reth_known (ew_outside w)) h = Some (number, time)"
  shows "init_forkchoice reth_env h w = Some (Inr (), \<lparr>ew_forkchoice = fc_genesis h,
    ew_outside = (tick (ew_outside w))\<lparr>reth_head := h, reth_number := number, reth_time := time, reth_job := None\<rparr>\<rparr>)"
proof -
  have "(30 :: nat) = Suc 29" by simp
  then show ?thesis
    using assms
    by (simp only: init_forkchoice_def max_init_retries_def init_forkchoice_loop.simps)
      (simp add: try_init_forkchoice_def bind_act_def tick_def Let_def fc_genesis_def)
qed

text \<open>The reth that a started node has: on genesis, which it knows, with a clock after genesis.\<close>

definition fresh_reth :: "reth exec_world \<Rightarrow> bool" where
  "fresh_reth x \<longleftrightarrow> reth_head (ew_outside x) = 7 \<and> reth_number (ew_outside x) = 0 \<and>
     reth_time (ew_outside x) = 5 \<and> map_of (reth_known (ew_outside x)) 7 = Some (0, 5) \<and>
     reth_now (ew_outside x) = 103"

lemma seeded_start:
  assumes "0 \<in> set seeds"
  shows "\<exists>rc n. start_sequencer demo_libs demo_keys demo_addrs node_files plain_codec reth_env encoding_da ([], [], [])
     (seeded_config seeds) (ew_outside reth_world) empty_node = Some (Inr (reth_env, started_da, rc, n)) \<and>
     validator_index (ka_public demo_keys) rc = position (\<lambda>s. s = 0) seeds \<and> sc_validators rc = seeds \<and>
     nd_batch_open n \<and> nd_batch_queue n = [] \<and> nd_da n = da_initial \<and> nd_world n = empty_node \<and>
     sc_initial_hash rc = 7 \<and> sc_block_timing rc = Vanilla \<and> fresh_reth (nd_exec n)"
proof -
  let ?w = "\<lparr>ew_forkchoice = fc_default, ew_outside = tick (ew_outside reth_world)\<rparr>"
  obtain x2 where x2: "get_genesis_hash reth_env ?w = Some (Inr 7, x2)"
    "map_of (reth_known (ew_outside x2)) 7 = Some (0, 5)" "reth_now (ew_outside x2) = 102"
    by (simp add: get_genesis_hash_def reth_rpc bind_try_def reth_get_block_def tick_def reth_world_def)
  define x3 where "x3 = \<lparr>ew_forkchoice = fc_genesis 7, ew_outside = (tick (ew_outside x2))
    \<lparr>reth_head := 7, reth_number := 0, reth_time := 5, reth_job := None\<rparr>\<rparr>"
  have x3: "init_forkchoice reth_env 7 x2 = Some (Inr (), x3)" "fresh_reth x3"
    using init_forkchoice_state [OF x2(2)] x2(2,3) by (simp_all add: x3_def fresh_reth_def tick_def)
  have same: "reth_env\<lparr>ee_client := ee_client reth_env\<rparr> = reth_env" by simp
  from seeded_runtime_config [OF assms, of empty_node] obtain rc where
    rc: "build_runtime_config demo_keys demo_addrs demo_files (demo_chain\<lparr>cs_validator_seeds := seeds\<rparr>) 7
        empty_node = (Inr rc, empty_node)"
      "validator_index (ka_public demo_keys) rc = position (\<lambda>s. s = 0) seeds" "sc_validators rc = seeds"
      "sc_initial_hash rc = 7" "sc_block_timing rc = Vanilla"
    by blast
  show ?thesis
    by (simp add: start_sequencer_def init_components_def init_celestia_def demo_celestia
        init_execution_def bind_act_def encoding_da_def demo_da_def started_da_def demo_client same x2 x3 rc
        init_from_celestia_def demo_libs_simps Let_def)
qed

section \<open>A start that syncs\<close>

text \<open>
  Celestia holds the first block at height 5, the configured first height; the tracker handles the
  header of this height while the components are built.
\<close>

definition syncing_config :: chain_config where
  "syncing_config = (seeded_config [1, 0])\<lparr>cg_celestia := default_celestia\<lparr>ce_genesis_da_height := 5\<rparr>\<rparr>"

definition syncing_da :: "(celestia_node, bytes, bytes) da_env" where
  "syncing_da = encoding_da\<lparr>da_header_height := (\<lambda>h. 5),
     da_decode := (\<lambda>d. if d = [1] then Inr first_block else Inl ''unknown data'')\<rparr>"

definition synced_da :: "(celestia_node, bytes, bytes) da_env" where
  "synced_da = syncing_da\<lparr>da_config := default_celestia\<lparr>ce_genesis_da_height := 5\<rparr>, da_namespace := [0]\<rparr>"

definition block_holder :: celestia_node where
  "block_holder = \<lparr>cn_height = 5, cn_batches = [(5, [[1]])]\<rparr>"

lemma syncing_config_fields [simp]:
  "cg_celestia syncing_config = default_celestia\<lparr>ce_genesis_da_height := 5\<rparr>"
  "cg_execution syncing_config = default_execution"
  "cg_consensus syncing_config = demo_chain\<lparr>cs_validator_seeds := [1, 0]\<rparr>"
  by (simp_all add: syncing_config_def)

lemma syncing_celestia:
  "celestia_new demo_libs demo_files (default_celestia\<lparr>ce_genesis_da_height := 5\<rparr>) w = (Inr [0], w)"
proof -
  have "validate_config (default_celestia\<lparr>ce_genesis_da_height := 5\<rparr>) = Inr ()"
    by (simp add: validate_config_def default_celestia_def)
  then show ?thesis by (simp add: celestia_new_def demo_libs_simps)
qed

lemma synced_header:
  "\<exists>da. tracker_turns synced_da [[]] (da_initial, w) = (da, w) \<and> finalized_height (ds_tracker da) = 5"
  by (simp add: process_header_def header_to_b256_def b256_of_bytes_def synced_da_def syncing_da_def
      started_da_defs on_celestia_finality_def da_initial_def tracker_new_def finalized_height_def
      ascending_keys_def broadcast_confirmations_channels Let_def)

lemma synced_blocks:
  assumes "nd_world n = block_holder"
  shows "fetch_blocks_from_celestia synced_da 5 5 n = Some (Inr [(5, first_block)], n)"
  using assms
  by (cases n) (simp add: fetch_blocks_from_celestia_def wrap_err_def in_world_def bind_try_def bind_act_def
      ret_def map_err_def get_blocks_in_range_def inclusive_heights_def get_blocks_def fetch_blobs_def
      try_decode_blob_def decode_block_def synced_da_def syncing_da_def started_da_defs block_holder_def Let_def)

lemma synced_executes:
  assumes "get_by_height (nd_index n) 1 = None"
  shows "\<exists>n'. sync_block_batch (execution_client reth_env) node_files plain_codec [(5, first_block)] n =
      Some (Inr 1, n') \<and> nd_executed_blocks n' = insert 1000 (nd_executed_blocks n)"
  using assms
  by (simp add: sync_block_batch_def sync_single_block_def execute_sync_block_def update_and_store_def
      index_insert_node_def index_insert_def node_files_def plain_codec_def wrap_err_def bind_act_def
      bind_try_def in_exec_def modify_node_def execution_client_def execute_block_def
      to_execution_payload_def first_payload_def reth_new_payload_def Let_def)

lemma synced_start:
  obtains rc n where
    "start_sequencer demo_libs demo_keys demo_addrs node_files plain_codec reth_env syncing_da
      ([[]], [], []) syncing_config (ew_outside reth_world) block_holder = Some (Inr (reth_env, synced_da, rc, n))"
    "validator_index (ka_public demo_keys) rc = Some 1" "nd_executed_blocks n = {1000}"
proof -
  let ?w = "\<lparr>ew_forkchoice = fc_default, ew_outside = tick (ew_outside reth_world)\<rparr>"
  have get: "\<exists>x2. get_genesis_hash reth_env ?w = Some (Inr 7, x2) \<and>
      map_of (reth_known (ew_outside x2)) 7 = Some (0, 5)"
    by (simp add: get_genesis_hash_def reth_rpc bind_try_def reth_get_block_def tick_def reth_world_def)
  then obtain x2 where x2: "get_genesis_hash reth_env ?w = Some (Inr 7, x2)"
    "map_of (reth_known (ew_outside x2)) 7 = Some (0, 5)" by blast
  note x3 = init_forkchoice_state [OF x2(2)]
  obtain da where da: "tracker_turns synced_da [[]] (da_initial, block_holder) = (da, block_holder)"
    "finalized_height (ds_tracker da) = 5"
    using synced_header by blast
  have same: "reth_env\<lparr>ee_client := ee_client reth_env\<rparr> = reth_env" by simp
  have env: "syncing_da\<lparr>da_config := default_celestia\<lparr>ce_genesis_da_height := 5\<rparr>, da_namespace := [0]\<rparr> = synced_da"
    "da_host syncing_da = demo_files" "da_host synced_da = demo_files"
    "ce_genesis_da_height (da_config synced_da) = 5"
    by (simp_all add: synced_da_def syncing_da_def encoding_da_def demo_da_def)
  from seeded_runtime_config [of "[1, 0]" block_holder] obtain rc where
    rc: "build_runtime_config demo_keys demo_addrs demo_files (demo_chain\<lparr>cs_validator_seeds := [1, 0]\<rparr>) 7
        block_holder = (Inr rc, block_holder)"
      "validator_index (ka_public demo_keys) rc = position (\<lambda>s. s = 0) [1 :: u64, 0]"
    by auto
  obtain n0 where init: "init_components demo_libs reth_env syncing_da [[]] syncing_config (ew_outside reth_world)
      block_holder = Some (Inr (reth_env, synced_da, n0))"
    and n0: "nd_forkchoice n0 = fc_genesis 7" "nd_executed_blocks n0 = {}" "nd_da n0 = da" "nd_world n0 = block_holder"
    by (simp add: init_components_def init_celestia_def syncing_celestia init_execution_def bind_act_def env
        demo_client same x2 x3 da tracker_beside_def fc_genesis_def Let_def del: tracker_turns.simps)
  let ?i = "\<lparr>bx_path = ce_index_path (da_config synced_da), bx_by_height = [], bx_by_hash = Map.empty, bx_file = True\<rparr>"
  let ?n = "n0\<lparr>nd_world := block_holder, nd_index := ?i\<rparr>"
  have index: "index_open node_files plain_codec (ce_index_path (da_config synced_da)) block_holder =
      (Inr ?i, block_holder)"
    by (simp add: index_open_def node_files_def Let_def)
  obtain n where batch: "sync_block_batch (execution_client reth_env) node_files plain_codec [(5, first_block)] ?n =
      Some (Inr 1, n)" "nd_executed_blocks n = {1000}"
    using synced_executes [of ?n] n0(2) by (auto simp: get_by_height_def btree_get_def)
  have "init_from_celestia (execution_client reth_env) synced_da node_files plain_codec
      (n0\<lparr>nd_world := block_holder\<rparr>) = Some (Inr (), n)"
    using synced_blocks [of ?n] batch(1) n0(3) da(2)
    by (simp add: init_from_celestia_def env index sync_from_celestia_def check_sync_preconditions_def
        bind_try_def Let_def)
  then have "start_sequencer demo_libs demo_keys demo_addrs node_files plain_codec reth_env syncing_da
      ([[]], [], []) syncing_config (ew_outside reth_world) block_holder = Some (Inr (reth_env, synced_da, rc, n))"
    by (simp add: start_sequencer_def init env n0 rc fc_genesis_def Let_def)
  then show ?thesis
    by (rule that) (use rc(2) batch(2) in simp_all)
qed

section \<open>The block\<close>

text \<open>The first block that this reth builds: for which proposer and at what time does not matter.\<close>

definition demo_payload :: "address \<Rightarrow> u64 \<Rightarrow> built_payload" where
  "demo_payload who time = first_payload\<lparr>pl_fee_recipient := who, pl_timestamp := time\<rparr>"

definition demo_block :: "address \<Rightarrow> u64 \<Rightarrow> block" where
  "demo_block who time = build_block_from_payload (demo_payload who time)"

lemma demo_block_fields [simp]:
  "blk_block_hash (demo_block who time) = 1000" "block_height (demo_block who time) = 1"
  "build_payload L (demo_block who time) = to_execution_payload L (demo_payload who time)"
  by (simp_all add: demo_block_def block_payload_same) (simp_all add: demo_payload_def first_payload_def)

lemma demo_block_first: "demo_block 9 102 = first_block"
  by (simp add: demo_block_def demo_payload_def first_block_def first_payload_def)

section \<open>The turns\<close>

lemma demo_wall_clock [simp]:
  "wall_clock (client_app_env reth_env h e) w =
     (let x = ew_outside (aw_world w) in
      Some (reth_now x, w\<lparr>aw_world := (aw_world w)\<lparr>ew_outside := tick x\<rparr>\<rparr>))"
  by (simp add: wall_clock_def in_client_def wall_clock_timestamp_def exec_host_def reth_host_def Let_def)

lemma complete_proposal_apply:
  "complete_proposal E p w =
     Some (compute_digest E (pl_block_hash p),
       w\<lparr>aw_app := after_proposal (compute_digest E (pl_block_hash p)) p (aw_app w)\<rparr>)"
  by (simp add: complete_proposal_app)

lemma demo_propose:
  assumes "a = create_application rc" "sc_initial_hash rc = 7" "sc_block_timing rc = Vanilla" "fresh_reth x"
  shows "\<exists>d w. process_message (client_app_env reth_env h e) M_Propose \<lparr>aw_app = a, aw_world = x\<rparr> =
      Some (R_Digest d, w) \<and> aw_app w = after_proposal d (demo_payload (sc_our_address rc) 105) a"
  using assms
  by (simp add: propose_def already_proposed_at_height_def wait_for_reth_sync_step
      query_reth_head_def bind_act_def in_client_def Let_def check_sync_state_def
      can_build_block_def build_via_reth_def complete_proposal_apply built_payload_of_def
      build_payload_attributes_def fresh_reth_def create_application_def application_new_def
      tick_def reth_get_payload_def demo_payload_def first_payload_def)

lemma demo_receive:
  assumes "app_pending_blocks a d = None" "app_height a = 1"
  shows "\<exists>r w. process_message (client_app_env reth_env h e) (M_ReceiveBlock d (demo_block who time) (demo_payload who time))
      \<lparr>aw_app = a, aw_world = x\<rparr> = Some (r, w) \<and> app_pending_blocks (aw_app w) d = Some (demo_block who time) \<and>
      app_pending_payloads (aw_app w) d = Some (demo_payload who time) \<and>
      app_height (aw_app w) = 1 \<and> app_block_sender (aw_app w) = app_block_sender a"
  using assms
  by (simp add: bind_act_def handle_receive_block_apply import_payload_def reth_new_payload_def Let_def
     to_execution_payload_def check_payload_status_for_import_def after_receive_def bind_try_def)

lemma demo_finalize_message:
  assumes "app_pending_blocks a d = Some (demo_block who time)" "app_height a = 1"
    "app_pending_payloads a d = Some (demo_payload who time)"
  shows "\<exists>r w. process_message (client_app_env reth_env h e) (M_Finalize d)
      \<lparr>aw_app = a, aw_world = x\<rparr> = Some (r, w) \<and> app_block_sender (aw_app w) = app_block_sender a @ [demo_block who time]"
  using assms
  by (simp add: bind_act_def finalize_def reth_new_payload_def Let_def apply_to_reth_def in_client_def
     apply_built_payload_def call_new_payload_def update_forkchoice_for_payload_def is_valid_height_def
     to_execution_payload_def check_payload_status_for_import_def bind_try_def app_update_simps
     demo_payload_def first_payload_def)

lemma demo_execute:
  assumes "nd_batch_open n"
  shows "\<exists>n'. process_finalized_block (execution_client reth_env) started_da (demo_block who time) True n = Some ((), n') \<and>
    nd_batch_queue n' = nd_batch_queue n @ [demo_block who time] \<and> nd_da n' = nd_da n \<and> nd_world n' = nd_world n \<and>
    nd_batch_open n' \<and> 1000 \<in> nd_executed_blocks n' \<and>
    map_of (reth_known (ew_outside (nd_exec n'))) (fc_head (nd_forkchoice n')) \<noteq> None"
  using assms spawned_batch_task [OF batching_default] batching_default
  by (simp add: process_finalized_block_def execute_and_update_forkchoice_def update_and_store_def
      wrap_err_def bind_act_def bind_try_def in_exec_def execution_client_def execute_block_def
      submit_to_celestia_def queue_for_batch_def batch_enabled_def to_execution_payload_def
      demo_payload_def first_payload_def with_soft_def reth_new_payload_def Let_def)

abbreviation first_pending_batch :: "address \<Rightarrow> u64 \<Rightarrow> batch_state" where
  "first_pending_batch who time \<equiv>
     \<lparr>bt_pending_blocks = [demo_block who time], bt_pending_size = estimate_block_size (demo_block who time)\<rparr>"

lemma demo_batch_receive:
  "batch_turn started_da (ce_max_batch_size_bytes default_celestia) (BE_Recv (Some (demo_block who time))) 0 batch_new sw =
     (BO_Waiting, [], 0, (first_pending_batch who time), sw)"
proof -
  have "estimate_block_size (demo_block who time) < ce_max_batch_size_bytes default_celestia"
    by (simp add: estimate_block_size_def demo_block_def build_block_from_payload_def demo_payload_def first_payload_def
        default_celestia_def block_new_def)
  then show ?thesis
    by (simp add: not_le [symmetric] batch_turn_def wait_for_batch_event_def handle_received_block_def
        batch_new_def Let_def)
qed

definition first_tracked :: da_state where
  "first_tracked = da_initial\<lparr>ds_tracker := tracker_new\<lparr>ft_pending :=
     [1000 \<mapsto> \<lparr>pf_block_height = 1, pf_celestia_height = 42, pf_submitted_at = 7\<rparr>]\<rparr>\<rparr>"

lemma demo_submit:
  "submit_blocks started_da [b] w =
     (Inr [\<lparr>bs_block_hash = blk_block_hash b, bs_block_height = block_height b,
             bs_celestia_height = cn_height w + 1, bs_commitment = [1]\<rparr>],
      w\<lparr>cn_height := cn_height w + 1, cn_batches := (cn_height w + 1, [[1]]) # cn_batches w\<rparr>)"
  by (simp add: submit_blocks_def create_blob_for_block_def encode_block_def submit_blobs_with_retry_def
      with_retry_def with_retry_loop.simps build_submissions_def started_da_defs)

text \<open>This node takes every batch.\<close>

lemma started_blobs: "\<exists>blobs infos. create_blobs_for_blocks started_da bs = Inr (blobs, infos)"
  by (induction bs) (auto simp: create_blob_for_block_def encode_block_def started_da_defs)

lemma started_accepts: "accepts_batches started_da"
proof -
  have "\<exists>subs w'. submit_blocks started_da bs w = (Inr subs, w')" for bs w
    using started_blobs [of bs]
    by (auto simp: submit_blocks_def submit_blobs_with_retry_def with_retry_def with_retry_loop.simps
        started_da_defs)
  then show ?thesis by (simp add: accepts_batches_def)
qed

lemma demo_batch_tick:
  "\<exists>w. batch_turn started_da m BE_Tick 0 (first_pending_batch who time) (da_initial, empty_node) =
     (BO_Waiting, [[demo_block who time]], 0, batch_new, first_tracked, w)"
  by (simp add: batch_turn_def wait_for_batch_event_def batch_is_empty_def submit_batch_def demo_submit
      log_batch_success_def track_finality_def track_def batch_new_def Let_def empty_node_def
      da_initial_def tracker_new_def first_tracked_def)

lemma demo_header:
  "\<exists>r s' w' c. process_header started_da (replicate 32 0) (first_tracked, w) = Some (r, s', w') \<and>
     ds_finality_tx s' = [c] \<and> cf_block_hash c = 1000"
  by (simp add: first_tracked_def da_initial_def process_header_def header_to_b256_def b256_of_bytes_def
      started_da_defs on_celestia_finality_def ascending_keys_def send_confirmation_def Let_def)

lemma demo_confirm:
  assumes "cf_block_hash c \<in> nd_executed_blocks n"
    "map_of (reth_known (ew_outside (nd_exec n))) (fc_head (nd_forkchoice n)) \<noteq> None"
  shows "\<exists>n'. handle_finality_confirmation (execution_client reth_env) c n = Some ((), n') \<and>
    fc_finalized (nd_forkchoice n') = cf_block_hash c"
  using assms
  by (auto simp: handle_finality_confirmation_def verify_block_executed_def update_finalized_forkchoice_def
     update_and_store_apply bind_act_def execution_client_def with_firm_def Let_def)

section \<open>The run\<close>

abbreviation demo_step where
  "demo_step h e \<equiv> system_step (client_app_env reth_env h e) (execution_client reth_env) started_da 1 2"

lemma two_turns:
  "demo_step h e s s1 \<Longrightarrow> demo_step h e s1 s2 \<Longrightarrow> (demo_step h e)\<^sup>*\<^sup>* s s2"
  by (rule converse_rtranclp_into_rtranclp, assumption, rule r_into_rtranclp)

text \<open>Turns of the other tasks, which leave the application as it is.\<close>

abbreviation demo_quiet where
  "demo_quiet h e s s' \<equiv> demo_step h e s s' \<and> sy_app s' = sy_app s"

lemma quiet_turns: "(demo_quiet h e)\<^sup>*\<^sup>* s s' \<Longrightarrow> (demo_step h e)\<^sup>*\<^sup>* s s'"
  by (induction rule: rtranclp_induct) (auto intro: rtranclp.rtrancl_into_rtrancl)

lemma two_quiet_turns:
  "demo_quiet h e s s1 \<Longrightarrow> demo_quiet h e s1 s2 \<Longrightarrow> (demo_quiet h e)\<^sup>*\<^sup>* s s2"
  by (rule converse_rtranclp_into_rtranclp, assumption, rule r_into_rtranclp)

text \<open>The tasks that read: the batch task and the event loop have read nothing yet.\<close>

definition fresh_tasks :: "('x, celestia_node) system \<Rightarrow> bool" where
  "fresh_tasks s \<longleftrightarrow> sy_loop_running s \<and> sy_blocks_read s = 0 \<and> sy_queue_read s = 0 \<and>
     sy_batch s = batch_new \<and> sy_batch_failures s = 0 \<and> sy_batch_running s \<and> sy_submitted s = [] \<and>
     sy_confirmations_read s = 0 \<and> nd_batch_open (sy_node s) \<and> nd_da (sy_node s) = da_initial \<and>
     nd_world (sy_node s) = empty_node"

lemma fresh_start:
  assumes "nd_batch_open n" "nd_da n = da_initial" "nd_world n = empty_node"
  shows "fresh_tasks (system_start default_celestia rc n)"
  using assms spawned_batch_task [OF batching_default] by (simp add: fresh_tasks_def system_start_def)

lemma demo_final:
  assumes "sy_app s = create_application rc" "fresh_tasks s"
  shows "\<exists>s'. (demo_step h e)\<^sup>*\<^sup>* s s' \<and> app_block_sender (sy_app s') = [demo_block who time] \<and> fresh_tasks s' \<and>
    nd_batch_queue (sy_node s') = nd_batch_queue (sy_node s)"
proof -
  let ?A = "client_app_env reth_env h e"
  have app: "app_pending_blocks (sy_app s) 5 = None" "app_height (sy_app s) = 1" "app_block_sender (sy_app s) = []"
    by (simp_all add: assms(1) create_application_def application_new_def)
  from demo_receive [OF app(1,2), of h e who time "nd_exec (sy_node s)"] obtain r1 w1 where
    m1: "process_message ?A (M_ReceiveBlock 5 (demo_block who time) (demo_payload who time))
      \<lparr>aw_app = sy_app s, aw_world = nd_exec (sy_node s)\<rparr> = Some (r1, w1)"
    and a1: "app_pending_blocks (aw_app w1) 5 = Some (demo_block who time)"
      "app_pending_payloads (aw_app w1) 5 = Some (demo_payload who time)"
      "app_height (aw_app w1) = 1" "app_block_sender (aw_app w1) = []"
    by (auto simp: app(3))
  let ?s1 = "s\<lparr>sy_app := aw_app w1, sy_node := (sy_node s)\<lparr>nd_exec := aw_world w1\<rparr>\<rparr>"
  from demo_finalize_message [OF a1(1,3,2), of h e "aw_world w1"] obtain r2 w2 where
    m2: "process_message ?A (M_Finalize 5)
      \<lparr>aw_app = sy_app ?s1, aw_world = nd_exec (sy_node ?s1)\<rparr> = Some (r2, w2)"
    and a2: "app_block_sender (aw_app w2) = [demo_block who time]"
    using a1(4) by auto
  let ?s2 = "?s1\<lparr>sy_app := aw_app w2, sy_node := (sy_node ?s1)\<lparr>nd_exec := aw_world w2\<rparr>\<rparr>"
  have "demo_step h e s ?s1" "demo_step h e ?s1 ?s2"
    by (rule message_turn [OF m1], rule message_turn [OF m2])
  note r = two_turns [OF this]
  show ?thesis
    by (rule exI [of _ ?s2], rule conjI, rule r) (use assms(2) a2 in \<open>simp add: fresh_tasks_def\<close>)
qed

text \<open>The finalization loop executes and queues it, the batch task takes it and submits it.\<close>

lemma demo_queued:
  assumes "fresh_tasks s" "app_block_sender (sy_app s) = [demo_block who time]" "nd_batch_queue (sy_node s) = []"
  shows "\<exists>s'. demo_quiet h e s s' \<and> fresh_tasks (s'\<lparr>sy_blocks_read := 0\<rparr>) \<and>
    nd_batch_queue (sy_node s') = [demo_block who time] \<and> 1000 \<in> nd_executed_blocks (sy_node s') \<and>
    map_of (reth_known (ew_outside (nd_exec (sy_node s')))) (fc_head (nd_forkchoice (sy_node s'))) \<noteq> None"
proof -
  have "nd_batch_open (sy_node s)" using assms(1) by (simp add: fresh_tasks_def)
  from demo_execute [OF this, of who time] obtain n where
    n: "process_finalized_block (execution_client reth_env) started_da (demo_block who time) True (sy_node s) = Some ((), n)"
      "nd_batch_queue n = [demo_block who time]" "nd_da n = nd_da (sy_node s)" "nd_world n = nd_world (sy_node s)"
      "nd_batch_open n" "1000 \<in> nd_executed_blocks n"
      "map_of (reth_known (ew_outside (nd_exec n))) (fc_head (nd_forkchoice n)) \<noteq> None"
    by (auto simp: assms(3))
  have handled: "handle_finalized_block (create_finalization_callback (execution_client reth_env) started_da)
      (app_block_sender (sy_app s) ! sy_blocks_read s) 1 2 (sy_node s) = Some ((), n)"
    using assms(1) n(1)
    by (simp add: assms(2) fresh_tasks_def handle_finalized_block_def is_leader_def leader_index_def
        create_finalization_callback_def bind_act_def unwrap_def)
  show ?thesis
    by (rule exI, rule conjI, rule conjI, rule block_turn [OF _ _ handled])
      (use assms n in \<open>simp_all add: fresh_tasks_def\<close>)
qed

lemma demo_submitted:
  assumes "fresh_tasks (s\<lparr>sy_blocks_read := 0\<rparr>)" "nd_batch_queue (sy_node s) = [demo_block who time]"
  shows "\<exists>s'. (demo_quiet h e)\<^sup>*\<^sup>* s s' \<and> sy_submitted s' = [demo_block who time] \<and>
    nd_da (sy_node s') = first_tracked \<and> sy_confirmations_read s' = 0 \<and>
    nd_executed_blocks (sy_node s') = nd_executed_blocks (sy_node s) \<and>
    nd_exec (sy_node s') = nd_exec (sy_node s) \<and> nd_forkchoice (sy_node s') = nd_forkchoice (sy_node s)"
proof -
  let ?m = "ce_max_batch_size_bytes default_celestia"
  have spawn: "spawn_batch_task (da_config started_da) = Some (ce_batch_interval_ms default_celestia, ?m)"
    using spawned_batch_task [OF batching_default] by simp
  have s: "sy_batch_running s" "batch_input s (BE_Recv (Some (demo_block who time)))"
    and t1: "batch_turn started_da ?m (BE_Recv (Some (demo_block who time))) (sy_batch_failures s) (sy_batch s)
      (nd_da (sy_node s), nd_world (sy_node s)) =
      (BO_Waiting, [], 0, (first_pending_batch who time), nd_da (sy_node s), nd_world (sy_node s))"
    using assms demo_batch_receive by (simp_all add: fresh_tasks_def)
  obtain s1 where 1: "demo_step h e s s1" and s1: "s1 = s\<lparr>sy_batch := (first_pending_batch who time), sy_batch_failures := 0,
      sy_batch_running := True, sy_queue_read := sy_queue_read s + 1, sy_submitted := sy_submitted s,
      sy_node := (sy_node s)\<lparr>nd_batch_open := True\<rparr>\<rparr>"
    using batch_task_turn [OF s(1) spawn s(2) t1] by simp
  obtain w where "batch_turn started_da ?m BE_Tick 0 (first_pending_batch who time) (da_initial, empty_node) =
      (BO_Waiting, [[demo_block who time]], 0, batch_new, first_tracked, w)"
    using demo_batch_tick by blast
  then have t2: "batch_turn started_da ?m BE_Tick (sy_batch_failures s1) (sy_batch s1)
      (nd_da (sy_node s1), nd_world (sy_node s1)) = (BO_Waiting, [[demo_block who time]], 0, batch_new, first_tracked, w)"
    using assms(1) by (simp add: s1 fresh_tasks_def)
  have "sy_batch_running s1" "batch_input s1 BE_Tick" by (simp_all add: s1)
  note 2 = batch_task_turn [OF this(1) spawn this(2) t2, of "client_app_env reth_env h e"
    "execution_client reth_env" 1 2]
  have apps: "sy_app s1 = sy_app s" by (simp add: s1)
  show ?thesis
    by (rule exI, rule conjI, rule two_quiet_turns [OF conjI [OF 1 apps] conjI [OF 2]])
      (use assms(1) in \<open>simp_all add: s1 fresh_tasks_def\<close>)
qed

text \<open>A header releases the block, and the event loop confirms it.\<close>

lemma demo_confirmed:
  assumes "nd_da (sy_node s) = first_tracked" "sy_confirmations_read s = 0"
    and "1000 \<in> nd_executed_blocks (sy_node s)"
    and "map_of (reth_known (ew_outside (nd_exec (sy_node s)))) (fc_head (nd_forkchoice (sy_node s))) \<noteq> None"
  shows "\<exists>s'. (demo_step h e)\<^sup>*\<^sup>* s s' \<and> sy_submitted s' = sy_submitted s \<and>
    fc_finalized (nd_forkchoice (sy_node s')) = 1000"
proof -
  from demo_header [of "nd_world (sy_node s)"] assms(1) obtain r da w c where
    "process_header started_da (replicate 32 0) (nd_da (sy_node s), nd_world (sy_node s)) = Some (r, da, w)"
    and c: "ds_finality_tx da = [c]" "cf_block_hash c = 1000" by auto
  note 1 = header_turn [OF this(1), of "client_app_env reth_env h e" "execution_client reth_env" 1 2]
  let ?s1 = "s\<lparr>sy_node := (sy_node s)\<lparr>nd_da := da, nd_world := w\<rparr>\<rparr>"
  obtain n where n: "handle_finality_confirmation (execution_client reth_env) c (sy_node ?s1) = Some ((), n)"
    "fc_finalized (nd_forkchoice n) = 1000"
    using demo_confirm [of c "sy_node ?s1"] assms(3,4) c(2) by auto
  have 2: "demo_step h e ?s1 (?s1\<lparr>sy_node := n, sy_confirmations_read := Suc (sy_confirmations_read ?s1)\<rparr>)"
    by (rule confirmation_turn) (use n(1) assms(2) c(1) in simp_all)
  show ?thesis
    by (rule exI, rule conjI, rule two_turns [OF 1 2])
      (simp add: n(2))
qed

text \<open>The state in which the block is queued and the batch task has not taken it.\<close>

lemma demo_system_queued:
  assumes "nd_batch_open n" "nd_batch_queue n = []" "nd_da n = da_initial" "nd_world n = empty_node"
  shows "\<exists>s. (demo_step h e)\<^sup>*\<^sup>* (system_start default_celestia rc n) s \<and>
    fresh_tasks (s\<lparr>sy_blocks_read := 0\<rparr>) \<and> nd_batch_queue (sy_node s) = [demo_block who time] \<and>
    1000 \<in> nd_executed_blocks (sy_node s) \<and>
    map_of (reth_known (ew_outside (nd_exec (sy_node s)))) (fc_head (nd_forkchoice (sy_node s))) \<noteq> None"
proof -
  let ?s0 = "system_start default_celestia rc n"
  have "sy_app ?s0 = create_application rc" by (simp add: system_start_def)
  from demo_final [OF this fresh_start [OF assms(1,3,4)], of h e who time] obtain s1 where
    1: "(demo_step h e)\<^sup>*\<^sup>* ?s0 s1" "app_block_sender (sy_app s1) = [demo_block who time]" "fresh_tasks s1"
      "nd_batch_queue (sy_node s1) = []"
    by (auto simp: system_start_def assms(2))
  from demo_queued [OF 1(3,2,4), of h e] 1(1) show ?thesis by (meson rtranclp.rtrancl_into_rtrancl)
qed

lemma demo_system:
  assumes "nd_batch_open n" "nd_batch_queue n = []" "nd_da n = da_initial" "nd_world n = empty_node"
  shows "\<exists>s. (demo_step h e)\<^sup>*\<^sup>* (system_start default_celestia rc n) s \<and> sy_submitted s = [demo_block who time] \<and>
    fc_finalized (nd_forkchoice (sy_node s)) = 1000"
proof -
  from demo_system_queued [OF assms, of h e rc who time] obtain s2 where
    2: "(demo_step h e)\<^sup>*\<^sup>* (system_start default_celestia rc n) s2" "fresh_tasks (s2\<lparr>sy_blocks_read := 0\<rparr>)"
      "nd_batch_queue (sy_node s2) = [demo_block who time]" "1000 \<in> nd_executed_blocks (sy_node s2)"
      "map_of (reth_known (ew_outside (nd_exec (sy_node s2)))) (fc_head (nd_forkchoice (sy_node s2))) \<noteq> None"
    by blast
  from demo_submitted [OF 2(2,3)] obtain s3 where
    3: "(demo_quiet h e)\<^sup>*\<^sup>* s2 s3" "sy_submitted s3 = [demo_block who time]" "nd_da (sy_node s3) = first_tracked"
      "sy_confirmations_read s3 = 0" "nd_executed_blocks (sy_node s3) = nd_executed_blocks (sy_node s2)"
      "nd_exec (sy_node s3) = nd_exec (sy_node s2)" "nd_forkchoice (sy_node s3) = nd_forkchoice (sy_node s2)"
    by blast
  from demo_confirmed [OF 3(3,4), of h e] 2(4,5) 3(5-7) obtain s4 where
    4: "(demo_step h e)\<^sup>*\<^sup>* s3 s4" "sy_submitted s4 = sy_submitted s3"
      "fc_finalized (nd_forkchoice (sy_node s4)) = 1000" by auto
  from rtranclp_trans [OF rtranclp_trans [OF 2(1) quiet_turns [OF 3(1)]] 4(1)]
  have "(demo_step h e)\<^sup>*\<^sup>* (system_start default_celestia rc n) s4" .
  with 3(2) 4(2,3) show ?thesis by auto
qed

lemma demo_node_runs:
  assumes "validator_index (ka_public demo_keys) rc = Some 1" "sc_validators rc = [1, 0]"
    and "nd_batch_open n" "nd_batch_queue n = []" "nd_da n = da_initial" "nd_world n = empty_node"
  shows "\<exists>s. node_runs (ka_public demo_keys) remdups (client_app_env reth_env h e) (execution_client reth_env)
      started_da rc n s \<and> sy_submitted s = [first_block] \<and> fc_finalized (nd_forkchoice (sy_node s)) = 1000"
  using demo_system [OF assms(3-6), of h e rc 9 102] assms(1,2)
  by (simp add: node_runs_def numeral_2_eq_2 demo_block_first)

lemma demo_node_queues:
  assumes "validator_index (ka_public demo_keys) rc = Some 1" "sc_validators rc = [1, 0]"
    and "nd_batch_open n" "nd_batch_queue n = []" "nd_da n = da_initial" "nd_world n = empty_node"
  shows "\<exists>s. node_runs (ka_public demo_keys) remdups (client_app_env reth_env h e) (execution_client reth_env)
      started_da rc n s \<and> sy_submitted s = [] \<and> sy_batch_running s \<and> nd_batch_queue (sy_node s) = [first_block]"
proof -
  from demo_system_queued [OF assms(3-6), of h e rc 9 102] obtain s where
    s: "(demo_step h e)\<^sup>*\<^sup>* (system_start default_celestia rc n) s" "fresh_tasks (s\<lparr>sy_blocks_read := 0\<rparr>)"
      "nd_batch_queue (sy_node s) = [first_block]"
    by (auto simp: demo_block_first)
  then show ?thesis
    using assms(1,2) by (intro exI [of _ s]) (simp add: node_runs_def numeral_2_eq_2 fresh_tasks_def)
qed

end
