(* ===== verification/Cluster_Demo.thy ===== *)
theory Cluster_Demo
  imports Cluster_Live Pipeline_Demo
begin

text \<open>
  Two validators on the reth of \<open>Model_Reth\<close>: the first proposes, the engine decides, the second
  receives the block over the relay, both are told, and the first publishes. The witnesses of the
  properties of the cluster run it.
\<close>

lemma two_validators:
  assumes "0 \<in> set seeds"
  obtains rc n where
    "start_sequencer demo_libs demo_keys demo_addrs node_files plain_codec reth_env encoding_da
      ([], [], []) (seeded_config seeds) (ew_outside reth_world) empty_node = Some (Inr (reth_env, started_da, rc, n))"
    "validator_index (ka_public demo_keys) rc = position (\<lambda>s. s = 0) seeds" "sc_validators rc = seeds"
    "nd_batch_open n" "nd_batch_queue n = []" "nd_da n = da_initial" "nd_world n = empty_node"
    "sc_initial_hash rc = 7" "sc_block_timing rc = Vanilla" "fresh_reth (nd_exec n)"
  using seeded_start [OF assms] by auto

text \<open>The validator \<open>True\<close> is the second in its list and leads height 1.\<close>

definition demo_validators ::
  "(u64, u64, string) simplex_config \<times> (reth exec_world, celestia_node) node
    \<Rightarrow> (u64, u64, string) simplex_config \<times> (reth exec_world, celestia_node) node
    \<Rightarrow> bool \<Rightarrow> (reth, celestia_node, bytes, bytes, u64, u64, string) validator" where
  "demo_validators first other v =
     \<lparr>va_exec = reth_env, va_da = started_da, va_config = fst (if v then first else other),
      va_node = snd (if v then first else other)\<rparr>"

lemma demo_validators_simps [simp]:
  "va_exec (demo_validators f o' v) = reth_env" "va_da (demo_validators f o' v) = started_da"
  "va_config (demo_validators f o' v) = fst (if v then f else o')"
  "va_node (demo_validators f o' v) = snd (if v then f else o')"
  by (simp_all add: demo_validators_def)

definition demo_index :: "bool \<Rightarrow> nat" where
  "demo_index v = (if v then 1 else 0)"

lemma relayed_bool:
  "relayed c = set (app_block_relay_sender (cl_app c True)) \<union> set (app_block_relay_sender (cl_app c False))"
  by (auto simp: relayed_def UNIV_bool)

text \<open>The engine and the applications: a proposal that both validators finalize.\<close>

lemma quiet_cluster:
  assumes "(demo_quiet h e)\<^sup>*\<^sup>* s s'" "sc_validators (fst f) = [1, 0]" "cl_system c True = s"
  shows "(validator_step remdups h e (demo_validators f o') demo_index)\<^sup>*\<^sup>* c (set_system True s' c)"
  using assms(1)
proof (induction rule: rtranclp_induct)
  case base
  have "set_system True s c = c" using assms(3) by (simp add: set_system_def fun_upd_idem)
  then show ?case by simp
next
  case (step s1 s2)
  have "validator_step remdups h e (demo_validators f o') demo_index (set_system True s1 c)
      (set_system True s2 (set_system True s1 c))"
    by (rule task_turn) (use step.hyps(2) assms(2) in \<open>simp_all add: demo_index_def numeral_2_eq_2\<close>)
  moreover have "set_system True s2 (set_system True s1 c) = set_system True s2 c"
    by (simp add: set_system_def)
  ultimately show ?case using step.IH by (simp add: rtranclp.rtrancl_into_rtrancl)
qed

lemma demo_final_block:
  fixes h :: "bytes \<Rightarrow> digest"
  assumes "cl_app c v = a" "app_pending_blocks a d = Some (demo_block who time)" "app_height a = 1"
    "app_pending_payloads a d = Some (demo_payload who time)" "app_block_sender a = []"
    "cl_decided c = [d]" "cl_read c v = 0"
  obtains c' w where
    "validator_step remdups h e (demo_validators f o') demo_index c c'"
    "c' = read_decision v False (set_system v (answered (cl_system c v) w) c)"
    "app_block_sender (aw_app w) = [demo_block who time]"
    "app_block_relay_sender (aw_app w) = app_block_relay_sender a"
proof -
  from demo_finalize_message [OF assms(2,3,4), of h e "nd_exec (sy_node (cl_system c v))"] obtain r w where
    m: "process_message (client_app_env reth_env h e) (M_Finalize d) (app_part (cl_system c v)) = Some (r, w)"
    and w: "app_block_sender (aw_app w) = [demo_block who time]"
    by (auto simp: app_part_def assms(1,5))
  let ?missed = "app_pending_blocks (cl_app c v) d = None \<and> next_block c v d"
  let ?c' = "read_decision v ?missed (set_system v (answered (cl_system c v) w) c)"
  have "validator_step remdups h e (demo_validators f o') demo_index c ?c'"
    by (rule finalization_arrives [where r = r]) (use m assms(6,7) in simp_all)
  moreover have "?missed = False" using assms(1,2) by simp
  ultimately have "validator_step remdups h e (demo_validators f o') demo_index c
      (read_decision v False (set_system v (answered (cl_system c v) w) c))" by simp
  moreover have "app_block_relay_sender (aw_app w) = app_block_relay_sender a"
    using finalization_effect(1) [OF m] assms(1) by simp
  ultimately show ?thesis using w by (intro that [OF _ refl])
qed

text \<open>The proposal, the decision and the relay.\<close>

lemma demo_relayed:
  fixes h :: "bytes \<Rightarrow> digest"
  assumes "sc_initial_hash (fst f) = 7" "sc_block_timing (fst f) = Vanilla" "fresh_reth (nd_exec (snd f))"
  obtains c d time who where
    "(validator_step remdups h e (demo_validators f o') demo_index)\<^sup>*\<^sup>* (cluster_start (demo_validators f o')) c"
    "\<And>v. app_pending_blocks (cl_app c v) d = Some (demo_block who time)"
    "\<And>v. app_pending_payloads (cl_app c v) d = Some (demo_payload who time)"
    "\<And>v. app_height (cl_app c v) = 1" "\<And>v. app_block_sender (cl_app c v) = []"
    "relayed c = {\<lparr>pb_digest = d, pb_block = demo_block who time, pb_payload = demo_payload who time\<rparr>}"
    "cl_decided c = [d]" "\<And>v. cl_read c v = 0" "\<not> cl_missed c"
    "\<exists>x. cl_system c True = (system_start default_celestia (fst f) (snd f))
       \<lparr>sy_app := cl_app c True, sy_node := (snd f)\<lparr>nd_exec := x\<rparr>\<rparr>"
proof -
  let ?V = "demo_validators f o'"
  let ?step = "validator_step remdups h e ?V demo_index"
  let ?A = "client_app_env reth_env h e"
  let ?c0 = "cluster_start ?V"
  let ?s = "system_start default_celestia (fst f) (snd f)"
  let ?p = "demo_payload (sc_our_address (fst f)) 105" and ?b = "demo_block (sc_our_address (fst f)) 105"
  have s0: "cl_system ?c0 True = ?s" by (simp add: cluster_start_def)
  from demo_propose [OF refl assms, of h e] obtain d w where
    m: "process_message ?A M_Propose \<lparr>aw_app = create_application (fst f), aw_world = nd_exec (snd f)\<rparr> =
      Some (R_Digest d, w)" and w: "aw_app w = after_proposal d ?p (create_application (fst f))"
    by blast
  let ?c1 = "set_system True (answered ?s w) ?c0"
  have 1: "?step ?c0 ?c1"
  proof -
    have "process_message ?A M_Propose (app_part (cl_system ?c0 True)) = Some (R_Digest d, w)"
      using m by (simp add: s0 app_part_def system_start_def)
    then show ?thesis
      using message_arrives [where c = ?c0 and m = M_Propose and v = True] by (simp add: s0)
  qed
  have relay1: "relayed ?c1 = {\<lparr>pb_digest = d, pb_block = ?b, pb_payload = ?p\<rparr>}"
    by (auto simp: relayed_bool w cluster_start_def system_start_def create_application_def
        application_new_def after_proposal_def broadcast_to_relay_def demo_block_def)
  let ?c2 = "?c1\<lparr>cl_decided := [d]\<rparr>"
  have 2: "?step ?c1 ?c2"
    using engine_decides [where c = ?c1 and p = "\<lparr>pb_digest = d, pb_block = ?b, pb_payload = ?p\<rparr>"]
    by (simp add: relay1) (simp add: cluster_start_def)
  have relay2: "relayed ?c2 = relayed ?c1" by (simp add: relayed_def)
  have other: "cl_app ?c2 False = create_application (fst o')"
    by (simp add: cluster_start_def system_start_def)
  have "app_pending_blocks (cl_app ?c2 False) d = None" "app_height (cl_app ?c2 False) = 1"
    unfolding other by (simp_all add: create_application_def application_new_def)
  note r = demo_receive [OF this, of h e "sc_our_address (fst f)" 105 "nd_exec (sy_node (cl_system ?c2 False))"]
  then obtain r2 w2 where
    m2: "process_message ?A (M_ReceiveBlock d ?b ?p) (app_part (cl_system ?c2 False)) = Some (r2, w2)"
    and w2: "app_pending_blocks (aw_app w2) d = Some ?b" "app_pending_payloads (aw_app w2) d = Some ?p"
      "app_height (aw_app w2) = 1" "app_block_sender (aw_app w2) = []"
    unfolding app_part_def other by (auto simp: create_application_def application_new_def)
  have arrives: "arrives ?c2 (M_ReceiveBlock d ?b ?p)" by (simp add: relay2 relay1)
  let ?c3 = "set_system False (answered (cl_system ?c2 False) w2) ?c2"
  have 3: "?step ?c2 ?c3"
    by (rule message_arrives [OF arrives]) (use m2 in simp)
  obtain ps where ps: "app_block_relay_sender (aw_app w2) = app_block_relay_sender (cl_app ?c2 False) @ ps"
    "ps = []"
  proof -
    from m2 obtain x where "handle_receive_block ?A d ?b ?p (app_part (cl_system ?c2 False)) = Some (x, w2)"
      by (auto elim!: act_elims)
    then have "app_block_relay_sender (aw_app w2) = app_block_relay_sender (cl_app ?c2 False)"
      by (cases rule: handle_receive_block_cases) (simp_all add: app_update_simps)
    then show ?thesis using that by simp
  qed
  have relay3: "relayed ?c3 = {\<lparr>pb_digest = d, pb_block = ?b, pb_payload = ?p\<rparr>}"
    by (subst relayed_kept) (use ps relay1 relay2 in simp_all)
  have apps: "cl_app ?c3 True = aw_app w" "cl_app ?c3 False = aw_app w2" by simp_all
  have a1: "app_pending_blocks (aw_app w) d = Some ?b" "app_pending_payloads (aw_app w) d = Some ?p"
    "app_height (aw_app w) = 1" "app_block_sender (aw_app w) = []"
    by (simp_all add: w after_proposal_def broadcast_to_relay_def create_application_def
        application_new_def demo_block_def)
  show ?thesis
  proof (rule that [of ?c3 d "sc_our_address (fst f)" 105])
    show "?step\<^sup>*\<^sup>* ?c0 ?c3" using 1 2 3 by (meson r_into_rtranclp rtranclp_trans)
    show "app_pending_blocks (cl_app ?c3 v) d = Some ?b" for v using apps a1 w2 by (cases v) simp_all
    show "app_pending_payloads (cl_app ?c3 v) d = Some ?p" for v using apps a1 w2 by (cases v) simp_all
    show "app_height (cl_app ?c3 v) = 1" for v using apps a1 w2 by (cases v) simp_all
    show "app_block_sender (cl_app ?c3 v) = []" for v using apps a1 w2 by (cases v) simp_all
    show "relayed ?c3 = {\<lparr>pb_digest = d, pb_block = ?b, pb_payload = ?p\<rparr>}" by (rule relay3)
    show "cl_decided ?c3 = [d]" "cl_read ?c3 v = 0" "\<not> cl_missed ?c3" for v
      by (simp_all add: cluster_start_def set_system_def)
    show "\<exists>x. cl_system ?c3 True = ?s\<lparr>sy_app := cl_app ?c3 True, sy_node := (snd f)\<lparr>nd_exec := x\<rparr>\<rparr>"
      by (rule exI [of _ "aw_world w"]) (simp add: answered_def system_start_def)
  qed
qed

text \<open>Both validators finalize the block, and the first publishes it.\<close>

lemma demo_cluster:
  fixes h :: "bytes \<Rightarrow> digest"
  assumes "sc_initial_hash (fst f) = 7" "sc_block_timing (fst f) = Vanilla" "fresh_reth (nd_exec (snd f))"
    and "sc_validators (fst f) = [1, 0]"
    and "nd_batch_open (snd f)" "nd_batch_queue (snd f) = []" "nd_da (snd f) = da_initial"
    "nd_world (snd f) = empty_node"
  obtains c d b where
    "(validator_step remdups h e (demo_validators f o') demo_index)\<^sup>*\<^sup>* (cluster_start (demo_validators f o')) c"
    "\<And>p. p \<in> relayed c \<Longrightarrow> pb_digest p = d \<and> pb_block p = b" "\<not> cl_missed c"
    "cl_decided c = [d]" "\<And>v. cl_read c v = 1" "block_height b = 1"
    "\<And>v. app_block_sender (cl_app c v) = [b]" "sy_submitted (cl_system c True) = [b]"
proof -
  let ?V = "demo_validators f o'"
  let ?step = "validator_step remdups h e ?V demo_index"
  obtain c d time who where
    1: "?step\<^sup>*\<^sup>* (cluster_start ?V) c"
    and pending: "\<And>v. app_pending_blocks (cl_app c v) d = Some (demo_block who time)"
      "\<And>v. app_pending_payloads (cl_app c v) d = Some (demo_payload who time)"
      "\<And>v. app_height (cl_app c v) = 1" "\<And>v. app_block_sender (cl_app c v) = []"
    and relay: "relayed c = {\<lparr>pb_digest = d, pb_block = demo_block who time, pb_payload = demo_payload who time\<rparr>}"
    and engine: "cl_decided c = [d]" "\<And>v. cl_read c v = 0" "\<not> cl_missed c"
    and system: "\<exists>x. cl_system c True = (system_start default_celestia (fst f) (snd f))
       \<lparr>sy_app := cl_app c True, sy_node := (snd f)\<lparr>nd_exec := x\<rparr>\<rparr>"
    using demo_relayed [OF assms(1-3)] by metis
  let ?b = "demo_block who time"
  obtain c1 w1 where 2: "?step c c1" and c1: "c1 = read_decision True False (set_system True (answered (cl_system c True) w1) c)"
    and w1: "app_block_sender (aw_app w1) = [?b]"
      "app_block_relay_sender (aw_app w1) = app_block_relay_sender (cl_app c True)"
    using demo_final_block [OF refl pending(1,3,2,4) engine(1,2)] by metis
  have same: "cl_app c1 False = cl_app c False" "cl_decided c1 = [d]" "cl_read c1 False = 0"
    by (simp_all add: c1 engine)
  note pending1 = pending [of False, folded same(1)]
  obtain c2 w2 where 3: "?step c1 c2" and c2: "c2 = read_decision False False (set_system False (answered (cl_system c1 False) w2) c1)"
    and w2: "app_block_sender (aw_app w2) = [?b]"
      "app_block_relay_sender (aw_app w2) = app_block_relay_sender (cl_app c1 False)"
    using demo_final_block [OF refl pending1(1,3,2,4) same(2,3)] by metis
  have sys: "cl_system c2 True = answered (cl_system c True) w1" by (simp add: c2 c1)
  obtain x a where x: "cl_system c True = (system_start default_celestia (fst f) (snd f))
       \<lparr>sy_app := a, sy_node := (snd f)\<lparr>nd_exec := x\<rparr>\<rparr>" using system by blast
  have fresh: "fresh_tasks (cl_system c2 True)" "nd_batch_queue (sy_node (cl_system c2 True)) = []"
    "app_block_sender (sy_app (cl_system c2 True)) = [?b]"
    unfolding sys x using fresh_start [OF assms(5,7,8), of "fst f"] assms(6) w1
    by (simp_all add: fresh_tasks_def answered_def system_start_def)
  from demo_queued [OF fresh(1,3,2), of h e] obtain s1 where
    s1: "demo_quiet h e (cl_system c2 True) s1" "fresh_tasks (s1\<lparr>sy_blocks_read := 0\<rparr>)"
      "nd_batch_queue (sy_node s1) = [?b]" by blast
  from demo_submitted [OF s1(2,3), of h e] obtain s2 where
    s2: "(demo_quiet h e)\<^sup>*\<^sup>* s1 s2" "sy_submitted s2 = [?b]" by blast
  have quiet: "(demo_quiet h e)\<^sup>*\<^sup>* (cl_system c2 True) s2"
    using s1(1) s2(1) by (rule converse_rtranclp_into_rtranclp)
  then have app: "sy_app s2 = sy_app (cl_system c2 True)"
    by (induction rule: rtranclp_induct) simp_all
  let ?c3 = "set_system True s2 c2"
  have 4: "?step\<^sup>*\<^sup>* c2 ?c3" by (rule quiet_cluster [OF quiet assms(4) refl])
  have relayed: "relayed ?c3 = relayed c"
  proof -
    have "relayed ?c3 = relayed c2" by (rule relayed_kept) (simp add: app)
    also have "\<dots> = relayed c" by (simp add: relayed_bool c2 c1 w1(2) w2(2))
    finally show ?thesis .
  qed
  show ?thesis
  proof (rule that [of ?c3 d ?b])
    have "?step\<^sup>*\<^sup>* (cluster_start ?V) c2"
      by (rule rtranclp.rtrancl_into_rtrancl [OF rtranclp.rtrancl_into_rtrancl [OF 1 2] 3])
    then show "?step\<^sup>*\<^sup>* (cluster_start ?V) ?c3" using 4 by (rule rtranclp_trans)
    show "pb_digest p = d \<and> pb_block p = ?b" if "p \<in> relayed ?c3" for p
      using that unfolding relayed relay by simp
    show "\<not> cl_missed ?c3" "cl_decided ?c3 = [d]" by (simp_all add: c2 c1 engine)
    show "cl_read ?c3 v = 1" for v by (cases v) (simp_all add: c2 c1 engine)
    show "block_height ?b = 1" by simp
    show "app_block_sender (cl_app ?c3 v) = [?b]" for v
      by (cases v) (simp_all add: app c2 c1 w1 w2)
    show "sy_submitted (cl_system ?c3 True) = [?b]" by (simp add: s2)
  qed
qed

text \<open>The same from the configurations on.\<close>

definition demo_config_of :: "bool \<Rightarrow> chain_config" where
  "demo_config_of v = seeded_config (if v then [1, 0] else [0, 1])"

lemma demo_cluster_runs:
  fixes h :: "bytes \<Rightarrow> digest"
  obtains V c d b where
    "\<And>v. start_sequencer demo_libs demo_keys demo_addrs node_files plain_codec reth_env encoding_da
      ([], [], []) (demo_config_of v) (ew_outside reth_world) empty_node =
      Some (Inr (va_exec (V v), va_da (V v), va_config (V v), va_node (V v)))"
    "cluster_runs (ka_public demo_keys) remdups h e V c"
    "names_blocks (\<lambda>_. b) c" "\<not> cl_missed c" "cl_decided c = [d]" "\<And>v. cl_read c v = 1"
    "block_height b = 1" "\<And>v. app_block_sender (cl_app c v) = [b]" "sy_submitted (cl_system c True) = [b]"
proof -
  have seeds: "(0 :: u64) \<in> set [1, 0]" "(0 :: u64) \<in> set [0, 1]" by simp_all
  obtain rc n where first:
    "start_sequencer demo_libs demo_keys demo_addrs node_files plain_codec reth_env encoding_da
      ([], [], []) (seeded_config [1, 0]) (ew_outside reth_world) empty_node = Some (Inr (reth_env, started_da, rc, n))"
    "validator_index (ka_public demo_keys) rc = Some 1" "sc_validators rc = [1, 0]"
    "nd_batch_open n" "nd_batch_queue n = []" "nd_da n = da_initial" "nd_world n = empty_node"
    "sc_initial_hash rc = 7" "sc_block_timing rc = Vanilla" "fresh_reth (nd_exec n)"
    by (rule two_validators [OF seeds(1)]) simp
  obtain rc' n' where other:
    "start_sequencer demo_libs demo_keys demo_addrs node_files plain_codec reth_env encoding_da
      ([], [], []) (seeded_config [0, 1]) (ew_outside reth_world) empty_node = Some (Inr (reth_env, started_da, rc', n'))"
    "validator_index (ka_public demo_keys) rc' = Some 0" "sc_validators rc' = [0, 1]"
    by (rule two_validators [OF seeds(2)]) simp
  let ?V = "demo_validators (rc, n) (rc', n')"
  obtain c d b where c:
    "(validator_step remdups h e ?V demo_index)\<^sup>*\<^sup>* (cluster_start ?V) c"
    "\<And>p. p \<in> relayed c \<Longrightarrow> pb_digest p = d \<and> pb_block p = b" "\<not> cl_missed c"
    "cl_decided c = [d]" "\<And>v. cl_read c v = 1" "block_height b = 1"
    "\<And>v. app_block_sender (cl_app c v) = [b]" "sy_submitted (cl_system c True) = [b]"
    by (rule demo_cluster [where f = "(rc, n)" and h = h and e = e and o' = "(rc', n')"]) (use first in simp_all)
  have "\<forall>v. validator_index (ka_public demo_keys) (va_config (?V v)) = Some (demo_index v)"
    using first(2) other(2) by (simp add: demo_index_def)
  with c(1) have runs: "cluster_runs (ka_public demo_keys) remdups h e ?V c"
    unfolding cluster_runs_def by blast
  have names: "names_blocks (\<lambda>_. b) c" using c(2) by (simp add: names_blocks_def)
  have start: "start_sequencer demo_libs demo_keys demo_addrs node_files plain_codec reth_env encoding_da
      ([], [], []) (demo_config_of v) (ew_outside reth_world) empty_node =
      Some (Inr (va_exec (?V v), va_da (?V v), va_config (?V v), va_node (?V v)))" for v
    using first(1) other(1) by (simp add: demo_config_of_def)
  show ?thesis by (rule that [OF start runs names c(3-8)])
qed

text \<open>The same validators before they are told of the decision.\<close>

lemma demo_cluster_waits:
  fixes h :: "bytes \<Rightarrow> digest"
  obtains V :: "bool \<Rightarrow> (reth, celestia_node, bytes, bytes, u64, u64, string) validator" and c d b where
    "cluster_runs (ka_public demo_keys) remdups h e V c" "names_blocks (\<lambda>_. b) c" "\<not> cl_missed c"
    "cl_decided c = [d]" "\<And>v. cl_read c v = 0" "block_height b = 1"
    "\<And>v. va_exec (V v) = reth_env"
proof -
  have seeds: "(0 :: u64) \<in> set [1, 0]" "(0 :: u64) \<in> set [0, 1]" by simp_all
  obtain rc :: "(u64, u64, string) simplex_config" and n :: "(reth exec_world, celestia_node) node" where
    first: "validator_index (ka_public demo_keys) rc = Some 1" "sc_validators rc = [1, 0]"
    "sc_initial_hash rc = 7" "sc_block_timing rc = Vanilla" "fresh_reth (nd_exec n)"
    by (rule two_validators [OF seeds(1)]) simp
  obtain rc' :: "(u64, u64, string) simplex_config" where
    other: "validator_index (ka_public demo_keys) rc' = Some 0" "sc_validators rc' = [0, 1]"
    by (rule two_validators [OF seeds(2)]) simp
  let ?V = "demo_validators (rc, n) (rc', n)"
  obtain c d time who where
    c: "(validator_step remdups h e ?V demo_index)\<^sup>*\<^sup>* (cluster_start ?V) c"
    "relayed c = {\<lparr>pb_digest = d, pb_block = demo_block who time, pb_payload = demo_payload who time\<rparr>}"
    "cl_decided c = [d]" "\<And>v. cl_read c v = 0" "\<not> cl_missed c"
    by (rule demo_relayed [where f = "(rc, n)" and h = h and e = e and o' = "(rc', n)"]) (use first in simp_all)
  have "\<forall>v. validator_index (ka_public demo_keys) (va_config (?V v)) = Some (demo_index v)"
    using first(1) other(1) by (simp add: demo_index_def)
  with c(1) have runs: "cluster_runs (ka_public demo_keys) remdups h e ?V c"
    unfolding cluster_runs_def by blast
  have names: "names_blocks (\<lambda>_. demo_block who time) c" by (simp add: names_blocks_def c(2))
  show ?thesis by (rule that [OF runs names]) (simp_all add: c(3-5))
qed

section \<open>Two blocks of one height\<close>

text \<open>
  An application that has proposed a block and one that has received another block of this height;
  both are told that the first is final and then that the second is.
\<close>

definition other_payload :: built_payload where
  "other_payload = first_payload\<lparr>pl_block_hash := 2000\<rparr>"

definition received_other :: "reth exec_world app_world" where
  "received_other = reth_start\<lparr>aw_app := after_receive (first_digest + 1)
     (build_block_from_payload other_payload) other_payload (application_new reth_config)\<rparr>"

lemma received_other_app:
  "app_pending_blocks (aw_app received_other) =
     [first_digest + 1 \<mapsto> build_block_from_payload other_payload]"
  "app_pending_payloads (aw_app received_other) = [first_digest + 1 \<mapsto> other_payload]"
  "app_height (aw_app received_other) = 1" "app_block_sender (aw_app received_other) = []"
  "block_height (build_block_from_payload other_payload) = 1"
  "blk_block_hash (build_block_from_payload other_payload) = 2000" "pl_block_number other_payload = 1"
  "pl_block_hash other_payload = 2000"
  by (simp_all add: received_other_def after_receive_def application_new_def reth_config_def
      other_payload_def first_payload_def)

lemma other_run:
  "\<exists>rs w'. run_app reth_app_env [M_Finalize first_digest, M_Finalize (first_digest + 1)] received_other =
     Some (rs, w')"
  by (simp add: bind_act_def finalize_def received_other_app reth_new_payload_def Let_def apply_to_reth_def
      in_client_def apply_built_payload_def call_new_payload_def update_forkchoice_for_payload_def
      is_valid_height_def to_execution_payload_def check_payload_status_for_import_def bind_try_def
      app_update_simps other_payload_def first_payload_def)

lemma first_then_other_run:
  "\<exists>rs w'. run_app reth_app_env [M_Finalize first_digest, M_Finalize (first_digest + 1)] after_first_proposal =
     Some (rs, w')"
proof -
  have "app_pending_blocks (aw_app after_first_finalize) (first_digest + 1) = None"
    by (simp add: after_first_finalize_def after_first_proposal_def app_update_simps application_new_def)
  then show ?thesis
    by (simp add: first_finalize bind_act_def) (simp add: finalize_def bind_act_def)
qed

end
