(* ===== verification/Sync_Props.thy ===== *)
theory Sync_Props
  imports Node_Props
begin

text \<open>
  What the initial sync executes when nothing fails (crates/sequencer, \<open>src/simplex_sequencer.rs\<close>): the
  fetched blocks that are not indexed, in the order of their heights. So a new node ends on the
  highest block that Celestia holds, and a node that starts again with its index does not.
\<close>

section \<open>Nothing fails\<close>

text \<open>
  reth takes blocks one after the other, each in the state that the blocks before it left: it answers
  that the block is valid and then accepts it as head, with the finalized block of the sequencer's
  forkchoice. The storage of the index takes every entry.
\<close>

fun takes_blocks :: "'x execution \<Rightarrow> forkchoice_state \<Rightarrow> block list \<Rightarrow> 'x \<Rightarrow> bool" where
  "takes_blocks X s [] x = True"
| "takes_blocks X s (b # bs) x =
     (case x_execute_block X b x of
        Some (Inr r, x1) \<Rightarrow> execution_result_is_valid r \<and>
          (case x_update_forkchoice X (with_soft s (blk_block_hash b)) x1 of
             Some (Inr _, x2) \<Rightarrow> takes_blocks X (with_soft s (blk_block_hash b)) bs x2
           | _ \<Rightarrow> False)
      | _ \<Rightarrow> False)"

lemma takes_blocks_Cons:
  assumes "takes_blocks X s (b # bs) x"
  obtains r x1 x2 where "x_execute_block X b x = Some (Inr r, x1)" "execution_result_is_valid r"
    "x_update_forkchoice X (with_soft s (blk_block_hash b)) x1 = Some (Inr (), x2)"
    "takes_blocks X (with_soft s (blk_block_hash b)) bs x2"
proof -
  from assms obtain r' x1 where x1: "x_execute_block X b x = Some (r', x1)"
    by (auto split: option.splits)
  with assms obtain r where r: "r' = Inr r" by (cases r') simp_all
  with assms x1 obtain u x2 where
    x2: "x_update_forkchoice X (with_soft s (blk_block_hash b)) x1 = Some (u, x2)"
    by (auto split: option.splits)
  from assms x1 r x2 that show ?thesis by (cases u) simp_all
qed

definition takes_entries :: "'w file_ops \<Rightarrow> json_codec \<Rightarrow> bool" where
  "takes_entries F J \<longleftrightarrow> (\<forall>e i w. \<exists>w'. index_insert F J e i w = ((Inr (), insert_entry e i), w'))"

definition sync_entry :: "u64 \<times> block \<Rightarrow> index_entry" where
  "sync_entry cb = \<lparr>ie_block_height = block_height (snd cb), ie_block_hash = blk_block_hash (snd cb),
     ie_celestia_height = fst cb, ie_commitment = []\<rparr>"

definition not_indexed :: "block_index \<Rightarrow> (u64 \<times> block) list \<Rightarrow> (u64 \<times> block) list" where
  "not_indexed i cbs = filter (\<lambda>cb. get_by_height i (block_height (snd cb)) = None) cbs"

lemma execute_sync_block_taken:
  assumes "x_execute_block X b (nd_exec n) = Some (Inr r, x1)" "execution_result_is_valid r"
    and "x_update_forkchoice X (with_soft (nd_forkchoice n) (blk_block_hash b)) x1 = Some (Inr (), x2)"
  shows "execute_sync_block X b (blk_block_hash b) n =
    Some (Inr (), n\<lparr>nd_exec := x2, nd_forkchoice := with_soft (nd_forkchoice n) (blk_block_hash b)\<rparr>)"
  using assms
  by (simp add: execute_sync_block_def wrap_err_def bind_try_def bind_act_def in_exec_def
      update_and_store_def modify_node_def Let_def ret_def map_err_def)

lemma sync_single_block_taken:
  assumes "takes_blocks X (nd_forkchoice n) (b # bs) (nd_exec n)" "takes_entries F J"
  obtains n' where "sync_single_block X F J b c p n = Some (Inr (blk_block_hash b), n')"
    "fc_head (nd_forkchoice n') = blk_block_hash b"
    "nd_executed_blocks n' = insert (blk_block_hash b) (nd_executed_blocks n)"
    "nd_index n' = insert_entry (sync_entry (c, b)) (nd_index n)"
    "takes_blocks X (nd_forkchoice n') bs (nd_exec n')"
proof -
  from assms(1) obtain r x1 x2 where
    x: "x_execute_block X b (nd_exec n) = Some (Inr r, x1)" "execution_result_is_valid r"
      "x_update_forkchoice X (with_soft (nd_forkchoice n) (blk_block_hash b)) x1 = Some (Inr (), x2)"
    and rest: "takes_blocks X (with_soft (nd_forkchoice n) (blk_block_hash b)) bs x2"
    by (rule takes_blocks_Cons)
  obtain w where w: "index_insert F J (sync_entry (c, b)) (nd_index n) (nd_world n) =
      ((Inr (), insert_entry (sync_entry (c, b)) (nd_index n)), w)"
    using assms(2) unfolding takes_entries_def by blast
  from execute_sync_block_taken [OF x] w [unfolded sync_entry_def] rest show ?thesis
    by (intro that) (auto simp: sync_single_block_def bind_try_def bind_act_def modify_node_def
        index_insert_node_def wrap_err_def ret_def Let_def with_soft_def map_err_def sync_entry_def)
qed

section \<open>The sync\<close>

lemma not_indexed_insert:
  assumes "block_height (snd cb) \<notin> set (map (block_height \<circ> snd) cbs)"
  shows "not_indexed (insert_entry (sync_entry cb) i) cbs = not_indexed i cbs"
proof -
  have "block_height (snd x) \<noteq> block_height (snd cb)" if "x \<in> set cbs" for x
    using imageI [OF that, of "block_height \<circ> snd"] assms by (simp only: set_map comp_def) metis
  then show ?thesis
    unfolding not_indexed_def by (intro filter_cong refl) (simp add: lookups_insert sync_entry_def)
qed

lemma sync_blocks_taken:
  assumes "takes_entries F J"
  shows "takes_blocks X (nd_forkchoice n) (map snd (not_indexed (nd_index n) cbs)) (nd_exec n) \<Longrightarrow>
    distinct (map (block_height \<circ> snd) cbs) \<Longrightarrow>
    \<exists>n'. sync_blocks X F J cbs p l n =
        Some (Inr (last (l # map (block_height \<circ> snd) (not_indexed (nd_index n) cbs))), n') \<and>
      fc_head (nd_forkchoice n') =
        last (fc_head (nd_forkchoice n) # map (blk_block_hash \<circ> snd) (not_indexed (nd_index n) cbs)) \<and>
      nd_executed_blocks n' =
        nd_executed_blocks n \<union> (blk_block_hash \<circ> snd) ` set (not_indexed (nd_index n) cbs) \<and>
      nd_index n' = fold (insert_entry \<circ> sync_entry) (not_indexed (nd_index n) cbs) (nd_index n)"
proof (induction cbs arbitrary: p l n)
  case Nil
  then show ?case by (simp add: not_indexed_def)
next
  case (Cons cb cbs)
  obtain c b where cb: "cb = (c, b)" by (cases cb)
  have rest: "distinct (map (block_height \<circ> snd) cbs)" using Cons.prems(2) by (simp add: comp_def)
  show ?case
  proof (cases "get_by_height (nd_index n) (block_height b) = None")
    case False
    then have same: "not_indexed (nd_index n) (cb # cbs) = not_indexed (nd_index n) cbs"
      by (simp add: cb not_indexed_def)
    moreover from False have "sync_blocks X F J (cb # cbs) p l n =
        sync_blocks X F J cbs (blk_block_hash b) l n" by (auto simp: cb)
    ultimately show ?thesis using Cons.IH [OF Cons.prems(1) [unfolded same] rest] by (simp only: simp_thms)
  next
    case True
    have first: "not_indexed (nd_index n) (cb # cbs) = (c, b) # not_indexed (nd_index n) cbs"
      using True by (simp add: cb not_indexed_def)
    from Cons.prems(1) have "takes_blocks X (nd_forkchoice n)
        (b # map snd (not_indexed (nd_index n) cbs)) (nd_exec n)" unfolding first by simp
    from sync_single_block_taken [OF this assms, of c p] obtain n1 where
      single: "sync_single_block X F J b c p n = Some (Inr (blk_block_hash b), n1)"
      and n1: "fc_head (nd_forkchoice n1) = blk_block_hash b"
        "nd_executed_blocks n1 = insert (blk_block_hash b) (nd_executed_blocks n)"
        "nd_index n1 = insert_entry (sync_entry (c, b)) (nd_index n)"
        "takes_blocks X (nd_forkchoice n1) (map snd (not_indexed (nd_index n) cbs)) (nd_exec n1)" .
    have later: "not_indexed (nd_index n1) cbs = not_indexed (nd_index n) cbs"
      using Cons.prems(2) not_indexed_insert [of cb cbs "nd_index n"] by (simp add: n1(3) cb)
    have new: "not_indexed (nd_index n) (cb # cbs) = cb # not_indexed (nd_index n1) cbs"
      using first by (simp add: later cb)
    from Cons.IH [OF n1(4) [folded later] rest, of "blk_block_hash b" "block_height b"] obtain n' where
      "sync_blocks X F J cbs (blk_block_hash b) (block_height b) n1 =
        Some (Inr (last (block_height b # map (block_height \<circ> snd) (not_indexed (nd_index n1) cbs))), n')"
      and n': "fc_head (nd_forkchoice n') =
          last (blk_block_hash b # map (blk_block_hash \<circ> snd) (not_indexed (nd_index n1) cbs))"
        "nd_executed_blocks n' = insert (blk_block_hash b) (nd_executed_blocks n) \<union>
          (blk_block_hash \<circ> snd) ` set (not_indexed (nd_index n1) cbs)"
        "nd_index n' = fold (insert_entry \<circ> sync_entry) (not_indexed (nd_index n1) cbs) (nd_index n1)"
      unfolding n1(1,2) by blast
    then have "sync_blocks X F J (cb # cbs) p l n =
        Some (Inr (last (l # map (block_height \<circ> snd) (not_indexed (nd_index n) (cb # cbs)))), n')"
      using True single by (simp add: cb new [unfolded cb] bind_try_def)
    moreover have "snd cb = b" "sync_entry cb = sync_entry (c, b)" by (simp_all add: cb)
    ultimately show ?thesis unfolding new
      by (intro exI conjI) (assumption, simp_all add: n' n1(3) comp_def)
  qed
qed

text \<open>
  C26: The sync executes what is missing. If the tracker has finality data up to at least the configured
  first height, the index opens, the download succeeds with blocks of different heights, reth takes
  those that are not indexed one after the other in the order of their heights, and the storage takes
  every entry, then the sync succeeds, and the blocks that were not
  indexed are executed in the order of their heights: the head is the highest of them, they are
  added to the executed blocks and to the index. If all of them are indexed already, as after a
  restart, then nothing is executed: the head stays where it was, on genesis.
\<close>

theorem sync_executes_missing:
  assumes "ce_genesis_da_height (da_config D) \<noteq> 0"
    and "ce_genesis_da_height (da_config D) \<le> finalized_height (ds_tracker (nd_da n))"
    and "index_open F J (ce_index_path (da_config D)) (nd_world n) = (Inr i, w)"
    and "get_blocks_in_range D (ce_genesis_da_height (da_config D))
      (finalized_height (ds_tracker (nd_da n))) w = (Inr found, w')"
    and "distinct (map (block_height \<circ> snd) found)" "takes_entries F J"
    and missing: "missing = not_indexed i (sort_key (block_height \<circ> snd) found)"
    and "takes_blocks X (nd_forkchoice n) (map snd missing) (nd_exec n)"
  shows "\<exists>n'. init_from_celestia X D F J n = Some (Inr (), n') \<and>
    fc_head (nd_forkchoice n') =
      last (fc_head (nd_forkchoice n) # map (blk_block_hash \<circ> snd) missing) \<and>
    nd_executed_blocks n' = nd_executed_blocks n \<union> (blk_block_hash \<circ> snd) ` set missing \<and>
    nd_index n' = fold (insert_entry \<circ> sync_entry) missing i"
proof -
  let ?f = "finalized_height (ds_tracker (nd_da n))" and ?g = "ce_genesis_da_height (da_config D)"
  let ?n = "n\<lparr>nd_world := w, nd_index := i\<rparr>" and ?sorted = "sort_key (block_height \<circ> snd) found"
  have "?f \<noteq> 0" using assms(1,2) by (auto simp: word_le_0_iff)
  then have start: "check_sync_preconditions (nd_index ?n) ?g ?f = None"
    using assms(2) by (simp add: check_sync_preconditions_def not_less)
  have fetch: "fetch_blocks_from_celestia D ?g ?f ?n = Some (Inr ?sorted, ?n\<lparr>nd_world := w'\<rparr>)"
    using assms(4) by (cases "found = []")
      (simp_all add: fetch_blocks_from_celestia_def wrap_err_def in_world_def bind_try_def bind_act_def
        ret_def map_err_def case_prod_unfold comp_def)
  have "distinct (map (block_height \<circ> snd) ?sorted)"
    using assms(5) by (simp add: distinct_map comp_def)
  moreover have "takes_blocks X (nd_forkchoice (?n\<lparr>nd_world := w'\<rparr>))
      (map snd (not_indexed (nd_index (?n\<lparr>nd_world := w'\<rparr>)) ?sorted)) (nd_exec (?n\<lparr>nd_world := w'\<rparr>))"
    using assms(8) by (simp add: missing)
  ultimately have "\<exists>r n'. sync_blocks X F J ?sorted (fc_head (nd_forkchoice n)) (unwrap_or (latest_height i) 0)
        (?n\<lparr>nd_world := w'\<rparr>) = Some (Inr r, n') \<and>
      fc_head (nd_forkchoice n') =
        last (fc_head (nd_forkchoice n) # map (blk_block_hash \<circ> snd) missing) \<and>
      nd_executed_blocks n' = nd_executed_blocks n \<union> (blk_block_hash \<circ> snd) ` set missing \<and>
      nd_index n' = fold (insert_entry \<circ> sync_entry) missing i"
    using sync_blocks_taken [OF assms(6), of X "?n\<lparr>nd_world := w'\<rparr>" ?sorted "fc_head (nd_forkchoice n)"
        "unwrap_or (latest_height i) 0"] unfolding missing by auto
  then
  obtain r n' where n': "sync_block_batch X F J ?sorted (?n\<lparr>nd_world := w'\<rparr>) = Some (Inr r, n')"
      "fc_head (nd_forkchoice n') =
        last (fc_head (nd_forkchoice n) # map (blk_block_hash \<circ> snd) missing)"
      "nd_executed_blocks n' = nd_executed_blocks n \<union> (blk_block_hash \<circ> snd) ` set missing"
      "nd_index n' = fold (insert_entry \<circ> sync_entry) missing i"
    by (auto simp: sync_block_batch_def)
  have "\<exists>r. sync_from_celestia X D F J ?g ?n = Some (Inr r, n')"
  proof (cases "?sorted = []")
    case False
    with start fetch n'(1) show ?thesis
      by (simp add: sync_from_celestia_def bind_try_def)
  next
    case True
    with n'(1) have "n' = ?n\<lparr>nd_world := w'\<rparr>" by (simp add: sync_block_batch_def)
    with True start fetch show ?thesis
      by (simp add: sync_from_celestia_def bind_try_def)
  qed
  then have "init_from_celestia X D F J n = Some (Inr (), n')"
    using assms(1,3) by (auto simp: init_from_celestia_def bind_try_def ret_def)
  with n' show ?thesis by blast
qed

definition second_payload :: built_payload where
  "second_payload = first_payload\<lparr>pl_block_hash := 1001, pl_block_number := 2, pl_parent_hash := 1000\<rparr>"

definition second_block :: block where
  "second_block = build_block_from_payload second_payload"

text \<open>Celestia holds the second block before the first one, at height 5, the last final one.\<close>

definition two_blocks_env :: "(celestia_node, bytes, bytes) da_env" where
  "two_blocks_env = node_env\<lparr>da_config := default_celestia\<lparr>ce_genesis_da_height := 5\<rparr>,
     da_decode := (\<lambda>d. if d = [1] then Inr first_block else if d = [2] then Inr second_block
       else Inl ''unknown data'')\<rparr>"

definition behind_node :: "(reth exec_world, celestia_node) node" where
  "behind_node = stocked_node\<lparr>nd_world := \<lparr>cn_height = 5, cn_batches = [(5, [[2], [3], [1]])]\<rparr>,
     nd_da := tracker_start\<lparr>ds_tracker := tracker_new\<lparr>ft_finalized_height := 5\<rparr>\<rparr>\<rparr>"

lemma second_block_fields [simp]:
  "blk_block_hash second_block = 1001" "block_height second_block = 2"
  "build_payload L second_block = to_execution_payload L second_payload"
  by (simp_all add: second_block_def block_payload_same)
    (simp_all add: second_payload_def first_payload_def)

text \<open>A reth that is syncing while it does not know the parent of a block.\<close>

definition syncing_execution :: "(reth exec_world) execution" where
  "syncing_execution = (execution_client reth_env)\<lparr>x_execute_block := (\<lambda>b w.
     if block_parent_hash b \<in> fst ` set (reth_known (ew_outside w)) then execute_block reth_env b w
     else Some (Inr \<lparr>er_block_hash = blk_block_hash b, er_block_number = block_height b, er_gas_used = 0,
       er_status = ES_Syncing\<rparr>, w))\<rparr>"

lemma second_block_parents [simp]: "block_parent_hash first_block = 7" "block_parent_hash second_block = 1000"
  by (simp_all add: second_block_def first_block_def block_parent_hash_def build_block_from_payload_def
      block_new_def second_payload_def first_payload_def Let_def)

lemma syncing_reth_takes:
  "takes_blocks syncing_execution (fc_genesis 7) [first_block, second_block] reth_world"
  "\<not> takes_blocks syncing_execution (fc_genesis 7) [second_block, first_block] reth_world"
  by (simp_all add: syncing_execution_def execution_client_def execute_block_def
      to_execution_payload_def second_payload_def first_payload_def reth_new_payload_def
      tick_def bind_act_def bind_try_def ret_def Let_def reth_world_def with_soft_def)

lemma node_files_take_entries: "takes_entries node_files plain_codec"
  by (simp add: takes_entries_def index_insert_def node_files_def plain_codec_def)

lemma behind_node_fetch:
  "get_blocks_in_range two_blocks_env 5 5 (nd_world behind_node) =
     (Inr [(5, second_block), (5, first_block)], nd_world behind_node)"
  by (simp add: get_blocks_in_range_def inclusive_heights_def two_blocks_env_def
      get_blocks_def fetch_blobs_def try_decode_blob_def decode_block_def behind_node_def Let_def)

theorem sync_executes_missing_witness:
  "\<exists>n'. init_from_celestia syncing_execution two_blocks_env node_files plain_codec behind_node =
      Some (Inr (), n') \<and> fc_head (nd_forkchoice n') = 1001 \<and> nd_executed_blocks n' = {1000, 1001} \<and>
    get_by_height (nd_index n') 2 \<noteq> None"
proof -
  let ?D = two_blocks_env
  obtain i where i: "index_open node_files plain_codec (ce_index_path (da_config ?D)) (nd_world behind_node) =
      (Inr i, nd_world behind_node)" "bx_by_height i = []"
    by (auto simp: index_open_def node_files_def)
  have "ce_genesis_da_height (da_config ?D) = 5" "finalized_height (ds_tracker (nd_da behind_node)) = 5"
    by (simp_all add: two_blocks_env_def behind_node_def finalized_height_def)
  moreover have "nd_forkchoice behind_node = fc_genesis 7" "nd_exec behind_node = reth_world"
    by (simp_all add: behind_node_def stocked_node_def demo_node_def)
  moreover have "not_indexed i (sort_key (block_height \<circ> snd) [(5 :: u64, second_block), (5, first_block)]) =
      [(5, first_block), (5, second_block)]"
    by (simp add: not_indexed_def get_by_height_def i btree_get_def word_le_nat_alt)
  ultimately obtain n' where n':
    "init_from_celestia syncing_execution ?D node_files plain_codec behind_node = Some (Inr (), n')"
    "fc_head (nd_forkchoice n') = 1001"
    "nd_executed_blocks n' = nd_executed_blocks behind_node \<union> {1000, 1001}"
    "nd_index n' = fold (insert_entry \<circ> sync_entry) [(5, first_block), (5, second_block)] i"
    using sync_executes_missing [of ?D behind_node node_files plain_codec i "nd_world behind_node"
        "[(5, second_block), (5, first_block)]" "nd_world behind_node"
        "[(5, first_block), (5, second_block)]" syncing_execution,
        OF _ _ i(1) _ _ node_files_take_entries] behind_node_fetch syncing_reth_takes(1)
    by auto
  moreover have "nd_executed_blocks behind_node = {}"
    by (simp add: behind_node_def stocked_node_def demo_node_def)
  ultimately show ?thesis by (auto simp: lookups_insert sync_entry_def)
qed

end
