(* ===== verification/Index_Props.thy ===== *)
theory Index_Props
  imports Block_Index
begin

text \<open>
  The properties of the block index: its invariant over everything that can happen to it, what its
  lookups return after an insertion, its ranges, and that closing and reopening it loses nothing.
\<close>

section \<open>Runs\<close>

fun run_inserts ::
  "'w file_ops \<Rightarrow> json_codec \<Rightarrow> index_entry list \<Rightarrow> block_index
    \<Rightarrow> ('w, (celestia_error + unit) list \<times> block_index) io" where
  "run_inserts F J [] i w = (([], i), w)"
| "run_inserts F J (e # es) i w =
     (let ((r, i1), w1) = index_insert F J e i w;
          ((rs, i2), w2) = run_inserts F J es i1 w1
      in ((r # rs, i2), w2))"

lemma run_inserts_ok:
  "run_inserts F J es i w = ((rs, i'), w') \<Longrightarrow> index_ok i \<Longrightarrow> index_ok i'"
  by (induction es arbitrary: i w rs) (auto dest: index_insert_ok split: prod.splits)

text \<open>
  The index is consistent whatever the file system answers and whatever the file holds. After
  opening, with malformed lines skipped, and any sequence of insertions, failed ones included, the
  height index is ordered, every entry is filed under its own height, its hash is known, and every
  known hash leads to an entry.
\<close>

theorem index_always_ok:
  assumes "index_open F J path w = (Inr i, w1)" "run_inserts F J es i w1 = ((rs, i'), w2)"
  shows "index_ok i'"
  using index_open_ok [OF assms(1)] run_inserts_ok [OF assms(2)] by blast

section \<open>Lookups\<close>

lemma last_key_insert:
  "btree_wf m \<Longrightarrow> btree_last_key (btree_insert k v m) =
     Some (case btree_last_key m of None \<Rightarrow> k | Some l \<Rightarrow> max l k)"
proof (induction k v m rule: btree_insert.induct)
  case (1 k v)
  then show ?case by (simp add: btree_last_key_def)
next
  case (2 k v k' v' m)
  have "k' < fst x" if "x \<in> set m" for x
    using 2(2) that by simp
  then have le: "m \<noteq> [] \<Longrightarrow> k' < fst (last m)" by simp
  have ne: "btree_insert k v m \<noteq> []" by (cases m) (auto split: if_splits)
  show ?case
  proof (cases "m = []")
    case True
    then show ?thesis by (auto simp: btree_last_key_def max_def)
  next
    case False
    with le have "k' < fst (last m)" by simp
    then have "k \<le> k' \<Longrightarrow> max (fst (last m)) k = fst (last m)"
      by (simp add: max_absorb1)
    with 2 False ne show ?thesis by (auto simp: btree_last_key_def)
  qed
qed

text \<open>
  What the lookups return after a successful insertion. By height, the new entry at its height
  and the old ones elsewhere. By hash, the new entry for its hash, but also for every hash that had
  been filed at the same height, so such a lookup returns an entry with another hash; the old
  answers otherwise. The latest height is the largest, and the index grows by one for a new height.
\<close>

theorem index_insert_lookups:
  assumes "index_ok i" "index_insert F J e i w = ((Inr (), i'), w')"
  shows "(\<forall>h. get_by_height i' h = (if h = ie_block_height e then Some e else get_by_height i h)) \<and>
    (\<forall>k. get_by_hash i' k =
      (if k = ie_block_hash e \<or> bx_by_hash i k = Some (ie_block_height e) then Some e
       else get_by_hash i k)) \<and>
    latest_height i' = Some (case latest_height i of
      None \<Rightarrow> ie_block_height e | Some l \<Rightarrow> max l (ie_block_height e)) \<and>
    index_len i' = (if get_by_height i (ie_block_height e) = None then index_len i + 1 else index_len i)"
proof -
  have "i' = insert_entry e i"
    using assms(2) by (cases rule: index_insert_cases) auto
  moreover have "btree_wf (bx_by_height i)" using assms(1) by (simp add: index_ok_def)
  ultimately show ?thesis
    using last_key_insert [of "bx_by_height i" "ie_block_height e" e]
      length_btree_insert [of "bx_by_height i" "ie_block_height e" e]
    by (intro conjI) (simp_all add: lookups_insert,
      simp_all add: latest_height_def index_len_def insert_entry_def get_by_height_def)
qed

text \<open>
  A range is the entries between its bounds in ascending order, and asking for one with the
  bounds in the wrong order panics, as \<open>BTreeMap::range\<close> does.
\<close>

theorem index_range_result:
  assumes "index_ok i"
  shows "case index_range i lo hi of
      None \<Rightarrow> hi < lo
    | Some es \<Rightarrow> lo \<le> hi \<and> sorted_wrt (<) (map ie_block_height es) \<and>
        set es = {e. lo \<le> ie_block_height e \<and> ie_block_height e \<le> hi \<and>
          get_by_height i (ie_block_height e) = Some e}"
proof (cases "hi < lo")
  case True
  then show ?thesis by (simp add: index_range_def btree_range_def)
next
  case False
  let ?m = "bx_by_height i" and ?in = "\<lambda>(k, v). lo \<le> k \<and> k \<le> hi"
  have wf: "btree_wf ?m" using assms by (simp add: index_ok_def)
  have own: "ie_block_height v = k" if "(k, v) \<in> set ?m" for k v
    using that assms by (simp add: btree_mem_get [OF wf] index_ok_def)
  obtain es where es: "index_range i lo hi = Some es" "es = map snd (filter ?in ?m)"
    using False by (auto simp: index_range_def btree_range_def)
  have "map ie_block_height es = map fst (filter ?in ?m)"
    unfolding es(2) map_map by (rule map_cong) (use own in auto)
  moreover have "sorted_wrt (<) (map fst (filter ?in ?m))"
    using wf unfolding btree_wf_def sorted_wrt_map by (rule sorted_wrt_filter)
  moreover have "set es = {e. lo \<le> ie_block_height e \<and> ie_block_height e \<le> hi \<and>
      get_by_height i (ie_block_height e) = Some e}" (is "_ = ?E")
  proof (rule set_eqI)
    fix e
    have "e \<in> set es \<longleftrightarrow> (\<exists>k. lo \<le> k \<and> k \<le> hi \<and> btree_get ?m k = Some e)"
      by (rule btree_range_mem [OF wf es(1) [unfolded index_range_def]])
    also have "\<dots> \<longleftrightarrow> e \<in> ?E"
      using assms unfolding index_ok_def get_by_height_def mem_Collect_eq by metis
    finally show "e \<in> set es \<longleftrightarrow> e \<in> ?E" .
  qed
  ultimately show ?thesis using es(1) False by simp
qed

section \<open>Persistence\<close>

text \<open>
  How a buffered reader splits a file into lines: at every newline, without a carriage return
  before it, and with no line after the last newline.
\<close>

definition strip_cr :: "string \<Rightarrow> string" where
  "strip_cr l = (if l \<noteq> [] \<and> last l = CHR 0x0D then butlast l else l)"

definition file_lines :: "string \<Rightarrow> string list" where
  "file_lines s = map strip_cr (let ls = split_on (CHR 0x0A) s in
     if last ls = [] then butlast ls else ls)"

definition json_ok :: "json_codec \<Rightarrow> bool" where
  "json_ok J \<longleftrightarrow> (\<forall>e. \<exists>t. json_to_string J e = Inr t \<and> json_from_str J t = Inr e \<and> t \<noteq> [] \<and>
     CHR 0x0A \<notin> set t \<and> last t \<noteq> CHR 0x0D)"

definition line_of :: "json_codec \<Rightarrow> index_entry \<Rightarrow> string" where
  "line_of J e = (case json_to_string J e of Inr t \<Rightarrow> t | Inl x \<Rightarrow> x)"

definition file_of :: "json_codec \<Rightarrow> index_entry list \<Rightarrow> string" where
  "file_of J es = concat (map (\<lambda>e. line_of J e @ [CHR 0x0A]) es)"

lemma json_ok_line:
  assumes "json_ok J"
  shows "json_to_string J e = Inr (line_of J e)" "json_from_str J (line_of J e) = Inr e"
    "line_of J e \<noteq> []" "CHR 0x0A \<notin> set (line_of J e)" "strip_cr (line_of J e) = line_of J e"
  using assms [unfolded json_ok_def, rule_format, of e]
  by (auto simp: line_of_def strip_cr_def)

lemma split_file:
  assumes "json_ok J"
  shows "split_on (CHR 0x0A) (file_of J es) = map (line_of J) es @ [[]]"
  by (induction es) (simp_all add: file_of_def split_on_append json_ok_line(4) [OF assms])

lemma file_lines_file_of: "json_ok J \<Longrightarrow> file_lines (file_of J es) = map (line_of J) es"
  by (simp add: file_lines_def split_file json_ok_line(5))

lemma replay_file_of:
  assumes "json_ok J"
  shows "snd (snd (replay_lines J (map (line_of J) es) c x i)) = fold insert_entry es i"
proof (induction es arbitrary: c i)
  case Nil
  then show ?case by simp
next
  case (Cons e es)
  then show ?case
    by (simp add: parse_and_insert_def json_ok_line(2,3) [OF assms])
qed

text \<open>
  A file system on which the index file at \<open>path\<close> works: \<open>content\<close> is what the file holds, if there
  is one. Opening for appending creates it; reading and writing are only promised of a file that
  exists.
\<close>

definition file_text :: "string option \<Rightarrow> string" where
  "file_text c = (case c of None \<Rightarrow> [] | Some t \<Rightarrow> t)"

definition file_works :: "'w file_ops \<Rightarrow> ('w \<Rightarrow> string option) \<Rightarrow> string \<Rightarrow> bool" where
  "file_works F content path \<longleftrightarrow>
     (\<forall>p w. \<exists>w'. fo_create_dir_all F p w = (Inr (), w') \<and> content w' = content w) \<and>
     (\<forall>w. \<exists>w'. fo_exists F path w = (content w \<noteq> None, w') \<and> content w' = content w) \<and>
     (\<forall>w t. content w = Some t \<longrightarrow> (\<exists>w'. fo_open_read F path w = (Inr (), w') \<and> content w' = Some t)) \<and>
     (\<forall>w t. content w = Some t \<longrightarrow>
       (\<exists>w'. fo_lines F path w = ((file_lines t, None), w') \<and> content w' = Some t)) \<and>
     (\<forall>w. \<exists>w'. fo_open_append F path w = (Inr (), w') \<and> content w' = Some (file_text (content w))) \<and>
     (\<forall>s w t. content w = Some t \<longrightarrow>
       (\<exists>w'. fo_write_all F path s w = (Inr (), w') \<and> content w' = Some (t @ s))) \<and>
     (\<forall>w. \<exists>w'. fo_flush F path w = (Inr (), w') \<and> content w' = content w)"

lemma file_worksD:
  assumes "file_works F content path"
  shows "\<exists>w'. fo_create_dir_all F p w = (Inr (), w') \<and> content w' = content w"
    "\<exists>w'. fo_exists F path w = (content w \<noteq> None, w') \<and> content w' = content w"
    "content w = Some t \<Longrightarrow> \<exists>w'. fo_open_read F path w = (Inr (), w') \<and> content w' = Some t"
    "content w = Some t \<Longrightarrow> \<exists>w'. fo_lines F path w = ((file_lines t, None), w') \<and> content w' = Some t"
    "\<exists>w'. fo_open_append F path w = (Inr (), w') \<and> content w' = Some (file_text (content w))"
    "content w = Some t \<Longrightarrow> \<exists>w'. fo_write_all F path s w = (Inr (), w') \<and> content w' = Some (t @ s)"
    "\<exists>w'. fo_flush F path w = (Inr (), w') \<and> content w' = content w"
  using assms unfolding file_works_def by simp_all

lemma insert_entry_fields [simp]:
  "bx_path (insert_entry e i) = bx_path i" "bx_file (insert_entry e i) = bx_file i"
  by (simp_all add: insert_entry_def)

lemma insert_entry_handle: "insert_entry e (i\<lparr>bx_file := b\<rparr>) = (insert_entry e i)\<lparr>bx_file := b\<rparr>"
  by (cases i) (simp add: insert_entry_def)

lemma replay_works:
  assumes F: "file_works F content path" and J: "json_ok J"
    and c: "content w = Some (file_of J es)" and path: "bx_path i = path"
  shows "\<exists>w'. replay F J i w = (Inr (fold insert_entry es i), w') \<and> content w' = content w"
proof -
  obtain w1 where w1: "fo_open_read F path w = (Inr (), w1)" "content w1 = Some (file_of J es)"
    using file_worksD(3) [OF F c] by blast
  obtain w2 where "fo_lines F path w1 = ((map (line_of J) es, None), w2)" "content w2 = Some (file_of J es)"
    using file_worksD(4) [OF F w1(2)] file_lines_file_of [OF J] by metis
  with w1 show ?thesis
    by (simp add: replay_def path Let_def replay_file_of [OF J] c)
qed

text \<open>Opening a file of entries, or no file at all, gives the index of the entries.\<close>

lemma open_works:
  assumes F: "file_works F content path" and J: "json_ok J" and c: "file_text (content w) = file_of J es"
  shows "\<exists>w'. index_open F J path w = (Inr (fold insert_entry es
      \<lparr>bx_path = path, bx_by_height = [], bx_by_hash = Map.empty, bx_file = True\<rparr>), w') \<and>
    content w' = Some (file_of J es)"
proof -
  let ?i = "\<lparr>bx_path = path, bx_by_height = [], bx_by_hash = Map.empty, bx_file = False\<rparr>"
  have handle: "(fold insert_entry es i)\<lparr>bx_file := b\<rparr> = fold insert_entry es (i\<lparr>bx_file := b\<rparr>)" for i b
    by (induction es arbitrary: i) (simp_all add: insert_entry_handle)
  have "\<exists>w1. (case fo_parent F path of None \<Rightarrow> (Inr (), w) | Some p \<Rightarrow> fo_create_dir_all F p w)
      = (Inr (), w1) \<and> content w1 = content w"
    by (cases "fo_parent F path") (simp_all add: file_worksD(1) [OF F])
  then obtain w1 where w1: "(case fo_parent F path of None \<Rightarrow> (Inr (), w) | Some p \<Rightarrow> fo_create_dir_all F p w)
      = (Inr (), w1)" "content w1 = content w" by blast
  obtain w2 where w2: "fo_exists F path w1 = (content w1 \<noteq> None, w2)" "content w2 = content w1"
    using file_worksD(2) [OF F, of w1] by blast
  have "\<exists>w3. (if content w1 \<noteq> None then replay F J ?i w2 else (Inr ?i, w2)) =
      (Inr (fold insert_entry es ?i), w3) \<and> content w3 = content w"
  proof (cases "content w")
    case None
    with c have "es = []" by (cases es) (simp_all add: file_text_def file_of_def)
    with None w1(2) w2(2) show ?thesis by simp
  next
    case (Some t)
    then have "content w2 = Some (file_of J es)" using c w1(2) w2(2) by (simp add: file_text_def)
    from replay_works [OF F J this, of ?i] Some w1(2) w2(2) show ?thesis by auto
  qed
  then obtain w3 where w3: "(if content w1 \<noteq> None then replay F J ?i w2 else (Inr ?i, w2)) =
      (Inr (fold insert_entry es ?i), w3)" "content w3 = content w" by blast
  obtain w4 where w4: "fo_open_append F path w3 = (Inr (), w4)" "content w4 = Some (file_of J es)"
    using file_worksD(5) [OF F, of w3] w3(2) c by auto
  show ?thesis
    using w1(1) w2(1) w3(1) w4 by (simp add: index_open_def Let_def handle)
qed

lemma inserts_work:
  assumes F: "file_works F content path" and J: "json_ok J"
    and "bx_path i = path" "bx_file i" "content w = Some t"
  shows "\<exists>w'. run_inserts F J es i w = ((map (\<lambda>_. Inr ()) es, fold insert_entry es i), w') \<and>
    content w' = Some (t @ file_of J es)"
  using assms(3-)
proof (induction es arbitrary: i w t)
  case Nil
  then show ?case by (simp add: file_of_def)
next
  case (Cons e es)
  obtain w1 where w1: "fo_write_all F path (line_of J e @ [CHR 0x0A]) w = (Inr (), w1)"
      "content w1 = Some (t @ line_of J e @ [CHR 0x0A])"
    using file_worksD(6) [OF F Cons.prems(3)] by blast
  obtain w2 where w2: "fo_flush F path w1 = (Inr (), w2)" "content w2 = content w1"
    using file_worksD(7) [OF F] by blast
  have step: "index_insert F J e i w = ((Inr (), insert_entry e i), w2)"
    using Cons.prems w1 w2 by (simp add: index_insert_def json_ok_line(1) [OF J] Let_def)
  obtain w3 where "run_inserts F J es (insert_entry e i) w2 =
      ((map (\<lambda>_. Inr ()) es, fold insert_entry es (insert_entry e i)), w3)"
      "content w3 = Some ((t @ line_of J e @ [CHR 0x0A]) @ file_of J es)"
    using Cons.IH [of "insert_entry e i" w2] Cons.prems w1 w2 by auto
  with step show ?case by (simp add: file_of_def)
qed

text \<open>
  C30: closing and reopening loses nothing. On a file system that works and with a JSON codec that
  reads back what it wrote on one line, start from no file, an empty one, or one that holds entries
  on complete lines. Opening gives the index of those entries, the opened index takes every
  insertion, and opening the file again yields the same index, latest answers included.
\<close>

theorem index_survives_reopen:
  assumes "file_works F content path" "json_ok J" "file_text (content w) = file_of J es0"
  shows "\<exists>i0 w1 i w2 w3. index_open F J path w = (Inr i0, w1) \<and>
    i0 = fold insert_entry es0
      \<lparr>bx_path = path, bx_by_height = [], bx_by_hash = Map.empty, bx_file = True\<rparr> \<and>
    run_inserts F J es i0 w1 = ((map (\<lambda>_. Inr ()) es, i), w2) \<and>
    index_open F J path w2 = (Inr i, w3)"
proof -
  let ?e = "\<lparr>bx_path = path, bx_by_height = [], bx_by_hash = Map.empty, bx_file = True\<rparr>"
  let ?i0 = "fold insert_entry es0 ?e"
  obtain w1 where w1: "index_open F J path w = (Inr ?i0, w1)" "content w1 = Some (file_of J es0)"
    using open_works [OF assms] by auto
  have fields: "bx_path (fold insert_entry es i) = bx_path i" "bx_file (fold insert_entry es i) = bx_file i"
    for es i by (induction es arbitrary: i) simp_all
  obtain w2 where w2: "run_inserts F J es ?i0 w1 = ((map (\<lambda>_. Inr ()) es, fold insert_entry es ?i0), w2)"
      "content w2 = Some (file_of J es0 @ file_of J es)"
    using inserts_work [OF assms(1,2) _ _ w1(2), of ?i0 es] by (auto simp: fields)
  have "file_text (content w2) = file_of J (es0 @ es)"
    using w2(2) by (simp add: file_text_def file_of_def)
  then obtain w3 where "index_open F J path w2 = (Inr (fold insert_entry es ?i0), w3)"
    using open_works [OF assms(1,2), of w2 "es0 @ es"] by auto
  with w1 w2 show ?thesis by blast
qed

section \<open>A file in memory\<close>

text \<open>
  A file system that is one string, or no file yet, and a codec that writes numbers in unary with
  commas.
\<close>

definition memory_file :: "string option file_ops" where
  "memory_file =
     \<lparr>fo_parent = (\<lambda>p. None),
      fo_create_dir_all = (\<lambda>p c. (Inr (), c)),
      fo_exists = (\<lambda>p c. (c \<noteq> None, c)),
      fo_open_read = (\<lambda>p c. (if c = None then Inl ''not found'' else Inr (), c)),
      fo_lines = (\<lambda>p c. ((file_lines (file_text c), None), c)),
      fo_open_append = (\<lambda>p c. (Inr (), Some (file_text c))),
      fo_write_all = (\<lambda>p s c. (Inr (), Some (file_text c @ s))),
      fo_flush = (\<lambda>p c. (Inr (), c))\<rparr>"

fun unary_text :: "nat list \<Rightarrow> string" where
  "unary_text [] = []"
| "unary_text (n # ns) = CHR '','' # replicate n CHR ''1'' @ unary_text ns"

definition unary_codec :: json_codec where
  "unary_codec =
     \<lparr>json_to_string = (\<lambda>e. Inr (unary_text (unat (ie_block_height e) # unat (ie_block_hash e) #
        unat (ie_celestia_height e) # map unat (ie_commitment e)))),
      json_from_str = (\<lambda>s. case map length (split_on CHR '','' s) of
        _ # h # k # c # bs \<Rightarrow>
          Inr \<lparr>ie_block_height = of_nat h, ie_block_hash = of_nat k, ie_celestia_height = of_nat c,
               ie_commitment = map of_nat bs\<rparr>
      | _ \<Rightarrow> Inl ''malformed'')\<rparr>"

lemma split_unary: "map length (split_on CHR '','' (unary_text ns)) = 0 # ns"
proof (induction ns)
  case Nil
  then show ?case by simp
next
  case (Cons n ns)
  show ?case
  proof (cases ns)
    case Nil
    then show ?thesis by (simp add: split_on_not_in)
  next
    case (Cons m ms)
    with Cons.IH show ?thesis by (simp add: split_on_append)
  qed
qed

lemma unary_chars: "set (unary_text ns) \<subseteq> {CHR '','', CHR ''1''}"
  by (induction ns) auto

lemma json_ok_unary: "json_ok unary_codec"
proof -
  have "CHR 0x0A \<notin> set (unary_text ns)" "ns \<noteq> [] \<Longrightarrow> last (unary_text ns) \<noteq> CHR 0x0D"
      "ns \<noteq> [] \<Longrightarrow> unary_text ns \<noteq> []" for ns
  proof -
    show "CHR 0x0A \<notin> set (unary_text ns)" using unary_chars [of ns] by auto
    show ne: "unary_text ns \<noteq> []" if "ns \<noteq> []" using that by (cases ns) auto
    show "last (unary_text ns) \<noteq> CHR 0x0D" if "ns \<noteq> []"
      using last_in_set [OF ne [OF that]] unary_chars [of ns] by auto
  qed
  then show ?thesis
    by (simp add: json_ok_def unary_codec_def split_unary comp_def del: unary_text.simps)
qed

lemma memory_file_works: "file_works memory_file (\<lambda>c. c) path"
  by (simp add: file_works_def memory_file_def file_text_def)

definition entry_a :: index_entry where
  "entry_a = \<lparr>ie_block_height = 1, ie_block_hash = 5, ie_celestia_height = 100, ie_commitment = [1]\<rparr>"

definition entry_b :: index_entry where
  "entry_b = \<lparr>ie_block_height = 1, ie_block_hash = 6, ie_celestia_height = 101, ie_commitment = [2]\<rparr>"

theorem index_survives_reopen_witness:
  "\<exists>i0 w1 i w2 w3. index_open memory_file unary_codec ''index'' None = (Inr i0, w1) \<and>
    run_inserts memory_file unary_codec [entry_a, entry_b] i0 w1 = (([Inr (), Inr ()], i), w2) \<and>
    index_open memory_file unary_codec ''index'' w2 = (Inr i, w3)"
proof -
  have "file_text None = file_of unary_codec []" by (simp add: file_text_def file_of_def)
  from index_survives_reopen [OF memory_file_works json_ok_unary, of None "[]" "''index''", OF this,
    of "[entry_a, entry_b]"] show ?thesis by auto
qed

definition sample_index :: block_index where
  "sample_index = insert_entry entry_a
     \<lparr>bx_path = ''index'', bx_by_height = [], bx_by_hash = Map.empty, bx_file = True\<rparr>"

lemma sample_index_ok: "index_ok sample_index"
  by (simp add: sample_index_def index_ok_insert)

theorem index_always_ok_witness:
  "\<exists>i0 w1 rs i' w2. index_open memory_file unary_codec ''index'' (Some ''garbage'') = (Inr i0, w1) \<and>
     run_inserts memory_file unary_codec [entry_a, entry_b] i0 w1 = ((rs, i'), w2) \<and> index_ok i'"
proof -
  have "\<exists>i0 w1. index_open memory_file unary_codec ''index'' (Some ''garbage'') = (Inr i0, w1)"
    by (simp add: index_open_def replay_def memory_file_def Let_def)
  then obtain i0 w1 where o: "index_open memory_file unary_codec ''index'' (Some ''garbage'') = (Inr i0, w1)"
    by blast
  obtain rs i' w2 where r: "run_inserts memory_file unary_codec [entry_a, entry_b] i0 w1 = ((rs, i'), w2)"
    by (metis prod.collapse)
  from index_always_ok [OF o r] o r show ?thesis by blast
qed

theorem index_insert_lookups_witness:
  "\<exists>i' w'. index_insert memory_file unary_codec entry_b sample_index (Some []) = ((Inr (), i'), w') \<and>
     get_by_hash i' 5 = Some entry_b \<and> get_by_hash i' 6 = Some entry_b \<and> index_len i' = 1"
proof -
  obtain i' w' where r: "index_insert memory_file unary_codec entry_b sample_index (Some []) = ((Inr (), i'), w')"
    by (simp add: index_insert_def memory_file_def unary_codec_def sample_index_def Let_def)
  from index_insert_lookups [OF sample_index_ok r] r show ?thesis
    by (auto simp: entry_a_def entry_b_def sample_index_def insert_entry_def get_by_height_def
        btree_get_def index_len_def)
qed

theorem index_range_result_witness:
  "case index_range sample_index 0 5 of
      None \<Rightarrow> (5 :: u64) < 0
    | Some es \<Rightarrow> (0 :: u64) \<le> 5 \<and> sorted_wrt (<) (map ie_block_height es) \<and>
        set es = {e. 0 \<le> ie_block_height e \<and> ie_block_height e \<le> 5 \<and>
          get_by_height sample_index (ie_block_height e) = Some e}"
  by (rule index_range_result [OF sample_index_ok])

end
