(* ===== verification/Unit_Tests.thy ===== *)
theory Unit_Tests
  imports Index_Props Startup_Props Celestia_Props Network
begin

text \<open>
  The unit tests of the repository, on the model: each \<open>#[test]\<close> as a bool-valued definition that
  makes the calls and the assertions of the test, and a lemma that it passes. What a test takes from
  outside the repository (key derivation, the file system, serde, SHA-256) is an argument, and the
  lemma states what the test relies on; only the hexadecimal codec is written out.
\<close>

text \<open>\<open>B256::repeat_byte\<close>, and \<open>B256::from([b; 32])\<close>.\<close>

definition repeat_byte :: "nat \<Rightarrow> b256" where
  "repeat_byte b = of_nat (b * ((2 ^ 256 - 1) div 255))"

section \<open>Leader rotation\<close>

definition test_leader_rotation :: bool where
  "test_leader_rotation \<longleftrightarrow>
     leader_index 0 3 = Some 0 \<and> leader_index 1 3 = Some 1 \<and> leader_index 2 3 = Some 2 \<and>
     leader_index 3 3 = Some 0 \<and> leader_index 4 3 = Some 1 \<and> leader_index 5 3 = Some 2 \<and>
     leader_index 6 3 = Some 0"

definition test_leader_rotation_single_validator :: bool where
  "test_leader_rotation_single_validator \<longleftrightarrow>
     leader_index 0 1 = Some 0 \<and> leader_index 1 1 = Some 0 \<and> leader_index 100 1 = Some 0"

definition test_is_leader :: bool where
  "test_is_leader \<longleftrightarrow>
     is_leader 0 0 3 = Some True \<and> is_leader 0 1 3 = Some False \<and> is_leader 0 2 3 = Some False \<and>
     is_leader 0 3 3 = Some True \<and>
     is_leader 1 0 3 = Some False \<and> is_leader 1 1 3 = Some True \<and> is_leader 1 2 3 = Some False \<and>
     is_leader 1 3 3 = Some False \<and> is_leader 1 4 3 = Some True"

definition test_is_leader_two_validators :: bool where
  "test_is_leader_two_validators \<longleftrightarrow>
     is_leader 0 0 2 = Some True \<and> is_leader 1 1 2 = Some True \<and>
     is_leader 0 2 2 = Some True \<and> is_leader 1 3 2 = Some True"

lemma leader_tests_pass:
  "test_leader_rotation" "test_leader_rotation_single_validator" "test_is_leader"
  "test_is_leader_two_validators"
  by (simp_all add: test_leader_rotation_def test_leader_rotation_single_validator_def
      test_is_leader_def test_is_leader_two_validators_def leader_index_def Leader.is_leader_def)

section \<open>Retry\<close>

text \<open>The atomic counter of the tests is their world; sleeping leaves it alone.\<close>

definition test_with_retry_succeeds_first_try :: "nat host \<Rightarrow> bool" where
  "test_with_retry_succeeds_first_try H \<longleftrightarrow>
     fst (with_retry H ''test op'' 3 10 (\<lambda>attempts. (Inr (42 :: nat), attempts)) 0) = Inr 42"

definition test_with_retry_succeeds_after_failures :: "nat host \<Rightarrow> bool" where
  "test_with_retry_succeeds_after_failures H \<longleftrightarrow>
     with_retry H ''test op'' 3 10
       (\<lambda>attempts. (if attempts < 2 then Inl ''temporary failure'' else Inr (42 :: nat), attempts + 1)) 0 =
       (Inr 42, 3)"

definition test_with_retry_fails_after_max_retries :: "nat host \<Rightarrow> bool" where
  "test_with_retry_fails_after_max_retries H \<longleftrightarrow>
     (let (result, attempts) = with_retry H ''test op'' 3 10
            (\<lambda>attempts. (Inl ''permanent failure'' :: string + nat, attempts + 1)) 0
      in attempts = 3 \<and>
        (case result of
           Inl (Cel_SubmissionFailed e) \<Rightarrow> starts_with e ''test op failed after 3 attempts''
         | _ \<Rightarrow> False))"

lemma retry_tests_pass:
  assumes "\<And>d w. sleep_ms H d w = w"
  shows "test_with_retry_succeeds_first_try H" "test_with_retry_succeeds_after_failures H"
    "test_with_retry_fails_after_max_retries H"
proof -
  have "show_nat 3 = ''3''" by code_simp
  then show "test_with_retry_succeeds_first_try H" "test_with_retry_succeeds_after_failures H"
    "test_with_retry_fails_after_max_retries H"
    by (simp_all add: test_with_retry_succeeds_first_try_def test_with_retry_succeeds_after_failures_def
        test_with_retry_fails_after_max_retries_def with_retry_def with_retry_loop.simps assms
        retry_error_def starts_with_def word_le_nat_alt)
qed

section \<open>The finality tracker\<close>

definition test_track_and_finalize :: "((b256 \<rightharpoonup> pending_finality) \<Rightarrow> b256 list) \<Rightarrow> nat \<Rightarrow> bool" where
  "test_track_and_finalize order now \<longleftrightarrow>
     (let submission = \<lparr>bs_block_hash = 0, bs_block_height = 1, bs_celestia_height = 100,
            bs_commitment = [1, 2, 3]\<rparr>;
          tracker = track now submission tracker_new;
          (confirmations99, tracker99) = on_celestia_finality order now 99 0 tracker;
          (confirmations100, tracker100) = on_celestia_finality order now 100 0 tracker99
      in pending_count order tracker = 1 \<and>
        confirmations99 = [] \<and> pending_count order tracker99 = 1 \<and>
        length confirmations100 = 1 \<and> pending_count order tracker100 = 0)"

lemma track_and_finalize_passes:
  assumes "key_order order"
  shows "test_track_and_finalize order now"
proof -
  have keys: "distinct (order m) \<and> set (order m) = dom m" if "finite (dom m)"
    for m :: "b256 \<rightharpoonup> pending_finality" using assms that by (simp add: key_order_def)
  have single: "xs = [x]" if "distinct xs" "set xs = {x}" for xs and x :: b256
    using that by (cases xs; cases "tl xs") auto
  have "order Map.empty = []" "order [0 \<mapsto> p] = [0]" for p
    using keys [of Map.empty] keys [of "[0 \<mapsto> p]"] by (simp, intro single) simp_all
  then show ?thesis
    by (simp add: test_track_and_finalize_def track_def tracker_new_def on_celestia_finality_def
        pending_count_def Let_def)
qed

section \<open>The block index\<close>

definition test_index_operations :: "'w file_ops \<Rightarrow> json_codec \<Rightarrow> string \<Rightarrow> 'w \<Rightarrow> bool" where
  "test_index_operations F J path w \<longleftrightarrow>
     (let entry = \<lparr>ie_block_height = 1, ie_block_hash = repeat_byte 1, ie_celestia_height = 100,
            ie_commitment = [1, 2, 3]\<rparr>
      in case index_open F J path w of
        (Inl e, w1) \<Rightarrow> False
      | (Inr index, w1) \<Rightarrow>
          index_is_empty index \<and>
          (case index_insert F J entry index w1 of
             ((Inl e, index), w2) \<Rightarrow> False
           | ((Inr _, index), w2) \<Rightarrow>
               index_len index = 1 \<and> latest_height index = Some 1 \<and>
               get_by_height index 1 \<noteq> None \<and> get_by_hash index (repeat_byte 1) \<noteq> None \<and>
               (case index_open F J path w2 of
                  (Inl e, w3) \<Rightarrow> False
                | (Inr index, w3) \<Rightarrow>
                    index_len index = 1 \<and> latest_height index = Some 1 \<and>
                    map_option ie_celestia_height (get_by_height index 1) = Some 100)))"

lemma index_operations_passes:
  assumes F: "file_works F content path" and J: "json_ok J" and "content w = None"
  shows "test_index_operations F J path w"
proof -
  let ?e = "\<lparr>ie_block_height = 1, ie_block_hash = repeat_byte 1, ie_celestia_height = 100,
    ie_commitment = [1, 2, 3]\<rparr> :: index_entry"
  let ?i = "\<lparr>bx_path = path, bx_by_height = [], bx_by_hash = Map.empty, bx_file = True\<rparr>"
  have "file_text (content w) = file_of J []" using assms(3) by (simp add: file_text_def file_of_def)
  from open_works [OF F J this] obtain w1 where
    w1: "index_open F J path w = (Inr ?i, w1)" "content w1 = Some []" by (auto simp: file_of_def)
  from inserts_work [OF F J, of ?i w1 "[]" "[?e]"] obtain w2 where
    w2: "run_inserts F J [?e] ?i w1 = (([Inr ()], insert_entry ?e ?i), w2)" "content w2 = Some (file_of J [?e])"
    using w1(2) by auto
  from w2(1) have insert: "index_insert F J ?e ?i w1 = ((Inr (), insert_entry ?e ?i), w2)"
    by (auto split: prod.splits)
  from w2(2) have "file_text (content w2) = file_of J [?e]" by (simp add: file_text_def)
  from open_works [OF F J this] obtain w3 where
    "index_open F J path w2 = (Inr (insert_entry ?e ?i), w3)" by auto
  with w1(1) insert show ?thesis
    by (simp add: test_index_operations_def index_is_empty_def insert_entry_def index_len_def
        latest_height_def btree_last_key_def get_by_height_def get_by_hash_def btree_get_def)
qed

section \<open>The network configuration\<close>

definition test_local_config ::
  "('sk, 'pk, 'addr, 'ing, 'c) p2p_api \<Rightarrow> (u64 \<Rightarrow> 'sk) \<Rightarrow> bool" where
  "test_local_config N from_seed \<longleftrightarrow>
     (let cfg = network_local N (from_seed 0) (string_bytes ''test'') 26656 []
      in nc_allow_private_ips cfg \<and> nc_max_message_size cfg = 1024 * 1024)"

definition test_production_config :: "(u64 \<Rightarrow> 'sk) \<Rightarrow> 'addr \<Rightarrow> 'addr \<Rightarrow> bool" where
  "test_production_config from_seed listen dialable \<longleftrightarrow>
     \<not> nc_allow_private_ips (network_production (from_seed 0) (string_bytes ''test'') listen dialable
       ([] :: (bytes \<times> 'addr) list))"

lemma network_tests_pass: "test_local_config N from_seed" "test_production_config from_seed listen dialable"
  by (simp_all add: test_local_config_def test_production_config_def network_local_def
      network_production_def Let_def)

section \<open>Hexadecimal\<close>

text \<open>The codec of crate \<open>hex\<close>: two digits a byte, both cases read, lower case written.\<close>

fun hex_encode :: "bytes \<Rightarrow> string" where
  "hex_encode [] = []"
| "hex_encode (b # bs) =
     ''0123456789abcdef'' ! (unat b div 16) # ''0123456789abcdef'' ! (unat b mod 16) # hex_encode bs"

definition hex_byte :: "char \<Rightarrow> char \<Rightarrow> u8 option" where
  "hex_byte c d =
     (case (digit_val c, digit_val d) of
        (Some h, Some l) \<Rightarrow> if h < 16 \<and> l < 16 then Some (of_nat (h * 16 + l)) else None
      | _ \<Rightarrow> None)"

fun hex_decode :: "string \<Rightarrow> string + bytes" where
  "hex_decode [] = Inr []"
| "hex_decode [c] = Inl ''Odd number of digits''"
| "hex_decode (c # d # s) =
     (case hex_byte c d of
        None \<Rightarrow> Inl ''Invalid character''
      | Some b \<Rightarrow> map_sum id ((#) b) (hex_decode s))"

lemma hex_decode_digits:
  "\<forall>c \<in> set s. \<exists>n < 16. digit_val c = Some n \<Longrightarrow> even (length s) \<Longrightarrow>
     \<exists>bs. hex_decode s = Inr bs \<and> length bs = length s div 2"
  by (induction s rule: hex_decode.induct) (force simp: hex_byte_def)+

text \<open>serde's JSON around the one string field adds nothing of the repository.\<close>

definition test_hex_fixed_roundtrip :: bool where
  "test_hex_fixed_roundtrip \<longleftrightarrow>
     (let original = [0xde, 0xad, 0xbe, 0xef]; json = hex_fixed_serialize hex_encode original
      in json = ''deadbeef'' \<and> hex_fixed_deserialize hex_decode 4 json = Inr original)"

definition test_hex_fixed_wrong_length :: bool where
  "test_hex_fixed_wrong_length \<longleftrightarrow>
     (case hex_fixed_deserialize hex_decode 4 ''deadbe'' of
        Inl e \<Rightarrow> starts_with e ''expected 4 bytes''
      | Inr _ \<Rightarrow> False)"

definition test_hex_vec_roundtrip :: bool where
  "test_hex_vec_roundtrip \<longleftrightarrow>
     (let original = [0xca, 0xfe, 0xba, 0xbe]; json = hex_vec_serialize hex_encode original
      in json = ''cafebabe'' \<and> hex_vec_deserialize hex_decode json = Inr original)"

definition test_hex_vec_empty :: bool where
  "test_hex_vec_empty \<longleftrightarrow>
     (let json = hex_vec_serialize hex_encode []
      in json = [] \<and> hex_vec_deserialize hex_decode json = Inr [])"

definition test_hex_invalid :: bool where
  "test_hex_invalid \<longleftrightarrow>
     (case hex_vec_deserialize hex_decode ''not_hex'' of Inl e \<Rightarrow> True | Inr bs \<Rightarrow> False)"

lemma hex_tests_pass:
  "test_hex_fixed_roundtrip" "test_hex_fixed_wrong_length" "test_hex_vec_roundtrip"
  "test_hex_vec_empty" "test_hex_invalid"
  unfolding test_hex_invalid_def
  by (code_simp, code_simp, code_simp, code_simp) (simp add: hex_vec_deserialize_def hex_byte_def digit_val_def)

section \<open>JWT\<close>

definition jwt_test_secret :: string where
  "jwt_test_secret = ''0123456789abcdef0123456789abcdef0123456789abcdef0123456789abcdef''"

definition test_build_token :: "(bytes \<Rightarrow> bytes) \<Rightarrow> u64 option \<Rightarrow> bool" where
  "test_build_token sha256 now \<longleftrightarrow>
     (case build_token sha256 hex_decode now
         jwt_test_secret of
        Some (Inr token) \<Rightarrow> length (split_on CHR ''.'' token) = 3
      | _ \<Rightarrow> False)"

definition test_build_token_with_0x_prefix :: "(bytes \<Rightarrow> bytes) \<Rightarrow> u64 option \<Rightarrow> bool" where
  "test_build_token_with_0x_prefix sha256 now \<longleftrightarrow>
     (case build_token sha256 hex_decode now (''0x'' @ jwt_test_secret) of
        Some (Inr token) \<Rightarrow> True
      | _ \<Rightarrow> False)"

definition test_build_token_invalid_length :: "(bytes \<Rightarrow> bytes) \<Rightarrow> u64 option \<Rightarrow> bool" where
  "test_build_token_invalid_length sha256 now \<longleftrightarrow>
     (case build_token sha256 hex_decode now ''0123456789abcdef'' of
        Some (Inl e) \<Rightarrow> starts_with (drop (length ''JWT secret '') e) ''must be 32 bytes''
      | _ \<Rightarrow> False)"

definition test_build_token_invalid_hex :: "(bytes \<Rightarrow> bytes) \<Rightarrow> u64 option \<Rightarrow> bool" where
  "test_build_token_invalid_hex sha256 now \<longleftrightarrow>
     (case build_token sha256 hex_decode now ''not_valid_hex_0123456789abcdef0123456789abcdef0123456789'' of
        Some (Inl e) \<Rightarrow> starts_with e ''invalid hex''
      | _ \<Rightarrow> False)"

definition test_base64url_encode :: bool where
  "test_base64url_encode \<longleftrightarrow>
     base64url_encode (string_bytes ''hello'') = Some ''aGVsbG8'' \<and> base64url_encode [] = Some []"

text \<open>The secret of the tests decodes to 32 bytes.\<close>

lemma test_secret: "\<exists>key. hex_decode jwt_test_secret = Inr key \<and> length key = 32"
proof -
  have "\<forall>c \<in> set ''0123456789abcdef''. \<exists>n < 16. digit_val c = Some n"
    by (simp add: digit_val_def)
  then have "\<forall>c \<in> set jwt_test_secret. \<exists>n < 16. digit_val c = Some n"
    by (simp add: jwt_test_secret_def)
  moreover have "length jwt_test_secret = 64" by (simp add: jwt_test_secret_def)
  ultimately show ?thesis using hex_decode_digits [of jwt_test_secret] by simp
qed

lemma jwt_tests_pass:
  "test_build_token sha256 now" "test_build_token_with_0x_prefix sha256 now"
  "test_build_token_invalid_length sha256 now" "test_build_token_invalid_hex sha256 now"
  "test_base64url_encode"
proof -
  obtain key where key: "hex_decode jwt_test_secret = Inr key"
      "length key = 32" using test_secret by blast
  have trimmed: "trim_start_0x jwt_test_secret = jwt_test_secret" by (simp add: jwt_test_secret_def)
  then have secret: "trim_start_0x jwt_test_secret = jwt_test_secret"
      "trim_start_0x (''0x'' @ jwt_test_secret) = jwt_test_secret" by simp_all
  obtain token where token: "build_token sha256 hex_decode now jwt_test_secret = Some (Inr token)"
    using key build_token_Ok_iff [of sha256 hex_decode now jwt_test_secret] by (auto simp: secret)
  then obtain h p s where "base64url_encode (string_bytes jwt_header) = Some h"
      "base64url_encode (string_bytes (jwt_payload (case now of Some d \<Rightarrow> d | None \<Rightarrow> 0))) = Some p"
      "base64url_encode (hmac_sha256 sha256 key (string_bytes (h @ ''.'' @ p))) = Some s"
      "token = (h @ ''.'' @ p) @ ''.'' @ s"
    unfolding build_token_def secret key(1) Let_def by (auto simp: bind_eq_Some_conv split: if_splits)
  then have "split_on CHR ''.'' token = [h, p, s]"
    using split_token base64url_no_dot by metis
  with token show "test_build_token sha256 now" by (simp only: test_build_token_def option.case sum.case) simp
  show "test_build_token_with_0x_prefix sha256 now"
    using key build_token_Ok_iff [of sha256 hex_decode now "''0x'' @ jwt_test_secret"]
    by (auto simp: test_build_token_with_0x_prefix_def secret)
  show "test_build_token_invalid_length sha256 now" "test_build_token_invalid_hex sha256 now"
    by (simp_all add: test_build_token_invalid_length_def test_build_token_invalid_hex_def build_token_def
        hex_byte_def digit_val_def starts_with_def)
  show test_base64url_encode
    by (simp add: test_base64url_encode_def base64url_encode_groups string_bytes_def alphabet_def)
qed

section \<open>The forkchoice\<close>

definition test_forkchoice_updates :: bool where
  "test_forkchoice_updates \<longleftrightarrow>
     (let genesis_hash = repeat_byte 0; block1 = repeat_byte 1; block2 = repeat_byte 2;
          state = fc_genesis genesis_hash;
          state1 = with_soft state block1;
          state2 = with_soft state1 block2;
          state3 = with_firm state2 block1
      in fc_head state = genesis_hash \<and> fc_finalized state = genesis_hash \<and>
        fc_head state1 = block1 \<and> fc_safe state1 = block1 \<and> fc_finalized state1 = genesis_hash \<and>
        fc_head state2 = block2 \<and> fc_finalized state2 = genesis_hash \<and>
        fc_head state3 = block2 \<and> fc_finalized state3 = block1)"

lemma forkchoice_updates_passes: test_forkchoice_updates
  by (simp add: test_forkchoice_updates_def Let_def)

section \<open>Blocks on Celestia\<close>

definition test_block_encoding_roundtrip :: "('w, 'b, 'h) da_env \<Rightarrow> bool" where
  "test_block_encoding_roundtrip E \<longleftrightarrow>
     (let header = \<lparr>hdr_height = 42, hdr_timestamp = 1234567890, hdr_parent_hash = 0, hdr_proposer = 0\<rparr>;
          b = test_block header []
      in case encode_block E b of
        Inl e \<Rightarrow> False
      | Inr encoded \<Rightarrow>
          (case decode_block E encoded of
             Inl e \<Rightarrow> False
           | Inr decoded \<Rightarrow>
               block_height b = block_height decoded \<and> blk_block_hash b = blk_block_hash decoded))"

lemma block_encoding_roundtrip_passes:
  assumes "\<And>b. \<exists>data. da_encode E b = Inr data \<and> da_decode E data = Inr b"
  shows "test_block_encoding_roundtrip E"
proof -
  let ?b = "test_block \<lparr>hdr_height = 42, hdr_timestamp = 1234567890, hdr_parent_hash = 0, hdr_proposer = 0\<rparr> []"
  from assms [of ?b] show ?thesis
    by (auto simp: test_block_encoding_roundtrip_def encode_block_def decode_block_def)
qed

section \<open>The sequencer\<close>

definition test_parse_bootstrappers ::
  "('sk, 'pk) key_api \<Rightarrow> ('w, 'addr) addr_api \<Rightarrow> 'w \<Rightarrow> bool" where
  "test_parse_bootstrappers K A w \<longleftrightarrow>
     (case parse_bootstrappers K A [''1@127.0.0.1:26656'', ''2@127.0.0.1:26657''] w of
        (Inr bootstrappers, w') \<Rightarrow>
          length bootstrappers = 2 \<and>
          fst (bootstrappers ! 0) = ka_public K (ka_from_seed K 1) \<and>
          fst (bootstrappers ! 1) = ka_public K (ka_from_seed K 2) \<and>
          aa_parse A ''127.0.0.1:26656'' = Inr (snd (bootstrappers ! 0)) \<and>
          aa_parse A ''127.0.0.1:26657'' = Inr (snd (bootstrappers ! 1))
      | (Inl e, w') \<Rightarrow> False)"

definition test_parse_invalid_peer_format ::
  "('sk, 'pk) key_api \<Rightarrow> ('w, 'addr) addr_api \<Rightarrow> 'w \<Rightarrow> bool" where
  "test_parse_invalid_peer_format K A w \<longleftrightarrow>
     (case parse_bootstrappers K A [''invalid_peer''] w of (Inl e, w') \<Rightarrow> True | (Inr ps, w') \<Rightarrow> False)"

definition test_estimate_block_size :: bool where
  "test_estimate_block_size \<longleftrightarrow>
     (let header = \<lparr>hdr_height = 1, hdr_timestamp = 0, hdr_parent_hash = 0, hdr_proposer = 0\<rparr>;
          sz = estimate_block_size (test_block header [])
      in 0 < sz \<and> sz < 1000)"

lemma sequencer_tests_pass:
  assumes "aa_parse A ''127.0.0.1:26656'' = Inr a" "aa_parse A ''127.0.0.1:26657'' = Inr b"
  shows "test_parse_bootstrappers K A w" "test_parse_invalid_peer_format K A w" test_estimate_block_size
  using assms
  by (simp_all add: test_parse_bootstrappers_def test_parse_invalid_peer_format_def parse_peer_def
      resolve_address_def context_err_def parse_u64_def digit_val_def test_estimate_block_size_def
      estimate_block_size_def test_block_def Let_def)

section \<open>The runtime configuration\<close>

definition test_config ::
  "('sk, 'pk) key_api \<Rightarrow> (string \<Rightarrow> 'addr) \<Rightarrow> string \<Rightarrow> ('sk, 'pk, 'addr) simplex_config" where
  "test_config K parse temp_dir =
     (let key = ka_from_seed K 0; pubkey = ka_public K key in
      \<lparr>sc_private_key = key, sc_validators = [pubkey], sc_our_address = 0,
       sc_namespace = string_bytes ''test'', sc_epoch = 1, sc_listen_addr = parse ''127.0.0.1:26656'',
       sc_dialable_addr = parse ''127.0.0.1:26656'', sc_bootstrappers = [],
       sc_storage_dir = temp_dir @ ''/test_consensus'', sc_leader_timeout_ms = 2000,
       sc_notarization_timeout_ms = 3000, sc_nullify_retry_ms = 10000, sc_activity_timeout = 100,
       sc_skip_timeout = 50, sc_fetch_timeout_ms = 5000, sc_mailbox_size = 1024,
       sc_allow_private_ips = True, sc_max_message_size = 1024 * 1024, sc_initial_hash = 0,
       sc_block_timing = Vanilla\<rparr>)"

definition test_is_validator :: "('sk, 'pk) key_api \<Rightarrow> (string \<Rightarrow> 'addr) \<Rightarrow> string \<Rightarrow> bool" where
  "test_is_validator K parse temp_dir \<longleftrightarrow> is_validator (ka_public K) (test_config K parse temp_dir)"

definition test_validator_index :: "('sk, 'pk) key_api \<Rightarrow> (string \<Rightarrow> 'addr) \<Rightarrow> string \<Rightarrow> bool" where
  "test_validator_index K parse temp_dir \<longleftrightarrow>
     validator_index (ka_public K) (test_config K parse temp_dir) = Some 0"

definition test_not_validator :: "('sk, 'pk) key_api \<Rightarrow> (string \<Rightarrow> 'addr) \<Rightarrow> string \<Rightarrow> bool" where
  "test_not_validator K parse temp_dir \<longleftrightarrow>
     (let other_key = ka_from_seed K 999;
          config = (test_config K parse temp_dir)\<lparr>sc_validators := [ka_public K other_key]\<rparr>
      in \<not> is_validator (ka_public K) config \<and> validator_index (ka_public K) config = None)"

lemma runtime_tests_pass:
  assumes "ka_public K (ka_from_seed K 0) \<noteq> ka_public K (ka_from_seed K 999)"
  shows "test_is_validator K parse temp_dir" "test_validator_index K parse temp_dir"
    "test_not_validator K parse temp_dir"
  using assms
  by (auto simp: test_is_validator_def test_validator_index_def test_not_validator_def test_config_def
      is_validator_def validator_index_def Let_def)

section \<open>The Engine API client\<close>

definition test_empty_url_fails :: "libs \<Rightarrow> 'x host \<Rightarrow> 'x \<Rightarrow> bool" where
  "test_empty_url_fails L H x \<longleftrightarrow>
     (case exec_client_new L H [] ''/tmp/jwt.hex'' x of Some (Inl e, x') \<Rightarrow> True | _ \<Rightarrow> False)"

lemma empty_url_fails_passes: "test_empty_url_fails L H x"
  by (simp add: test_empty_url_fails_def exec_client_new_def)

end
