(* ===== verification/Node_Race.thy ===== *)
theory Node_Race
  imports Node_Props
begin

text \<open>
  The forkchoice under concurrency. Three tasks of a node send reth forkchoice updates: the application,
  which applies finalized payloads and asks reth to build blocks (crates/consensus,
  \<open>src/application.rs\<close>), the finalization callback and the event loop (crates/sequencer,
  \<open>src/simplex_sequencer.rs\<close>), all through the client (crates/execution, \<open>src/client.rs\<close>). The
  application starts from the forkchoice that the client has cached, the other two from the sequencer's.
  Each reads it under a lock that it gives back, sends the changed one to reth, the client caches it when
  the response comes, and the callback and the event loop then store it in the sequencer's state;
  between any two of these steps the other tasks may run. The steps of a task are an inductive relation,
  and \<open>race_step\<close> is their union. reth may take or refuse every request, and a response may be lost
  after reth took the request. Blocks are their hashes, and the node starts without a sync.
\<close>

section \<open>States\<close>

datatype task = T_App | T_Finalize | T_Confirm

text \<open>
  What an update is for: a payload that the application applies, with the block that it reports as final
  afterwards (their hashes agree unless a relayed block was not honest), a block that was executed, or
  a block that Celestia has finalized.
\<close>

datatype update = Apply b256 b256 | Execute b256 | Confirm b256

fun target :: "update \<Rightarrow> forkchoice_state \<Rightarrow> forkchoice_state" where
  "target (Apply p b) s = with_soft s p"
| "target (Execute h) s = with_soft s h"
| "target (Confirm h) s = with_firm s h"

datatype pc =
    Idle
  | Reading update
  | Sending forkchoice_state update
  | Caching forkchoice_state update
  | Storing forkchoice_state update
  | Reporting b256
  | Asking
  | Building forkchoice_state
  | Tracking b256

text \<open>
  \<open>rc_reth\<close> is the forkchoice that reth took last, \<open>rc_given\<close> are the blocks that reth was given and
  did not call invalid (it may have answered \<open>SYNCING\<close> or \<open>ACCEPTED\<close>), \<open>rc_valid\<close> those that the callback
  executed and reth called valid, \<open>rc_executed\<close> the sequencer's set. \<open>rc_final\<close> are the blocks that the
  application has reported as final, of which the callback has taken \<open>rc_read\<close>, and \<open>rc_last\<close> is the
  application's last hash.
\<close>

record race =
  rc_reth :: forkchoice_state
  rc_cache :: forkchoice_state
  rc_sequencer :: forkchoice_state
  rc_given :: "b256 set"
  rc_valid :: "b256 set"
  rc_executed :: "b256 set"
  rc_final :: "b256 list"
  rc_read :: nat
  rc_last :: b256
  rc_task :: "task \<Rightarrow> pc"

text \<open>At rest, with reth, cache and sequencer on the same forkchoice.\<close>

definition settled ::
  "forkchoice_state \<Rightarrow> b256 set \<Rightarrow> b256 set \<Rightarrow> b256 set \<Rightarrow> b256 list \<Rightarrow> b256 \<Rightarrow> race" where
  "settled f G V X bs l = \<lparr>rc_reth = f, rc_cache = f, rc_sequencer = f, rc_given = G, rc_valid = V,
     rc_executed = X, rc_final = bs, rc_read = length bs, rc_last = l, rc_task = (\<lambda>t. Idle)\<rparr>"

definition race_start :: "b256 \<Rightarrow> race" where
  "race_start g = settled (fc_genesis g) {} {} {} [] g"

definition goto :: "task \<Rightarrow> pc \<Rightarrow> race \<Rightarrow> race" where
  "goto t p s = s\<lparr>rc_task := (rc_task s)(t := p)\<rparr>"

section \<open>Steps\<close>

text \<open>The forkchoice a task starts from.\<close>

definition read_by :: "task \<Rightarrow> race \<Rightarrow> forkchoice_state" where
  "read_by t s = (if t = T_App then rc_cache s else rc_sequencer s)"

text \<open>
  Where a task goes on when its request failed, when the client has cached the forkchoice, and when
  the sequencer has stored it. The application reports its block in every case.
\<close>

fun after_failure :: "update \<Rightarrow> pc" where
  "after_failure (Apply p b) = Reporting b"
| "after_failure u = Idle"

fun after_cache :: "forkchoice_state \<Rightarrow> update \<Rightarrow> pc" where
  "after_cache f (Apply p b) = Reporting b"
| "after_cache f u = Storing f u"

fun after_store :: "update \<Rightarrow> pc" where
  "after_store (Execute h) = Tracking h"
| "after_store u = Idle"

text \<open>\<open>update_forkchoice\<close>, from the reading of the current forkchoice to the storing of the new one.\<close>

inductive update_step :: "task \<Rightarrow> race \<Rightarrow> race \<Rightarrow> bool" for t :: task where
  read: "rc_task s t = Reading u \<Longrightarrow>
    update_step t s (goto t (Sending (target u (read_by t s)) u) s)"
| accepted: "rc_task s t = Sending f u \<Longrightarrow>
    update_step t s (goto t (Caching f u) (s\<lparr>rc_reth := f\<rparr>))"
| refused: "rc_task s t = Sending f u \<Longrightarrow> update_step t s (goto t (after_failure u) s)"
| response_lost: "rc_task s t = Sending f u \<Longrightarrow>
    update_step t s (goto t (after_failure u) (s\<lparr>rc_reth := f\<rparr>))"
| cached: "rc_task s t = Caching f u \<Longrightarrow>
    update_step t s (goto t (after_cache f u) (s\<lparr>rc_cache := f\<rparr>))"
| stored: "rc_task s t = Storing f u \<Longrightarrow>
    update_step t s (goto t (after_store u) (s\<lparr>rc_sequencer := f\<rparr>))"

text \<open>
  The application. It imports relayed payloads. It finalizes a block: there may be no payload to apply,
  reth may refuse it, the response may be lost, or reth takes it and the forkchoice is updated; whatever
  happened, it then reports the block.
\<close>

inductive relay_step :: "race \<Rightarrow> race \<Rightarrow> bool" where
  imported: "rc_task s T_App = Idle \<Longrightarrow> relay_step s (s\<lparr>rc_given := insert p (rc_given s)\<rparr>)"

inductive finalize_step :: "race \<Rightarrow> race \<Rightarrow> bool" where
  not_applied: "rc_task s T_App = Idle \<Longrightarrow> finalize_step s (goto T_App (Reporting b) s)"
| payload_lost: "rc_task s T_App = Idle \<Longrightarrow>
    finalize_step s (goto T_App (Reporting b) (s\<lparr>rc_given := insert p (rc_given s)\<rparr>))"
| payload_taken: "rc_task s T_App = Idle \<Longrightarrow>
    finalize_step s (goto T_App (Reading (Apply p b)) (s\<lparr>rc_given := insert p (rc_given s)\<rparr>))"
| reported: "rc_task s T_App = Reporting b \<Longrightarrow>
    finalize_step s (goto T_App Idle (s\<lparr>rc_final := rc_final s @ [b], rc_last := b\<rparr>))"

text \<open>
  And it asks reth for a block: on its last hash, when reth has answered that this is its head, which
  is genesis or a block that it was given; the request carries the cached finalized block, and its
  answer changes no cache.
\<close>

inductive build_step :: "b256 \<Rightarrow> race \<Rightarrow> race \<Rightarrow> bool" for g :: b256 where
  synced: "rc_task s T_App = Idle \<Longrightarrow> rc_last s \<in> insert g (rc_given s \<union> rc_valid s) \<Longrightarrow>
    build_step g s (goto T_App Asking s)"
| asked: "rc_task s T_App = Asking \<Longrightarrow>
    build_step g s (goto T_App (Building \<lparr>fc_head = rc_last s, fc_safe = rc_last s,
      fc_finalized = fc_finalized (rc_cache s)\<rparr>) s)"
| building: "rc_task s T_App = Building f \<Longrightarrow>
    build_step g s (goto T_App Idle (s\<lparr>rc_reth := f\<rparr>))"
| not_building: "rc_task s T_App = Building f \<Longrightarrow> build_step g s (goto T_App Idle s)"

text \<open>
  The finalization callback takes the blocks that the application reported, in their order. It updates
  the forkchoice for a block that reth calls valid, and the block then counts as executed; any other
  answer ends its work on the block, which reth may keep all the same.
\<close>

inductive callback_step :: "race \<Rightarrow> race \<Rightarrow> bool" where
  executed: "rc_task s T_Finalize = Idle \<Longrightarrow> rc_read s < length (rc_final s) \<Longrightarrow>
    h = rc_final s ! rc_read s \<Longrightarrow>
    callback_step s (goto T_Finalize (Reading (Execute h))
      (s\<lparr>rc_read := Suc (rc_read s), rc_valid := insert h (rc_valid s)\<rparr>))"
| failed: "rc_task s T_Finalize = Idle \<Longrightarrow> rc_read s < length (rc_final s) \<Longrightarrow>
    callback_step s (s\<lparr>rc_read := Suc (rc_read s)\<rparr>)"
| undecided: "rc_task s T_Finalize = Idle \<Longrightarrow> rc_read s < length (rc_final s) \<Longrightarrow>
    callback_step s (s\<lparr>rc_read := Suc (rc_read s),
      rc_given := insert (rc_final s ! rc_read s) (rc_given s)\<rparr>)"
| tracked: "rc_task s T_Finalize = Tracking h \<Longrightarrow>
    callback_step s (goto T_Finalize Idle (s\<lparr>rc_executed := insert h (rc_executed s)\<rparr>))"

text \<open>The event loop follows a confirmation of a block that counts as executed.\<close>

inductive confirm_step :: "race \<Rightarrow> race \<Rightarrow> bool" where
  confirmed: "rc_task s T_Confirm = Idle \<Longrightarrow> h \<in> rc_executed s \<Longrightarrow>
    confirm_step s (goto T_Confirm (Reading (Confirm h)) s)"

inductive race_step :: "b256 \<Rightarrow> race \<Rightarrow> race \<Rightarrow> bool" for g :: b256 where
  update: "update_step t s s' \<Longrightarrow> race_step g s s'"
| relay: "relay_step s s' \<Longrightarrow> race_step g s s'"
| finalizing: "finalize_step s s' \<Longrightarrow> race_step g s s'"
| proposing: "build_step g s s' \<Longrightarrow> race_step g s s'"
| callback: "callback_step s s' \<Longrightarrow> race_step g s s'"
| event_loop: "confirm_step s s' \<Longrightarrow> race_step g s s'"

abbreviation race_reachable :: "b256 \<Rightarrow> race \<Rightarrow> bool" where
  "race_reachable g s \<equiv> (race_step g)\<^sup>*\<^sup>* (race_start g) s"

definition quiescent :: "race \<Rightarrow> bool" where
  "quiescent s \<longleftrightarrow> (\<forall>t. rc_task s t = Idle)"

lemma goto_simps [simp]:
  "rc_reth (goto t p s) = rc_reth s" "rc_cache (goto t p s) = rc_cache s"
  "rc_sequencer (goto t p s) = rc_sequencer s" "rc_given (goto t p s) = rc_given s"
  "rc_valid (goto t p s) = rc_valid s" "rc_executed (goto t p s) = rc_executed s"
  "rc_final (goto t p s) = rc_final s" "rc_read (goto t p s) = rc_read s" "rc_last (goto t p s) = rc_last s"
  "rc_task (goto t p s) u = (if u = t then p else rc_task s u)"
  by (simp_all add: goto_def)

section \<open>The invariant of all interleavings\<close>

text \<open>
  \<open>K\<close> are the blocks that reth was given or called valid, \<open>V\<close> the valid ones and \<open>X\<close> the executed ones,
  each with genesis. The application moves heads in \<open>K\<close>, the other two tasks in \<open>V\<close>.
\<close>

definition fc_sound :: "b256 set \<Rightarrow> b256 set \<Rightarrow> forkchoice_state \<Rightarrow> bool" where
  "fc_sound K X f \<longleftrightarrow> head_is_safe f \<and> fc_head f \<in> K \<and> fc_finalized f \<in> X"

fun update_ok :: "task \<Rightarrow> b256 set \<Rightarrow> b256 set \<Rightarrow> b256 set \<Rightarrow> update \<Rightarrow> bool" where
  "update_ok t K V X (Apply p b) \<longleftrightarrow> t = T_App \<and> p \<in> K"
| "update_ok t K V X (Execute h) \<longleftrightarrow> t \<noteq> T_App \<and> h \<in> V"
| "update_ok t K V X (Confirm h) \<longleftrightarrow> t \<noteq> T_App \<and> h \<in> X"

definition heads_of :: "task \<Rightarrow> b256 set \<Rightarrow> b256 set \<Rightarrow> b256 set" where
  "heads_of t K V = (if t = T_App then K else V)"

fun pc_ok :: "task \<Rightarrow> b256 set \<Rightarrow> b256 set \<Rightarrow> b256 set \<Rightarrow> b256 \<Rightarrow> pc \<Rightarrow> bool" where
  "pc_ok t K V X l Idle \<longleftrightarrow> True"
| "pc_ok t K V X l (Reading u) \<longleftrightarrow> update_ok t K V X u"
| "pc_ok t K V X l (Sending f u) \<longleftrightarrow> fc_sound (heads_of t K V) X f \<and> update_ok t K V X u"
| "pc_ok t K V X l (Caching f u) \<longleftrightarrow> fc_sound (heads_of t K V) X f \<and> update_ok t K V X u"
| "pc_ok t K V X l (Storing f u) \<longleftrightarrow> fc_sound V X f \<and> update_ok t K V X u"
| "pc_ok t K V X l (Reporting b) \<longleftrightarrow> True"
| "pc_ok t K V X l Asking \<longleftrightarrow> t = T_App \<and> l \<in> K"
| "pc_ok t K V X l (Building f) \<longleftrightarrow> fc_sound K X f"
| "pc_ok t K V X l (Tracking h) \<longleftrightarrow> h \<in> V"

definition race_inv :: "b256 \<Rightarrow> race \<Rightarrow> bool" where
  "race_inv g s \<longleftrightarrow>
     (let K = insert g (rc_given s \<union> rc_valid s); V = insert g (rc_valid s); X = insert g (rc_executed s) in
      fc_sound K X (rc_reth s) \<and> fc_sound K X (rc_cache s) \<and> fc_sound V X (rc_sequencer s) \<and>
      rc_executed s \<subseteq> V \<and> rc_valid s \<subseteq> set (take (rc_read s) (rc_final s)) \<and>
      (\<forall>t. pc_ok t K V X (rc_last s) (rc_task s t)))"

lemma fc_sound_mono: "fc_sound K X f \<Longrightarrow> K \<subseteq> K' \<Longrightarrow> X \<subseteq> X' \<Longrightarrow> fc_sound K' X' f"
  by (auto simp: fc_sound_def)

lemma update_ok_mono:
  "update_ok t K V X u \<Longrightarrow> K \<subseteq> K' \<Longrightarrow> V \<subseteq> V' \<Longrightarrow> X \<subseteq> X' \<Longrightarrow> update_ok t K' V' X' u"
  by (cases u) auto

lemma heads_of_mono: "K \<subseteq> K' \<Longrightarrow> V \<subseteq> V' \<Longrightarrow> heads_of t K V \<subseteq> heads_of t K' V'"
  by (simp add: heads_of_def)

lemma pc_ok_mono:
  assumes "pc_ok t K V X l p" "K \<subseteq> K'" "V \<subseteq> V'" "X \<subseteq> X'"
  shows "pc_ok t K' V' X' l p"
  using assms fc_sound_mono [OF _ heads_of_mono [OF assms(2,3)] assms(4)]
    fc_sound_mono [OF _ assms(3,4)] fc_sound_mono [OF _ assms(2,4)] update_ok_mono [OF _ assms(2-4)]
  by (cases p) auto

lemma target_sound:
  assumes "fc_sound (heads_of t K V) X f" "update_ok t K V X u"
  shows "fc_sound (heads_of t K V) X (target u f)"
  using assms by (cases u) (auto simp: fc_sound_def head_is_safe_def with_soft_def with_firm_def heads_of_def)

lemma race_inv_start: "race_inv g (race_start g)"
  by (simp add: race_inv_def race_start_def settled_def fc_sound_def head_is_safe_def fc_genesis_def Let_def)

abbreviation known :: "b256 \<Rightarrow> race \<Rightarrow> b256 set" where
  "known g s \<equiv> insert g (rc_given s \<union> rc_valid s)"

text \<open>Moving one task, growing a set, or replacing one forkchoice.\<close>

lemma race_inv_goto:
  "race_inv g s \<Longrightarrow>
     pc_ok t (known g s) (insert g (rc_valid s)) (insert g (rc_executed s)) (rc_last s) p \<Longrightarrow>
     race_inv g (goto t p s)"
  by (simp add: race_inv_def Let_def)

lemma race_inv_given:
  assumes "race_inv g s"
  shows "race_inv g (s\<lparr>rc_given := insert h (rc_given s)\<rparr>)"
proof -
  have K: "known g s \<subseteq> insert g (insert h (rc_given s) \<union> rc_valid s)" by blast
  show ?thesis
    using assms fc_sound_mono [OF _ K subset_refl] pc_ok_mono [OF _ K subset_refl subset_refl]
    unfolding race_inv_def Let_def by auto
qed

lemma race_inv_valid:
  assumes "race_inv g s" "h \<in> set (take (rc_read s) (rc_final s))"
  shows "race_inv g (s\<lparr>rc_valid := insert h (rc_valid s)\<rparr>)"
proof -
  have K: "known g s \<subseteq> insert g (rc_given s \<union> insert h (rc_valid s))" by blast
  have V: "insert g (rc_valid s) \<subseteq> insert g (insert h (rc_valid s))" by blast
  show ?thesis
    using assms fc_sound_mono [OF _ K subset_refl] fc_sound_mono [OF _ V subset_refl]
      pc_ok_mono [OF _ K V subset_refl]
    unfolding race_inv_def Let_def by auto
qed

lemma race_inv_read: "race_inv g s \<Longrightarrow> race_inv g (s\<lparr>rc_read := Suc (rc_read s)\<rparr>)"
  using set_take_subset_set_take [of "rc_read s" "Suc (rc_read s)" "rc_final s"]
  by (simp add: race_inv_def Let_def) blast

lemma race_inv_executed:
  assumes "race_inv g s" "h \<in> insert g (rc_valid s)"
  shows "race_inv g (s\<lparr>rc_executed := insert h (rc_executed s)\<rparr>)"
proof -
  have X: "insert g (rc_executed s) \<subseteq> insert g (insert h (rc_executed s))" by blast
  show ?thesis
    using assms fc_sound_mono [OF _ subset_refl X] pc_ok_mono [OF _ subset_refl subset_refl X]
    unfolding race_inv_def Let_def by auto
qed

lemma race_inv_final:
  assumes "race_inv g s" "rc_task s T_App = Reporting b"
  shows "race_inv g (s\<lparr>rc_final := rc_final s @ [b], rc_last := b\<rparr>)"
proof -
  have "pc_ok t K V X b (rc_task s t)" if "pc_ok t K V X (rc_last s) (rc_task s t)" for t K V X
    using that assms(2) by (cases "rc_task s t") auto
  with assms(1) show ?thesis unfolding race_inv_def Let_def by auto
qed

lemma race_inv_forkchoice:
  assumes "race_inv g s" "fc_sound (known g s) (insert g (rc_executed s)) f"
  shows "race_inv g (s\<lparr>rc_reth := f\<rparr>)" "race_inv g (s\<lparr>rc_cache := f\<rparr>)"
  using assms by (simp_all add: race_inv_def Let_def)

lemma race_inv_sequencer:
  assumes "race_inv g s" "fc_sound (insert g (rc_valid s)) (insert g (rc_executed s)) f"
  shows "race_inv g (s\<lparr>rc_sequencer := f\<rparr>)"
  using assms by (simp add: race_inv_def Let_def)

lemma race_inv_pc:
  "race_inv g s \<Longrightarrow>
     pc_ok t (known g s) (insert g (rc_valid s)) (insert g (rc_executed s)) (rc_last s) (rc_task s t)"
  by (simp add: race_inv_def Let_def)

lemma heads_known: "fc_sound (heads_of t (known g s) (insert g (rc_valid s))) X f \<Longrightarrow> fc_sound (known g s) X f"
  by (rule fc_sound_mono) (auto simp: heads_of_def split: if_splits)

lemma race_inv_read_by:
  "race_inv g s \<Longrightarrow> fc_sound (heads_of t (known g s) (insert g (rc_valid s))) (insert g (rc_executed s)) (read_by t s)"
  by (simp add: race_inv_def read_by_def heads_of_def Let_def)

text \<open>The program counters after a request keep the invariant.\<close>

lemma after_ok:
  assumes "update_ok t K V X u"
  shows "pc_ok t K V X l (after_failure u)"
    and "fc_sound (heads_of t K V) X f \<Longrightarrow> pc_ok t K V X l (after_cache f u)"
    and "t \<noteq> T_App \<Longrightarrow> pc_ok t K V X l (after_store u)"
  using assms by (cases u; simp add: heads_of_def)+

lemma update_step_inv: "update_step t s s' \<Longrightarrow> race_inv g s \<Longrightarrow> race_inv g s'"
proof (induction rule: update_step.induct)
  case (read s u)
  then have "update_ok t (known g s) (insert g (rc_valid s)) (insert g (rc_executed s)) u"
    using race_inv_pc [OF read.prems, of t] by simp
  with race_inv_read_by [OF read.prems] show ?case
    using read.prems by (intro race_inv_goto) (simp_all add: target_sound)
next
  case (accepted s f u)
  with race_inv_pc [OF accepted.prems, of t] show ?case
    by (intro race_inv_goto race_inv_forkchoice) (auto dest: heads_known)
next
  case (refused s f u)
  with race_inv_pc [OF refused.prems, of t] show ?case
    by (intro race_inv_goto after_ok) auto
next
  case (response_lost s f u)
  with race_inv_pc [OF response_lost.prems, of t] show ?case
    by (intro race_inv_goto race_inv_forkchoice) (auto intro: after_ok dest: heads_known)
next
  case (cached s f u)
  with race_inv_pc [OF cached.prems, of t] show ?case
    by (intro race_inv_goto race_inv_forkchoice) (auto intro: after_ok dest: heads_known)
next
  case (stored s f u)
  with race_inv_pc [OF stored.prems, of t] show ?case
    by (cases u; intro race_inv_goto race_inv_sequencer) auto
qed

lemma relay_step_inv: "relay_step s s' \<Longrightarrow> race_inv g s \<Longrightarrow> race_inv g s'"
  by (induction rule: relay_step.induct) (rule race_inv_given)

lemma finalize_step_inv: "finalize_step s s' \<Longrightarrow> race_inv g s \<Longrightarrow> race_inv g s'"
proof (induction rule: finalize_step.induct)
  case (reported s b)
  then show ?case by (intro race_inv_goto race_inv_final) auto
qed (auto intro!: race_inv_goto race_inv_given)

lemma build_step_inv: "build_step g s s' \<Longrightarrow> race_inv g s \<Longrightarrow> race_inv g s'"
proof (induction rule: build_step.induct)
  case (asked s)
  then have "rc_last s \<in> known g s" using race_inv_pc [OF asked.prems, of T_App] by simp
  moreover have "fc_finalized (rc_cache s) \<in> insert g (rc_executed s)"
    using asked.prems by (simp add: race_inv_def fc_sound_def Let_def)
  ultimately show ?case
    using asked.prems by (intro race_inv_goto) (simp_all add: fc_sound_def head_is_safe_def)
next
  case (building s f)
  with race_inv_pc [OF building.prems, of T_App] show ?case
    by (intro race_inv_goto race_inv_forkchoice) auto
qed (auto intro!: race_inv_goto)

lemma callback_step_inv: "callback_step s s' \<Longrightarrow> race_inv g s \<Longrightarrow> race_inv g s'"
proof (induction rule: callback_step.induct)
  case (executed s h)
  then have "h \<in> set (take (Suc (rc_read s)) (rc_final s))" by (simp add: take_Suc_conv_app_nth)
  with race_inv_valid [OF race_inv_read [OF executed.prems], of h]
  have "race_inv g (s\<lparr>rc_read := Suc (rc_read s), rc_valid := insert h (rc_valid s)\<rparr>)" by simp
  then show ?case by (rule race_inv_goto) simp
next
  case (failed s)
  then show ?case by (simp add: race_inv_read)
next
  case (undecided s)
  with race_inv_given [OF race_inv_read [OF undecided.prems], of "rc_final s ! rc_read s"] show ?case by simp
next
  case (tracked s h)
  with race_inv_pc [OF tracked.prems, of T_Finalize] show ?case
    by (intro race_inv_goto race_inv_executed) auto
qed

lemma confirm_step_inv: "confirm_step s s' \<Longrightarrow> race_inv g s \<Longrightarrow> race_inv g s'"
  by (induction rule: confirm_step.induct) (auto intro!: race_inv_goto)

lemma race_reachable_inv: "race_reachable g s \<Longrightarrow> race_inv g s"
proof (induction rule: rtranclp_induct)
  case base
  show ?case by (rule race_inv_start)
next
  case (step s s')
  from step.hyps(2) step.IH show ?case
    by cases (auto intro: update_step_inv relay_step_inv finalize_step_inv build_step_inv callback_step_inv
        confirm_step_inv)
qed

text \<open>
  C12: what holds under every interleaving. Whatever the order of the three tasks' steps and whatever
  reth takes, refuses or answers too late. In the forkchoice that reth took last, in the client's cache
  and in the sequencer's state, head and safe block are the same, and the finalized block is genesis or
  a block that this node has executed. The head of the first two is genesis or a block that reth was
  given and did not call invalid; the sequencer's is genesis or a block that the callback executed and
  reth called valid. An executed block is such a block too, and reth is only asked to execute what the
  application has reported as final and the callback has taken.
\<close>

theorem interleaved_forkchoice_sound:
  assumes "race_reachable g s"
  shows "(\<forall>f \<in> {rc_reth s, rc_cache s, rc_sequencer s}.
      fc_head f = fc_safe f \<and> fc_head f \<in> insert g (rc_given s \<union> rc_valid s) \<and>
      fc_finalized f \<in> insert g (rc_executed s)) \<and>
    fc_head (rc_sequencer s) \<in> insert g (rc_valid s) \<and>
    rc_executed s \<subseteq> insert g (rc_valid s) \<and>
    rc_valid s \<subseteq> set (take (rc_read s) (rc_final s))"
  using race_reachable_inv [OF assms]
  by (auto simp: race_inv_def fc_sound_def head_is_safe_def Let_def)

section \<open>Schedules\<close>

text \<open>
  A schedule chooses the next step; \<open>advance\<close> takes the step of a task on which reth takes the
  request and answers. The application applies honest payloads here, and the callback takes the next
  block, which reth calls valid.
\<close>

datatype choice = Start_apply b256 | Start_next | Start_confirm b256 | Go task

fun advance :: "pc \<Rightarrow> task \<Rightarrow> race \<Rightarrow> race" where
  "advance (Reading u) t s = goto t (Sending (target u (read_by t s)) u) s"
| "advance (Sending f u) t s = goto t (Caching f u) (s\<lparr>rc_reth := f\<rparr>)"
| "advance (Caching f u) t s = goto t (after_cache f u) (s\<lparr>rc_cache := f\<rparr>)"
| "advance (Storing f u) t s = goto t (after_store u) (s\<lparr>rc_sequencer := f\<rparr>)"
| "advance (Reporting b) t s = (if t = T_App
     then goto t Idle (s\<lparr>rc_final := rc_final s @ [b], rc_last := b\<rparr>) else s)"
| "advance (Tracking h) t s = (if t = T_Finalize
     then goto t Idle (s\<lparr>rc_executed := insert h (rc_executed s)\<rparr>) else s)"
| "advance p t s = s"

fun take_choice :: "choice \<Rightarrow> race \<Rightarrow> race" where
  "take_choice (Start_apply h) s = (if rc_task s T_App = Idle
     then goto T_App (Reading (Apply h h)) (s\<lparr>rc_given := insert h (rc_given s)\<rparr>) else s)"
| "take_choice Start_next s = (if rc_task s T_Finalize = Idle \<and> rc_read s < length (rc_final s)
     then goto T_Finalize (Reading (Execute (rc_final s ! rc_read s)))
       (s\<lparr>rc_read := Suc (rc_read s), rc_valid := insert (rc_final s ! rc_read s) (rc_valid s)\<rparr>) else s)"
| "take_choice (Start_confirm h) s = (if rc_task s T_Confirm = Idle \<and> h \<in> rc_executed s
     then goto T_Confirm (Reading (Confirm h)) s else s)"
| "take_choice (Go t) s = advance (rc_task s t) t s"

definition follow :: "choice list \<Rightarrow> race \<Rightarrow> race" where
  "follow cs s = fold take_choice cs s"

lemma advance_step: "rc_task s t = p \<Longrightarrow> (race_step g)\<^sup>*\<^sup>* s (advance p t s)"
  by (cases p)
    (auto intro!: r_into_rtranclp intro: race_step.intros update_step.intros finalize_step.intros
      callback_step.intros)

lemma take_choice_step: "(race_step g)\<^sup>*\<^sup>* s (take_choice c s)"
proof (cases c)
  case (Go t)
  then show ?thesis by (simp add: advance_step)
qed (auto intro!: r_into_rtranclp intro: race_step.intros finalize_step.intros callback_step.intros
    confirm_step.intros)

lemma follow_steps: "(race_step g)\<^sup>*\<^sup>* s (follow cs s)"
  unfolding follow_def by (induction cs arbitrary: s) (auto intro: rtranclp_trans take_choice_step)

lemma follow_simps [simp]: "follow [] s = s" "follow (c # cs) s = follow cs (take_choice c s)"
  by (simp_all add: follow_def)

lemma follow_append: "follow (cs @ ds) s = follow ds (follow cs s)"
  by (simp add: follow_def)

text \<open>
  Tasks that run undisturbed: a payload is applied and reported, the callback handles the next block,
  the event loop follows a confirmation.
\<close>

abbreviation apply_alone :: "b256 \<Rightarrow> choice list" where
  "apply_alone h \<equiv> [Start_apply h, Go T_App, Go T_App, Go T_App, Go T_App]"

abbreviation finalize_alone :: "choice list" where
  "finalize_alone \<equiv> [Start_next, Go T_Finalize, Go T_Finalize, Go T_Finalize, Go T_Finalize, Go T_Finalize]"

abbreviation confirm_alone :: "b256 \<Rightarrow> choice list" where
  "confirm_alone h \<equiv> [Start_confirm h, Go T_Confirm, Go T_Confirm, Go T_Confirm, Go T_Confirm]"

lemma race_start_settled: "race_start g = settled (fc_genesis g) {} {} {} [] g"
  by (simp add: race_start_def)

lemma settled_quiescent [simp]: "quiescent (settled f G V X bs l)"
  by (simp add: settled_def quiescent_def)

lemmas race_eval = goto_def read_by_def settled_def

lemma block_alone_settled:
  "follow (apply_alone h @ finalize_alone) (settled f G V X bs l) =
     settled (with_soft f h) (insert h G) (insert h V) (insert h X) (bs @ [h]) h"
  by (simp add: race_eval fun_upd_idem with_soft_def)

lemma confirm_alone_settled:
  "h \<in> X \<Longrightarrow> follow (confirm_alone h) (settled f G V X bs l) = settled (with_firm f h) G V X bs l"
  by (simp add: race_eval fun_upd_idem)

lemma block_alone_steps:
  "(race_step g)\<^sup>*\<^sup>* (settled f G V X bs l)
     (settled (with_soft f h) (insert h G) (insert h V) (insert h X) (bs @ [h]) h)"
  by (metis block_alone_settled follow_steps)

lemma confirm_alone_steps:
  "h \<in> X \<Longrightarrow> (race_step g)\<^sup>*\<^sup>* (settled f G V X bs l) (settled (with_firm f h) G V X bs l)"
  by (metis confirm_alone_settled follow_steps)

lemma first_finalized:
  "follow (apply_alone a @ finalize_alone) (race_start g) =
     settled (with_soft (fc_genesis g) a) {a} {a} {a} [a] a"
  unfolding race_start_settled block_alone_settled by simp

text \<open>
  The first block is confirmed while the callback handles the second one and the application asks for
  a third.
\<close>

theorem interleaved_forkchoice_sound_witness:
  "\<exists>s. race_reachable 0 s \<and> rc_task s T_Confirm \<noteq> Idle \<and> rc_task s T_Finalize \<noteq> Idle \<and>
     rc_task s T_App = Asking \<and> fc_head (rc_reth s) = 2 \<and> fc_head (rc_sequencer s) \<in> insert 0 (rc_valid s) \<and>
     rc_executed s \<subseteq> insert 0 (rc_valid s)"
proof -
  let ?s = "follow ([Start_confirm 1, Go T_Confirm] @ apply_alone 2 @ [Start_next])
    (follow (apply_alone 1 @ finalize_alone) (race_start 0))"
  have r: "race_reachable 0 ?s" by (rule rtranclp_trans [OF follow_steps follow_steps])
  have idle: "rc_task ?s T_Confirm \<noteq> Idle" "rc_task ?s T_Finalize \<noteq> Idle" "rc_task ?s T_App = Idle"
      "rc_last ?s \<in> insert 0 (rc_given ?s \<union> rc_valid ?s)" "fc_head (rc_reth ?s) = 2"
    unfolding first_finalized by (simp_all add: race_eval with_soft_def)
  from r idle obtain s where s: "race_reachable 0 s" "rc_task s T_Confirm \<noteq> Idle" "rc_task s T_Finalize \<noteq> Idle"
      "rc_task s T_App = Idle" "rc_last s \<in> insert 0 (rc_given s \<union> rc_valid s)" "fc_head (rc_reth s) = 2"
    by (rule that)
  have t: "race_reachable 0 (goto T_App Asking s)"
    using s(1) proposing [OF synced [OF s(4,5)]] by (rule rtranclp.rtrancl_into_rtrancl)
  note c = interleaved_forkchoice_sound [OF t, unfolded goto_simps]
  show ?thesis
  proof (intro exI conjI)
    show "race_reachable 0 (goto T_App Asking s)" by (fact t)
  qed (use s conjunct2 [OF c] in \<open>simp_all only: goto_simps task.distinct if_True if_False simp_thms\<close>)
qed

section \<open>Lost updates\<close>

text \<open>
  After the first block was finalized and the second one applied. The callback reads for the second
  block, then the event loop runs a whole confirmation, then the callback goes on: its forkchoice still
  has the old finalized block. And the other way round with the head. And two responses that are cached
  and stored in the opposite order of their requests.
\<close>

abbreviation lost_confirmation :: "b256 \<Rightarrow> b256 \<Rightarrow> choice list" where
  "lost_confirmation a b \<equiv> apply_alone b @ [Start_next, Go T_Finalize] @ confirm_alone a"

abbreviation lost_head :: "b256 \<Rightarrow> b256 \<Rightarrow> choice list" where
  "lost_head a b \<equiv> apply_alone b @ [Start_confirm a, Go T_Confirm] @ finalize_alone @
     [Go T_Confirm, Go T_Confirm, Go T_Confirm]"

abbreviation swapped_responses :: "b256 \<Rightarrow> b256 \<Rightarrow> choice list" where
  "swapped_responses a b \<equiv> apply_alone b @ [Start_confirm a, Go T_Confirm, Go T_Confirm] @ finalize_alone @
     [Go T_Confirm, Go T_Confirm]"

lemma lost_confirmation_state:
  "follow (lost_confirmation a b) (settled f G V X bs l) =
     (settled (with_firm f a) (insert b G) (insert b V) X (bs @ [b]) b)
       \<lparr>rc_task := (\<lambda>t. Idle)(T_Finalize := Sending (with_soft f b) (Execute b))\<rparr>"
  if "a \<in> X"
  using that by (simp add: race_eval fun_upd_idem)

lemma lost_confirmation_rest:
  "follow [Go T_Finalize, Go T_Finalize, Go T_Finalize, Go T_Finalize]
     ((settled f G V X bs l)\<lparr>rc_task := (\<lambda>t. Idle)(T_Finalize := Sending f' (Execute b))\<rparr>) =
   settled f' G V (insert b X) bs l"
  by (simp add: race_eval fun_upd_idem)

lemma lost_head_state:
  "follow (lost_head a b) (settled f G V X bs l) =
     settled (with_firm f a) (insert b G) (insert b V) (insert b X) (bs @ [b]) b"
  if "a \<in> X"
  using that by (simp add: race_eval fun_upd_idem)

lemma swapped_responses_state:
  "follow (swapped_responses a b) (settled f G V X bs l) =
     (settled (with_firm f a) (insert b G) (insert b V) (insert b X) (bs @ [b]) b)
       \<lparr>rc_reth := with_soft f b\<rparr>"
  if "a \<in> X"
  using that by (simp add: race_eval fun_upd_idem)

text \<open>
  C23: updates of the forkchoice get lost. For a genesis \<open>g\<close> and blocks \<open>a\<close>, \<open>b\<close>, which the application
  applies and reports before the callback executes them, there are interleavings of the tasks, on which
  reth takes every request, such that: reth, the cache and the sequencer have all finalized \<open>a\<close>, and
  without a further confirmation, when all tasks have come to rest, all three are back at genesis as
  finalized block; \<open>b\<close> was executed after \<open>a\<close> and made the head, and at rest the head is \<open>a\<close> again in all
  three; and at rest, what reth took last, head and finalized block, differs from what the cache and the
  sequencer's state agree on.
\<close>

theorem forkchoice_updates_get_lost:
  "(let s1 = follow (lost_confirmation a b) (follow (apply_alone a @ finalize_alone) (race_start g));
        s2 = follow [Go T_Finalize, Go T_Finalize, Go T_Finalize, Go T_Finalize] s1
    in race_reachable g s1 \<and> rc_task s1 T_Confirm = Idle \<and>
       map fc_finalized [rc_reth s1, rc_cache s1, rc_sequencer s1] = [a, a, a] \<and>
       (race_step g)\<^sup>*\<^sup>* s1 s2 \<and> quiescent s2 \<and>
       map fc_finalized [rc_reth s2, rc_cache s2, rc_sequencer s2] = [g, g, g]) \<and>
   (let s = follow (lost_head a b) (follow (apply_alone a @ finalize_alone) (race_start g))
    in race_reachable g s \<and> quiescent s \<and> {a, b} \<subseteq> rc_executed s \<and>
       map fc_head [rc_reth s, rc_cache s, rc_sequencer s] = [a, a, a]) \<and>
   (let s = follow (swapped_responses a b) (follow (apply_alone a @ finalize_alone) (race_start g))
    in race_reachable g s \<and> quiescent s \<and>
       map fc_head [rc_reth s, rc_cache s, rc_sequencer s] = [b, a, a] \<and>
       map fc_finalized [rc_reth s, rc_cache s, rc_sequencer s] = [g, a, a])"
proof -
  have two: "race_reachable g (follow cs (follow ds (race_start g)))" for cs ds
    using rtranclp_trans [OF follow_steps follow_steps] .
  show ?thesis
    unfolding Let_def
    by (intro conjI two follow_steps; simp only: first_finalized lost_confirmation_state lost_confirmation_rest
          lost_head_state swapped_responses_state singletonI)
      (simp_all add: settled_def quiescent_def fc_genesis_def with_soft_def with_firm_def)
qed

section \<open>The sequential node among the interleavings\<close>

context execution_contract begin

lemma process_finalized_block_path:
  assumes "process_finalized_block X D b ld n = Some (u, n')" "cache (nd_exec n) = nd_forkchoice n"
  shows "cache (nd_exec n') = nd_forkchoice n' \<and>
    (\<exists>G' V' bs' l'. (race_step g)\<^sup>*\<^sup>* (settled (nd_forkchoice n) G V (nd_executed_blocks n) bs l)
       (settled (nd_forkchoice n') G' V' (nd_executed_blocks n') bs' l'))"
  using assms(1)
proof (cases rule: process_finalized_block_result)
  case failed
  with assms(2) show ?thesis by auto
next
  case executed
  note s = block_alone_steps [of g "nd_forkchoice n" G V "nd_executed_blocks n" bs l "blk_block_hash b"]
  from s executed show ?thesis by (auto simp del: insert_iff)
qed

lemma handle_finality_confirmation_path:
  assumes "handle_finality_confirmation X c n = Some (u, n')" "cache (nd_exec n) = nd_forkchoice n"
  shows "cache (nd_exec n') = nd_forkchoice n' \<and>
    (race_step g)\<^sup>*\<^sup>* (settled (nd_forkchoice n) G V (nd_executed_blocks n) bs l)
       (settled (nd_forkchoice n') G V (nd_executed_blocks n') bs l)"
  using assms(1)
proof (cases rule: handle_finality_confirmation_cases)
  case ignored
  with assms(2) show ?thesis by simp
next
  case (followed ctx r)
  note u = update_and_store_result [OF followed(2)]
  show ?thesis
  proof (cases r)
    case (Inl e)
    with u assms(2) show ?thesis by simp
  next
    case (Inr x)
    have "(race_step g)\<^sup>*\<^sup>* (settled (nd_forkchoice n) G V (nd_executed_blocks n) bs l)
        (settled (with_firm (nd_forkchoice n) (cf_block_hash c)) G V (nd_executed_blocks n) bs l)"
      using followed(1) by (rule confirm_alone_steps)
    with u Inr show ?thesis by simp
  qed
qed

lemma run_node_path:
  "run_node X D es n = Some (u, n') \<Longrightarrow> cache (nd_exec n) = nd_forkchoice n \<Longrightarrow>
     \<exists>G' V' bs' l'. (race_step g)\<^sup>*\<^sup>* (settled (nd_forkchoice n) G V (nd_executed_blocks n) bs l)
       (settled (nd_forkchoice n') G' V' (nd_executed_blocks n') bs' l')"
proof (induction es arbitrary: n G V bs l)
  case Nil
  then show ?case by auto
next
  case (Cons e es)
  then obtain n1 where step: "node_step X D e n = Some ((), n1)" and rest: "run_node X D es n1 = Some (u, n')"
    by (auto elim!: act_elims)
  have "cache (nd_exec n1) = nd_forkchoice n1 \<and>
      (\<exists>G1 V1 bs1 l1. (race_step g)\<^sup>*\<^sup>* (settled (nd_forkchoice n) G V (nd_executed_blocks n) bs l)
        (settled (nd_forkchoice n1) G1 V1 (nd_executed_blocks n1) bs1 l1))"
  proof (cases e)
    case (NE_Finalized b ld)
    with step have "process_finalized_block X D b ld n = Some ((), n1)" by simp
    from process_finalized_block_path [OF this Cons.prems(2), of g G V bs l] show ?thesis by simp
  next
    case (NE_Confirmed c)
    with step have "handle_finality_confirmation X c n = Some ((), n1)" by simp
    from handle_finality_confirmation_path [OF this Cons.prems(2), of g G V bs l] show ?thesis by blast
  qed
  then obtain G1 V1 bs1 l1 where n1: "cache (nd_exec n1) = nd_forkchoice n1"
    "(race_step g)\<^sup>*\<^sup>* (settled (nd_forkchoice n) G V (nd_executed_blocks n) bs l)
        (settled (nd_forkchoice n1) G1 V1 (nd_executed_blocks n1) bs1 l1)" by blast
  from Cons.IH [OF rest n1(1), of G1 V1 bs1 l1] n1(2) show ?case
    by (meson rtranclp_trans)
qed

end

text \<open>
  C22: the sequential node is one of the interleavings. Every run of the node in which the handlers
  follow one another, from genesis, ends in a forkchoice and a set of executed blocks that the
  interleaved tasks also reach, at rest and with reth, cache and sequencer agreeing; so what holds
  under every interleaving holds of these runs too.
\<close>

theorem sequential_node_interleaves:
  assumes "nd_forkchoice n = fc_genesis g" "ew_forkchoice (nd_exec n) = fc_genesis g"
    and "nd_executed_blocks n = {}" "run_node (execution_client E) D es n = Some ((), n')"
  shows "\<exists>G V bs l. race_reachable g (settled (nd_forkchoice n') G V (nd_executed_blocks n') bs l)"
proof -
  have "ew_forkchoice (nd_exec n) = nd_forkchoice n" using assms(1,2) by simp
  from ec.run_node_path [OF assms(4) this, of g "{}" "{}" "[]" g] show ?thesis
    by (simp add: assms(1,3) race_start_settled)
qed

theorem sequential_node_interleaves_witness:
  "\<exists>n' G V bs l. run_node (execution_client reth_env) node_env
      [NE_Finalized first_block True, NE_Confirmed first_confirmation] demo_node = Some ((), n') \<and>
    race_reachable 7 (settled (nd_forkchoice n') G V (nd_executed_blocks n') bs l)"
proof -
  obtain n' where r: "run_node (execution_client reth_env) node_env
      [NE_Finalized first_block True, NE_Confirmed first_confirmation] demo_node = Some ((), n')"
    using demo_run by blast
  have "nd_forkchoice demo_node = fc_genesis 7" "ew_forkchoice (nd_exec demo_node) = fc_genesis 7"
      "nd_executed_blocks demo_node = {}"
    by (simp_all add: demo_node_def reth_world_def)
  from sequential_node_interleaves [OF this r] r show ?thesis by blast
qed

end
