(* ===== verification/Config_Toml.thy ===== *)
theory Config_Toml
  imports Cli "HOL-Library.Countable"
begin

text \<open>
  How a configuration is read from and written to TOML: the serde attributes of the structs of
  crates/types, \<open>src/config.rs\<close>, over TOML values. Between text and values stands the toml library,
  a parameter. A field is found under its name or its alias; a field that is missing takes its
  default if it has one, and is an error otherwise; unknown fields are ignored. Integers are those of
  TOML, 64 bits with a sign. Errors carry a message in the code and none here. Addresses are read and
  written by \<open>alloy\<close>: the arguments \<open>dec_address\<close> and \<open>enc_address\<close>.
\<close>

section \<open>Values\<close>

datatype toml =
    T_String string
  | T_Integer int
  | T_Float rat
  | T_Boolean bool
  | T_Array "toml list"
  | T_Table "(string \<times> toml) list"

type_synonym toml_table = "(string \<times> toml) list"

definition dec_string :: "toml \<Rightarrow> string option" where
  "dec_string v = (case v of T_String s \<Rightarrow> Some s | _ \<Rightarrow> None)"

definition dec_bool :: "toml \<Rightarrow> bool option" where
  "dec_bool v = (case v of T_Boolean b \<Rightarrow> Some b | _ \<Rightarrow> None)"

definition dec_unsigned :: "toml \<Rightarrow> 'a::len word option" where
  "dec_unsigned v =
     (case v of
        T_Integer i \<Rightarrow> if 0 \<le> i \<and> i < 2 ^ LENGTH('a) then Some (word_of_int i) else None
      | _ \<Rightarrow> None)"

definition dec_float :: "toml \<Rightarrow> rat option" where
  "dec_float v = (case v of T_Float r \<Rightarrow> Some r | T_Integer i \<Rightarrow> Some (of_int i) | _ \<Rightarrow> None)"

definition dec_array :: "(toml \<Rightarrow> 'a option) \<Rightarrow> toml \<Rightarrow> 'a list option" where
  "dec_array dec v = (case v of T_Array xs \<Rightarrow> those (map dec xs) | _ \<Rightarrow> None)"

definition dec_timing :: "toml \<Rightarrow> block_timing option" where
  "dec_timing v =
     (if v = T_String ''vanilla'' then Some Vanilla
      else if v = T_String ''subsecond'' then Some Subsecond else None)"

definition enc_unsigned :: "'a::len word \<Rightarrow> toml option" where
  "enc_unsigned w = (if uint w < 2 ^ 63 then Some (T_Integer (uint w)) else None)"

definition enc_timing :: "block_timing \<Rightarrow> toml" where
  "enc_timing t = T_String (case t of Vanilla \<Rightarrow> ''vanilla'' | Subsecond \<Rightarrow> ''subsecond'')"

section \<open>Fields\<close>

text \<open>A field under one of its names, with or without a default; two of the names are an error.\<close>

definition field :: "(toml \<Rightarrow> 'a option) \<Rightarrow> 'a option \<Rightarrow> string list \<Rightarrow> toml_table \<Rightarrow> 'a option" where
  "field dec missing names t =
     (case filter (\<lambda>(k, v). k \<in> set names) t of
        [] \<Rightarrow> missing
      | [(k, v)] \<Rightarrow> dec v
      | _ \<Rightarrow> None)"

definition default_p2p_port :: u16 where "default_p2p_port = P2P_PORT"
definition default_leader_timeout_ms :: u64 where "default_leader_timeout_ms = LEADER_TIMEOUT_MS"
definition default_notarization_timeout_ms :: u64 where
  "default_notarization_timeout_ms = NOTARIZATION_TIMEOUT_MS"
definition default_nullify_retry_ms :: u64 where "default_nullify_retry_ms = NULLIFY_RETRY_MS"
definition default_allow_private_ips :: bool where "default_allow_private_ips = ALLOW_PRIVATE_IPS"
definition default_namespace :: string where "default_namespace = namespace_default"
definition default_storage_dir :: string where "default_storage_dir = storage_dir"
definition default_gas_price :: rat where "default_gas_price = GAS_PRICE"
definition default_batch_interval_ms :: u64 where "default_batch_interval_ms = BATCH_INTERVAL_MS"
definition default_max_batch_size_bytes :: u64 where
  "default_max_batch_size_bytes = MAX_BATCH_SIZE_BYTES"
definition default_index_path :: string where "default_index_path = index_path"

section \<open>Reading\<close>

definition consensus_of_toml :: "(toml \<Rightarrow> address option) \<Rightarrow> toml \<Rightarrow> consensus_config option" where
  "consensus_of_toml dec_address v =
     (case v of T_Table t \<Rightarrow> do {
       validator_seeds \<leftarrow> field (dec_array dec_unsigned) None [''validator_seeds''] t;
       validators \<leftarrow> field (dec_array dec_address) (Some []) [''validators''] t;
       private_key_path \<leftarrow> field dec_string None [''private_key_path''] t;
       validator_seed \<leftarrow> field (map_option Some \<circ> dec_unsigned) (Some None) [''validator_seed''] t;
       listen_addr \<leftarrow> field dec_string None [''listen_addr''] t;
       dialable_addr \<leftarrow> field (map_option Some \<circ> dec_string) (Some None) [''dialable_addr''] t;
       p2p_port \<leftarrow> field dec_unsigned (Some default_p2p_port) [''p2p_port''] t;
       peers \<leftarrow> field (dec_array dec_string) None [''peers''] t;
       leader_timeout_ms \<leftarrow> field dec_unsigned (Some default_leader_timeout_ms) [''leader_timeout_ms''] t;
       notarization_timeout_ms \<leftarrow> field dec_unsigned (Some default_notarization_timeout_ms)
         [''notarization_timeout_ms''] t;
       nullify_retry_ms \<leftarrow> field dec_unsigned (Some default_nullify_retry_ms) [''nullify_retry_ms''] t;
       namespace \<leftarrow> field dec_string (Some default_namespace) [''namespace''] t;
       storage \<leftarrow> field dec_string (Some default_storage_dir) [''storage_dir''] t;
       allow_private_ips \<leftarrow> field dec_bool (Some default_allow_private_ips) [''allow_private_ips''] t;
       timing \<leftarrow> field dec_timing (Some Vanilla) [''block_timing''] t;
       Some \<lparr>cs_validator_seeds = validator_seeds, cs_validators = validators,
         cs_private_key_path = private_key_path, cs_validator_seed = validator_seed,
         cs_listen_addr = listen_addr, cs_dialable_addr = dialable_addr, cs_p2p_port = p2p_port,
         cs_peers = peers, cs_leader_timeout_ms = leader_timeout_ms,
         cs_notarization_timeout_ms = notarization_timeout_ms, cs_nullify_retry_ms = nullify_retry_ms,
         cs_namespace = namespace, cs_storage_dir = storage, cs_allow_private_ips = allow_private_ips,
         cs_block_timing = timing\<rparr>
     } | _ \<Rightarrow> None)"

definition celestia_of_toml :: "toml \<Rightarrow> celestia_config option" where
  "celestia_of_toml v =
     (case v of T_Table t \<Rightarrow> do {
       bridge_addr \<leftarrow> field dec_string None [''bridge_addr'', ''rpc_endpoint''] t;
       bridge_auth_token \<leftarrow> field dec_string (Some []) [''bridge_auth_token''] t;
       bridge_tls_enabled \<leftarrow> field dec_bool (Some False) [''bridge_tls_enabled''] t;
       core_grpc_addr \<leftarrow> field dec_string None [''core_grpc_addr'', ''grpc_endpoint''] t;
       core_grpc_auth_token \<leftarrow> field dec_string (Some []) [''core_grpc_auth_token''] t;
       core_grpc_tls_enabled \<leftarrow> field dec_bool (Some False) [''core_grpc_tls_enabled''] t;
       celestia_key_path \<leftarrow> field dec_string None [''celestia_key_path''] t;
       namespace \<leftarrow> field dec_string None [''namespace''] t;
       gas_price \<leftarrow> field dec_float (Some default_gas_price) [''gas_price''] t;
       batch_interval_ms \<leftarrow> field dec_unsigned (Some default_batch_interval_ms) [''batch_interval_ms''] t;
       max_batch_size_bytes \<leftarrow> field dec_unsigned (Some default_max_batch_size_bytes)
         [''max_batch_size_bytes''] t;
       genesis_da_height \<leftarrow> field dec_unsigned (Some 0) [''genesis_da_height''] t;
       genesis_block_hash \<leftarrow> field (map_option Some \<circ> dec_string) (Some None) [''genesis_block_hash''] t;
       path \<leftarrow> field dec_string (Some default_index_path) [''index_path''] t;
       Some \<lparr>ce_bridge_addr = bridge_addr, ce_bridge_auth_token = bridge_auth_token,
         ce_bridge_tls_enabled = bridge_tls_enabled, ce_core_grpc_addr = core_grpc_addr,
         ce_core_grpc_auth_token = core_grpc_auth_token,
         ce_core_grpc_tls_enabled = core_grpc_tls_enabled, ce_celestia_key_path = celestia_key_path,
         ce_namespace = namespace, ce_gas_price = gas_price, ce_batch_interval_ms = batch_interval_ms,
         ce_max_batch_size_bytes = max_batch_size_bytes, ce_genesis_da_height = genesis_da_height,
         ce_genesis_block_hash = genesis_block_hash, ce_index_path = path\<rparr>
     } | _ \<Rightarrow> None)"

definition execution_of_toml :: "toml \<Rightarrow> execution_config option" where
  "execution_of_toml v =
     (case v of T_Table t \<Rightarrow> do {
       reth_url \<leftarrow> field dec_string None [''reth_url''] t;
       jwt_secret_path \<leftarrow> field dec_string None [''jwt_secret_path''] t;
       Some \<lparr>xc_reth_url = reth_url, xc_jwt_secret_path = jwt_secret_path\<rparr>
     } | _ \<Rightarrow> None)"

definition config_of_toml :: "(toml \<Rightarrow> address option) \<Rightarrow> toml \<Rightarrow> chain_config option" where
  "config_of_toml dec_address v =
     (case v of T_Table t \<Rightarrow> do {
       chain_id \<leftarrow> field dec_unsigned None [''chain_id''] t;
       consensus \<leftarrow> field (consensus_of_toml dec_address) None [''consensus''] t;
       celestia \<leftarrow> field celestia_of_toml None [''celestia''] t;
       execution \<leftarrow> field execution_of_toml None [''execution''] t;
       Some \<lparr>cg_chain_id = chain_id, cg_consensus = consensus, cg_celestia = celestia,
         cg_execution = execution\<rparr>
     } | _ \<Rightarrow> None)"

section \<open>Writing\<close>

text \<open>
  A struct is written as the table of its fields, under their names. TOML has no null, so a field
  that is \<open>None\<close> is left out; an integer beyond \<open>i64\<close> is an error of the library.
\<close>

definition put :: "string \<Rightarrow> toml option \<Rightarrow> toml_table option" where
  "put name v = map_option (\<lambda>x. [(name, x)]) v"

definition put_some :: "string \<Rightarrow> ('a \<Rightarrow> toml option) \<Rightarrow> 'a option \<Rightarrow> toml_table option" where
  "put_some name enc v = (case v of None \<Rightarrow> Some [] | Some x \<Rightarrow> put name (enc x))"

definition put_all :: "toml_table option list \<Rightarrow> toml option" where
  "put_all fs = map_option (\<lambda>ts. T_Table (concat ts)) (those fs)"

definition enc_array :: "('a \<Rightarrow> toml option) \<Rightarrow> 'a list \<Rightarrow> toml option" where
  "enc_array enc xs = map_option T_Array (those (map enc xs))"

definition toml_of_consensus :: "(address \<Rightarrow> toml option) \<Rightarrow> consensus_config \<Rightarrow> toml option" where
  "toml_of_consensus enc_address c = put_all
     [put ''validator_seeds'' (enc_array enc_unsigned (cs_validator_seeds c)),
      put ''validators'' (enc_array enc_address (cs_validators c)),
      put ''private_key_path'' (Some (T_String (cs_private_key_path c))),
      put_some ''validator_seed'' enc_unsigned (cs_validator_seed c),
      put ''listen_addr'' (Some (T_String (cs_listen_addr c))),
      put_some ''dialable_addr'' (Some \<circ> T_String) (cs_dialable_addr c),
      put ''p2p_port'' (enc_unsigned (cs_p2p_port c)),
      put ''peers'' (enc_array (Some \<circ> T_String) (cs_peers c)),
      put ''leader_timeout_ms'' (enc_unsigned (cs_leader_timeout_ms c)),
      put ''notarization_timeout_ms'' (enc_unsigned (cs_notarization_timeout_ms c)),
      put ''nullify_retry_ms'' (enc_unsigned (cs_nullify_retry_ms c)),
      put ''namespace'' (Some (T_String (cs_namespace c))),
      put ''storage_dir'' (Some (T_String (cs_storage_dir c))),
      put ''allow_private_ips'' (Some (T_Boolean (cs_allow_private_ips c))),
      put ''block_timing'' (Some (enc_timing (cs_block_timing c)))]"

definition toml_of_celestia :: "celestia_config \<Rightarrow> toml option" where
  "toml_of_celestia c = put_all
     [put ''bridge_addr'' (Some (T_String (ce_bridge_addr c))),
      put ''bridge_auth_token'' (Some (T_String (ce_bridge_auth_token c))),
      put ''bridge_tls_enabled'' (Some (T_Boolean (ce_bridge_tls_enabled c))),
      put ''core_grpc_addr'' (Some (T_String (ce_core_grpc_addr c))),
      put ''core_grpc_auth_token'' (Some (T_String (ce_core_grpc_auth_token c))),
      put ''core_grpc_tls_enabled'' (Some (T_Boolean (ce_core_grpc_tls_enabled c))),
      put ''celestia_key_path'' (Some (T_String (ce_celestia_key_path c))),
      put ''namespace'' (Some (T_String (ce_namespace c))),
      put ''gas_price'' (Some (T_Float (ce_gas_price c))),
      put ''batch_interval_ms'' (enc_unsigned (ce_batch_interval_ms c)),
      put ''max_batch_size_bytes'' (enc_unsigned (ce_max_batch_size_bytes c)),
      put ''genesis_da_height'' (enc_unsigned (ce_genesis_da_height c)),
      put_some ''genesis_block_hash'' (Some \<circ> T_String) (ce_genesis_block_hash c),
      put ''index_path'' (Some (T_String (ce_index_path c)))]"

definition toml_of_execution :: "execution_config \<Rightarrow> toml option" where
  "toml_of_execution c = put_all
     [put ''reth_url'' (Some (T_String (xc_reth_url c))),
      put ''jwt_secret_path'' (Some (T_String (xc_jwt_secret_path c)))]"

definition toml_of_config :: "(address \<Rightarrow> toml option) \<Rightarrow> chain_config \<Rightarrow> toml option" where
  "toml_of_config enc_address c = put_all
     [put ''chain_id'' (enc_unsigned (cg_chain_id c)),
      put ''consensus'' (toml_of_consensus enc_address (cg_consensus c)),
      put ''celestia'' (toml_of_celestia (cg_celestia c)),
      put ''execution'' (toml_of_execution (cg_execution c))]"

section \<open>Round trips\<close>

text \<open>\<open>codec enc dec\<close>: what is written is read back.\<close>

definition codec :: "('a \<Rightarrow> toml option) \<Rightarrow> (toml \<Rightarrow> 'a option) \<Rightarrow> bool" where
  "codec enc dec \<longleftrightarrow> (\<forall>x v. enc x = Some v \<longrightarrow> dec v = Some x)"

lemma codecD: "codec enc dec \<Longrightarrow> enc x = Some v \<Longrightarrow> dec v = Some x"
  by (simp add: codec_def)

lemma codec_string: "codec (Some \<circ> T_String) dec_string"
  by (simp add: codec_def dec_string_def)

lemma unsigned_read_back: "enc_unsigned x = Some v \<Longrightarrow> dec_unsigned v = Some x"
proof -
  assume "enc_unsigned x = Some v"
  then have "v = T_Integer (uint x)" by (simp add: enc_unsigned_def split: if_splits)
  then show "dec_unsigned v = Some x" using uint_lt2p [of x] by (simp add: dec_unsigned_def)
qed

lemma codec_unsigned: "codec enc_unsigned dec_unsigned"
  by (simp add: codec_def unsigned_read_back)

lemma those_read_back:
  "codec enc dec \<Longrightarrow> those (map enc xs) = Some vs \<Longrightarrow> those (map dec vs) = Some xs"
proof (induction xs arbitrary: vs)
  case (Cons x xs)
  then show ?case by (auto split: option.splits dest: codecD)
qed simp

lemma array_read_back:
  "codec enc dec \<Longrightarrow> enc_array enc xs = Some v \<Longrightarrow> dec_array dec v = Some xs"
  by (auto simp: enc_array_def dec_array_def those_read_back)

lemma timing_read_back: "dec_timing (enc_timing t) = Some t"
  by (cases t) (simp_all add: dec_timing_def enc_timing_def)

text \<open>A field is looked up past the fields of other names.\<close>

lemma field_Nil: "field dec missing names [] = missing"
  by (simp add: field_def)

lemma field_skip: "k \<notin> set names \<Longrightarrow> field dec missing names ((k, v) # t) = field dec missing names t"
  by (simp add: field_def)

lemma field_skip_all:
  "set names \<inter> fst ` set t = {} \<Longrightarrow> field dec missing names (t @ u) = field dec missing names u"
  by (induction t) (auto simp: field_skip)

lemma field_found:
  "k \<in> set names \<Longrightarrow> set names \<inter> fst ` set t = {} \<Longrightarrow> field dec missing names ((k, v) # t) = dec v"
  by (induction t) (auto simp: field_def)

lemma put_Some: "put name v = Some t \<longleftrightarrow> (\<exists>x. v = Some x \<and> t = [(name, x)])"
  by (auto simp: put_def)

lemma those_Cons_Some:
  "those (x # xs) = Some ys \<longleftrightarrow> (\<exists>y zs. x = Some y \<and> those xs = Some zs \<and> ys = y # zs)"
  by (auto split: option.splits)

lemma those_Nil_Some: "those [] = Some ys \<longleftrightarrow> ys = []"
  by auto

lemma put_all_Some: "put_all fs = Some v \<longleftrightarrow> (\<exists>ts. those fs = Some ts \<and> v = T_Table (concat ts))"
  by (auto simp: put_all_def)

lemma put_some_keys: "put_some name enc v = Some t \<Longrightarrow> fst ` set t \<subseteq> {name}"
  by (auto simp: put_some_def put_def split: option.splits)

lemmas put_simps = put_all_Some those_Cons_Some those_Nil_Some put_Some

lemma put_some_None: "put_some name enc None = Some t \<longleftrightarrow> t = []"
  by (auto simp: put_some_def)

lemma put_some_Some: "put_some name enc (Some x) = Some t \<longleftrightarrow> (\<exists>v. enc x = Some v \<and> t = [(name, v)])"
  by (simp add: put_some_def put_Some)

lemmas field_lookup = field_Nil field_skip field_found

lemma execution_read_back: "toml_of_execution c = Some v \<Longrightarrow> execution_of_toml v = Some c"
  by (cases c) (auto simp: toml_of_execution_def execution_of_toml_def put_simps field_lookup
    dec_string_def simp del: those.simps)

lemma celestia_read_back: "toml_of_celestia c = Some v \<Longrightarrow> celestia_of_toml v = Some c"
  by (cases c; cases "ce_genesis_block_hash c")
    (auto simp: toml_of_celestia_def celestia_of_toml_def put_simps put_some_None put_some_Some
      field_lookup dec_string_def dec_bool_def dec_float_def unsigned_read_back simp del: those.simps)

lemma consensus_read_back:
  assumes "codec enc_address dec_address" "toml_of_consensus enc_address c = Some v"
  shows "consensus_of_toml dec_address v = Some c"
  using assms(2)
  by (cases c; cases "cs_validator_seed c"; cases "cs_dialable_addr c")
    (auto simp: toml_of_consensus_def consensus_of_toml_def put_simps put_some_None put_some_Some
      field_lookup dec_string_def dec_bool_def unsigned_read_back timing_read_back
      array_read_back [OF assms(1)] array_read_back [OF codec_string] array_read_back [OF codec_unsigned]
      simp del: those.simps)

lemma config_read_back:
  assumes "codec enc_address dec_address" "toml_of_config enc_address c = Some v"
  shows "config_of_toml dec_address v = Some c"
  using assms(2)
  by (cases c)
    (auto simp: toml_of_config_def config_of_toml_def put_simps field_lookup unsigned_read_back
      consensus_read_back [OF assms(1)] celestia_read_back execution_read_back simp del: those.simps)

section \<open>Files\<close>

text \<open>
  \<open>toml::from_str\<close> and \<open>toml::to_string_pretty\<close> for configurations, over the parser and the printer of
  the toml library.
\<close>

definition config_from_str ::
  "(string \<Rightarrow> string + toml) \<Rightarrow> (toml \<Rightarrow> string) \<Rightarrow> (toml \<Rightarrow> address option) \<Rightarrow> string
    \<Rightarrow> string + chain_config" where
  "config_from_str parse describe dec_address text =
     (case parse text of
        Inl e \<Rightarrow> Inl e
      | Inr v \<Rightarrow>
          (case config_of_toml dec_address v of None \<Rightarrow> Inl (describe v) | Some c \<Rightarrow> Inr c))"

definition config_to_str ::
  "(toml \<Rightarrow> string) \<Rightarrow> (address \<Rightarrow> toml option) \<Rightarrow> chain_config \<Rightarrow> string + string" where
  "config_to_str print enc_address c =
     (case toml_of_config enc_address c of
        None \<Rightarrow> Inl ''out-of-range value for u64 type''
      | Some v \<Rightarrow> Inr (print v))"

text \<open>The default configuration holds no integer that TOML cannot express.\<close>

lemma default_config_written:
  assumes "enc_address (derive_address keccak256 (pubkey_of_seed 0)) = Some a"
  obtains v where "toml_of_config enc_address (default_config keccak256 pubkey_of_seed) = Some v"
  using assms
  by (simp add: toml_of_config_def toml_of_consensus_def toml_of_celestia_def toml_of_execution_def
      default_config_def default_consensus_def default_celestia_def default_execution_def
      put_all_def put_def put_some_def enc_array_def enc_unsigned_def Let_def)

lemma config_to_str_back:
  assumes "codec enc_address dec_address" "config_to_str print enc_address c = Inr text"
    and "\<And>v. toml_of_config enc_address c = Some v \<Longrightarrow> parse (print v) = Inr v"
  shows "config_from_str parse describe dec_address text = Inr c"
  using assms
  by (auto simp: config_to_str_def config_from_str_def config_read_back split: option.splits)

text \<open>
  C32: \<open>rkb init\<close> followed by \<open>rkb run\<close> on the same path: the default configuration can always be
  written, so that init fails only if the file cannot be written; and what is loaded from that file
  is the default configuration again, field by field, although the
  fields that are \<open>None\<close> are not in the file. Relied on: the parser of the toml library reads back what its printer writes, alloy
  reads back the addresses it writes, and the file system keeps the file.
\<close>

theorem init_then_load:
  assumes "codec enc_address dec_address" "enc_address addr \<noteq> None"
    and "addr = derive_address (ka_keccak256 K) (ka_bytes K (ka_public K (ka_from_seed K 0)))"
    and "ca_toml_to_string C = config_to_str print enc_address"
    and "\<And>c v. toml_of_config enc_address c = Some v \<Longrightarrow> parse (print v) = Inr v"
    and "stores_files C H"
  shows "\<exists>text. init_config C K path w = ca_write C path text w \<and>
    (fst (ca_write C path text w) = Inr () \<longrightarrow>
      fst (config_load H (config_from_str parse describe dec_address) (ka_keccak256 K)
          (\<lambda>seed. ka_bytes K (ka_public K (ka_from_seed K seed))) path (snd (ca_write C path text w))) =
        Inr (default_config (ka_keccak256 K) (\<lambda>seed. ka_bytes K (ka_public K (ka_from_seed K seed)))))"
proof -
  define pk where "pk = (\<lambda>seed. ka_bytes K (ka_public K (ka_from_seed K seed)))"
  define c where "c = default_config (ka_keccak256 K) pk"
  obtain a where a: "enc_address (derive_address (ka_keccak256 K) (pk 0)) = Some a"
    using assms(2,3) by (auto simp: pk_def)
  obtain v where "toml_of_config enc_address c = Some v"
    unfolding c_def by (rule default_config_written [of enc_address "ka_keccak256 K" pk, OF a])
  then have written: "config_to_str print enc_address c = Inr (print v)"
    by (simp add: config_to_str_def)
  then have parsed: "config_from_str parse describe dec_address (print v) = Inr c"
    by (rule config_to_str_back [OF assms(1)]) (rule assms(5))
  have init: "init_config C K path w = ca_write C path (print v) w"
    using written by (simp add: init_config_def assms(4) c_def pk_def)
  have valid: "derive_validators (ka_keccak256 K) pk c = c" "validate c = Inr ()"
    by (simp_all add: c_def derive_validators_def default_config_def default_consensus_def
        default_celestia_def default_execution_def validate_iff config_valid_def)
  have "fst (config_load H (config_from_str parse describe dec_address) (ka_keccak256 K) pk path w1) =
      Inr c" if "ca_write C path (print v) w = (Inr (), w1)" for w1
  proof -
    have "fst (read_file H path w1) = Inr (print v)"
      using assms(6) that by (auto simp: stores_files_def)
    with parsed valid show ?thesis
      by (cases "read_file H path w1") (simp add: config_load_def Let_def)
  qed
  then show ?thesis
    unfolding init c_def pk_def
    by (intro exI [of _ "print v"]) (cases "ca_write C path (print v) w", auto)
qed

text \<open>
  A printer, a file system of one file and an address format for which all of this holds: values are
  numbered, and a value is printed as that many letters.
\<close>

instance toml :: countable
  by countable_datatype

definition number_print :: "toml \<Rightarrow> string" where
  "number_print v = replicate (to_nat v) CHR ''a''"

definition number_parse :: "string \<Rightarrow> string + toml" where
  "number_parse s = Inr (from_nat (length s))"

definition number_address :: "address \<Rightarrow> toml option" where
  "number_address a = Some (T_Integer (uint a))"

definition address_number :: "toml \<Rightarrow> address option" where
  "address_number v = (case v of T_Integer i \<Rightarrow> Some (word_of_int i) | _ \<Rightarrow> None)"

definition one_file_cli :: "(string \<times> string, unit, unit) cli_api" where
  "one_file_cli =
     \<lparr>ca_write = (\<lambda>p s w. (Inr (), (p, s))), ca_println = (\<lambda>s w. w), ca_random = (\<lambda>n w. ([], w)),
      ca_toml_to_string = config_to_str number_print number_address,
      ca_hex_encode = (\<lambda>bs. []), ca_hex_decode = (\<lambda>s. Inr []), ca_signing_key = (\<lambda>bs. Inr ()),
      ca_sec1_bytes = (\<lambda>k. []), ca_sha256 = (\<lambda>bs. bs), ca_ripemd160 = (\<lambda>bs. bs),
      ca_hrp_parse = (\<lambda>s. Some ()), ca_bech32 = (\<lambda>h bs. Inr [])\<rparr>"

definition one_file_host :: "(string \<times> string) host" where
  "one_file_host =
     \<lparr>clock = (\<lambda>w. (None, w)), sleep_ms = (\<lambda>n w. w),
      read_file = (\<lambda>p w. (if p = fst w then Inr (snd w) else Inl ''not found'', w))\<rparr>"

definition sum_keys :: "(u64, u64) key_api" where
  "sum_keys =
     \<lparr>ka_from_seed = (\<lambda>s. s), ka_public = (\<lambda>s. s), ka_bytes = (\<lambda>k. [ucast k]),
      ka_keccak256 = (\<lambda>bs. ucast (sum_list bs)), ka_hex_decode = (\<lambda>s. Inr [])\<rparr>"

lemma stores_one_file: "stores_files one_file_cli one_file_host"
  by (simp add: stores_files_def one_file_cli_def one_file_host_def)

lemma codec_number_address: "codec number_address address_number"
  by (auto simp: codec_def number_address_def address_number_def)

theorem init_then_load_witness:
  "fst (config_load one_file_host (config_from_str number_parse (\<lambda>v. ''invalid'') address_number)
      (ka_keccak256 sum_keys) (\<lambda>seed. ka_bytes sum_keys (ka_public sum_keys (ka_from_seed sum_keys seed)))
      ''config.toml'' (snd (init_config one_file_cli sum_keys ''config.toml'' ([], [])))) =
    Inr (default_config (ka_keccak256 sum_keys)
      (\<lambda>seed. ka_bytes sum_keys (ka_public sum_keys (ka_from_seed sum_keys seed))))"
proof -
  have printer: "number_parse (number_print v) = Inr v" for v
    by (simp add: number_parse_def number_print_def)
  have wr: "fst (ca_write one_file_cli p s w) = Inr ()" for p s w
    by (simp add: one_file_cli_def)
  have str: "ca_toml_to_string one_file_cli = config_to_str number_print number_address"
    by (simp add: one_file_cli_def)
  have adr: "number_address a \<noteq> None" for a
    by (simp add: number_address_def)
  from init_then_load [OF codec_number_address adr refl str printer stores_one_file,
      where K = sum_keys and path = "''config.toml''" and w = "([], [])" and describe = "\<lambda>v. ''invalid''"]
  show ?thesis using wr by auto
qed

text \<open>
  A file with the required fields only, the endpoints under their names or under their aliases, is
  completed to the default configuration, with the seed left out: the values that the serde functions
  give to missing fields are those that \<open>init\<close> writes.
\<close>

definition required_fields :: "bool \<Rightarrow> toml" where
  "required_fields old = T_Table
     [(''chain_id'', T_Integer 1337),
      (''consensus'', T_Table
        [(''validator_seeds'', T_Array [T_Integer 0]), (''private_key_path'', T_String ''validator.key''),
         (''listen_addr'', T_String ''0.0.0.0:26656''), (''peers'', T_Array [])]),
      (''celestia'', T_Table
        [(if old then ''rpc_endpoint'' else ''bridge_addr'', T_String ''http://localhost:26658''),
         (if old then ''grpc_endpoint'' else ''core_grpc_addr'', T_String ''localhost:9090''),
         (''celestia_key_path'', T_String ''celestia.key''), (''namespace'', T_String ''726b62'')]),
      (''execution'', T_Table
        [(''reth_url'', T_String ''http://localhost:8551''), (''jwt_secret_path'', T_String ''jwt.hex'')])]"

lemmas serde_defaults = default_p2p_port_def default_leader_timeout_ms_def
  default_notarization_timeout_ms_def default_nullify_retry_ms_def default_allow_private_ips_def
  default_namespace_def default_storage_dir_def default_gas_price_def default_batch_interval_ms_def
  default_max_batch_size_bytes_def default_index_path_def P2P_PORT_def LEADER_TIMEOUT_MS_def
  NOTARIZATION_TIMEOUT_MS_def NULLIFY_RETRY_MS_def ALLOW_PRIVATE_IPS_def namespace_default_def
  storage_dir_def GAS_PRICE_def BATCH_INTERVAL_MS_def MAX_BATCH_SIZE_BYTES_def index_path_def

theorem required_fields_suffice:
  "map_option (derive_validators keccak256 pubkey_of_seed)
      (config_of_toml dec_address (required_fields old)) =
    Some (default_config keccak256 pubkey_of_seed
      \<lparr>cg_consensus := cg_consensus (default_config keccak256 pubkey_of_seed) \<lparr>cs_validator_seed := None\<rparr>\<rparr>)"
  by (cases old)
    (simp_all add: required_fields_def config_of_toml_def consensus_of_toml_def celestia_of_toml_def
      execution_of_toml_def field_lookup dec_string_def dec_unsigned_def dec_array_def dec_bool_def
      serde_defaults derive_validators_def default_config_def default_consensus_def
      default_celestia_def default_execution_def)

end
