(* ===== verification/Spec2Isabelle.thy ===== *)
theory Spec2Isabelle
  imports Cluster_Demo Sync_Props Unit_Tests Node_Race Config_Toml
begin

text \<open>
  A model of rkb, a proof-of-authority sequencer: validators agree on blocks with the Simplex BFT
  engine, build and execute them on reth through the Engine API, and publish them to Celestia.

  \<^bold>\<open>The program.\<close> One node runs, concurrently: the engine of commonware, which asks the application
  actor for proposals and tells it what is final; the relay, which sends proposed blocks to the other
  validators and hands theirs to the application; the finalization loop, which executes final blocks
  on reth and queues them for Celestia when this node led; the batch task, which submits the queue;
  the finality tracker, which follows Celestia's headers and confirms submitted blocks, from the first
  moments of the start on; and the event loop, which moves reth's finalized pointer on a confirmation.
  They share the execution client with
  its cached forkchoice, the sequencer's forkchoice and the set of executed blocks.

  \<^bold>\<open>Parts and theories.\<close>
  \<^item> \<open>crates/types\<close>: transactions, blocks, signatures and hex serialisation (\<open>transaction.rs\<close>,
    \<open>block.rs\<close>, \<open>serde_helpers.rs\<close>) are \<open>Block_Types\<close>; the configuration, its loading and its defaults
    (\<open>config.rs\<close> here and in \<open>crates/sequencer\<close>) are \<open>Chain_Config\<close>. The serde attributes of its
    structs, how fields, defaults and aliases are read from TOML values and written to them, are
    \<open>Config_Toml\<close>.
  \<^item> \<open>crates/execution\<close>: tokens (\<open>jwt.rs\<close>) are \<open>Jwt\<close>, forkchoice states \<open>Forkchoice\<close>, payload types and
    conversions \<open>Payload\<close>, the client (\<open>client.rs\<close>) \<open>Execution_Client\<close>. \<open>Execution_Contract\<close> has the
    traits \<open>Execution\<close> and \<open>BlockBuilder\<close> as records of operations, their contracts as the locales
    \<open>execution_contract\<close> and \<open>builder_contract\<close>, and the client as their interpretation;
    \<open>Client_Props\<close> has the properties of the client.
  \<^item> \<open>crates/consensus\<close>: the application actor (\<open>application.rs\<close>) is \<open>Application\<close>; what each message does
    to its state is \<open>Application_Steps\<close>, whose locale \<open>app_invariant\<close> turns a predicate that every
    branch keeps into one of every run; \<open>Application_Props\<close> interprets it and has the properties. Its
    mailbox and the reporter (\<open>reporter.rs\<close>) are \<open>Mailbox\<close>, the leader rotation \<open>Leader\<close>, the network
    configuration \<open>Network\<close>, the runtime (\<open>runtime.rs\<close>) \<open>Consensus_Runtime\<close> with \<open>Runtime_Props\<close>.
  \<^item> \<open>crates/celestia\<close>: retries are \<open>Retry\<close>, pending submissions \<open>Finality\<close>, the block index
    \<open>Block_Index\<close> and \<open>Index_Props\<close>, the client \<open>Celestia_Client\<close>, its header subscription
    \<open>Celestia_Tracker\<close>, their properties \<open>Celestia_Props\<close>.
  \<^item> \<open>crates/sequencer\<close>: in \<open>simplex_sequencer.rs\<close>, the batch task is \<open>Batch\<close>, the handling of final
    blocks and of confirmations \<open>Finalization\<close>, the initial sync \<open>Sync\<close>, the start \<open>Startup\<close>, which
    takes the headers that the tracker handles before, between and after the requests of the start as
    an argument, so that a sync runs once a header has come;
    \<open>Node_Props\<close>, \<open>Sync_Props\<close> and \<open>Startup_Props\<close> have the properties of a node, one handler after
    the other.
    \<open>Node_Race\<close> has what these handlers and the application do to the forkchoice as steps that
    interleave, also within an update, the blocks that reth is asked to build included. The command
    line (\<open>cli.rs\<close>) and the entry point (\<open>main.rs\<close>) are \<open>Cli\<close>.
  \<^item> \<open>Pipeline\<close> puts the tasks of a node together: a record \<open>system\<close> with the state of the application,
    of the sequencer and of the batch task and with the positions of the receivers in their channels,
    and a step relation with one rule per task, each a turn of that task by the operations of the
    component theories. Two locales say what the application and the execution client guarantee to
    the others; the model's operations are their interpretation. \<open>Pipeline_Demo\<close> runs a node from its
    start to a confirmed block. \<open>Ledger\<close> is the abstract specification of a node, five steps on the lists
    of final, led and published blocks and the finalized one, with what follows from it, and the
    simulation of every turn by a step of it.
  \<^item> \<open>Cluster\<close> puts the validators together: a record \<open>cluster\<close> with a \<open>system\<close> for each of them, the
    digests that the engine has finalized and how far each validator has been told, and a step relation:
    the engine finalizes a relayed block, a message of the engine or a relayed block reaches an
    application, a finalization reaches it or is lost, a task of a validator takes its turn. \<open>chain\<close> is
    the specification, the chain computed from the finalized digests alone. \<open>Cluster_Live\<close> shows that
    the deliveries a validator needs to catch up can always be made. \<open>Cluster_Demo\<close> runs two validators
    from their start to a published block, and one validator into a fork. The properties in this
    theory are about the runs of one node or of all.
  \<^item> \<open>Unit_Tests\<close> has the unit tests of the repository as definitions over the model, with a lemma that
    each of them passes.
  \<^item> \<open>Prelude\<close>, \<open>Rust_Strings\<close>, \<open>BTree_Map\<close> and \<open>Host\<close> hold what the others share: effects with
    errors and panics, saturating arithmetic, the string functions and the ordered map of the
    standard library, the clock and the files, and bounded retry loops (locale \<open>bounded_retry\<close>).

  \<^bold>\<open>Reading the model.\<close> An operation with effects is a function of the world, of type
  \<open>('w, 'a) io\<close>, or \<open>('w, 'a) act\<close> when it may panic (\<open>None\<close>). A Rust \<open>Result\<close> is a sum, \<open>Inl\<close> for
  \<open>Err\<close>; \<open>bind_try\<close> is the question mark operator. Integers are words of their width; structs are
  records with the fields of the code; a channel is the list of what was sent or is received. Logging
  is left out. Code from outside the repository (reth, Celestia's client, commonware, hash functions,
  hex, JSON, TOML and bincode, the file system, name resolution) is an argument, a field of a record
  of functions; a property that relies on documented behaviour of such code states it as a
  hypothesis. Concrete instances of these records, in \<open>Model_Reth\<close>, \<open>Batch\<close>, \<open>Celestia_Props\<close>,
  \<open>Index_Props\<close>, \<open>Runtime_Props\<close>, \<open>Startup_Props\<close>, \<open>Config_Toml\<close>, \<open>Pipeline_Demo\<close> and
  \<open>Cluster_Demo\<close>, serve the witnesses.

  \<^bold>\<open>What is shown.\<close> Of a whole node, over every order of the turns of its tasks:
  what reth holds as finalized is genesis or was led, executed and published by this node,
  publication follows the order of finalization, the node refines its abstract ledger, a queue can
  always be drained while the batch task runs, and two validators never publish the same height. Of all
  validators: as long as no validator misses a decision, every chain is a function of the decisions its
  validator has been told, so of two chains one is a prefix of the other and what is published is on
  everybody's chain; agreement and publication hold with missed decisions too when the engine decides
  one block per height; and when it decides two, a missed block forks the chains. Where none is
  missed, every validator can still catch up with all decisions. The
  application finalizes consecutive heights, proposes once per height and on reth's head, and two
  validators that finalize a relayed proposal agree. In the sequencer's forkchoice and in the client's
  cache head and safe block agree, the finalized block is genesis or executed and so is the sequencer's
  head, from the start, through the sync and every order of the tasks' turns; a sync on which nothing
  fails executes exactly the blocks the index lacks, in their order. When the tasks interleave within
  an update, what reth took, the cache and the sequencer's state stay sound, but updates can be lost
  and the three can differ. Submitted blocks are neither lost nor reordered while the batch
  task runs, come back from Celestia as they were, and are confirmed exactly when a header reaches
  their height; batches stay below the limit plus one block as long as Celestia takes them. The
  client, the index, the configuration, the tokens and the retry loops do what they promise on every
  branch; where they do not, the property says what they do instead.

  \<^bold>\<open>Bounds.\<close> Loops over lists are structural; retry loops recurse on the
  attempts left, which the code bounds (ten queries, thirty initialisations,
  \<open>max_retries\<close>), so no fuel is added. Loops that wait for events (the actor, the batch
  task, the relay, the finalization and the event loop) are folds over the events that arrive. The
  finality tracker's loop has no bound in the code and is a partial function; it is proved to end
  after ten sessions.

  \<^bold>\<open>Not modelled.\<close> The parsing of arguments, which is clap's, and of TOML text;
  logging; the engine and the P2P network of commonware, of which only the configuration is built
  here: in \<open>Cluster\<close> the engine may finalize any relayed proposal, also twice and also
  two of a height, and the relay may lose and repeat blocks but delivers none that no application
  has proposed; the scheduling of tokio's tasks, beyond the order in which events reach a component,
  the turns of \<open>Pipeline\<close>, within which no other task runs, and the interleavings
  inside the turns of \<open>Node_Race\<close>; the time that channels hold messages, except that a
  receiver may be told it lagged.
\<close>

section \<open>From finalization to Celestia and back\<close>

text \<open>
  C2: the forkchoice is sound from the start on. Whenever the start succeeds, with or without a sync of
  what Celestia holds, and after any sequence of turns of the application, the finalization loop, the
  batch task, the finality tracker and the event loop: head and safe block agree in the sequencer's
  forkchoice and in the one that the client has cached; the sequencer's head and both finalized blocks
  are genesis, the runtime's initial hash, or a block that this node has executed. What it has executed
  it executed in the sync, or the application had reported it as final and the finalization loop had
  read it.
\<close>

theorem started_node_sound:
  assumes "start_sequencer CL K A F J E D hs c x w = Some (Inr (E1, D1, rc, n))"
    and "node_runs pub dedup (client_app_env E1 sha256 show_epoch) (execution_client E1) D1 rc n s"
  shows "(\<forall>f \<in> {nd_forkchoice (sy_node s), ew_forkchoice (nd_exec (sy_node s))}.
      fc_head f = fc_safe f \<and>
      fc_finalized f \<in> insert (sc_initial_hash rc) (nd_executed_blocks (sy_node s))) \<and>
    fc_head (nd_forkchoice (sy_node s)) \<in> insert (sc_initial_hash rc) (nd_executed_blocks (sy_node s)) \<and>
    nd_executed_blocks (sy_node s) \<subseteq> nd_executed_blocks n \<union>
      blk_block_hash ` set (take (sy_blocks_read s) (app_block_sender (sy_app s)))"
  using node_runs_sound [OF assms] by (auto simp: sound_inv_def head_is_safe_def)

text \<open>A node whose start replayed the first block, and which then answered a message.\<close>

theorem started_node_sound_witness:
  "\<exists>rc n s. start_sequencer demo_libs demo_keys demo_addrs node_files plain_codec reth_env syncing_da
      ([[]], [], []) syncing_config (ew_outside reth_world) block_holder = Some (Inr (reth_env, synced_da, rc, n)) \<and>
    node_runs (ka_public demo_keys) remdups (client_app_env reth_env (\<lambda>bs. 0) (\<lambda>e. []))
      (execution_client reth_env) synced_da rc n s \<and>
    nd_executed_blocks n = {1000} \<and> app_verified (sy_app s) = {0} \<and>
    fc_head (nd_forkchoice (sy_node s)) \<in> insert (sc_initial_hash rc) (nd_executed_blocks (sy_node s))"
proof (rule synced_start, goal_cases)
  case (1 rc n)
  let ?A = "client_app_env reth_env (\<lambda>bs. 0) (\<lambda>e. [])"
  let ?s = "system_start (da_config synced_da) rc n"
  note start = 1(1) and index = 1(2) and executed = 1(3)
  obtain w where w: "process_message ?A (M_Genesis 1) \<lparr>aw_app = sy_app ?s, aw_world = nd_exec (sy_node ?s)\<rparr> =
      Some (R_Digest 0, w)" "app_verified (aw_app w) = {0}"
    by (simp add: genesis_def bind_act_def client_app_env_def system_start_def create_application_def
        application_new_def Let_def)
  let ?s1 = "?s\<lparr>sy_app := aw_app w, sy_node := (sy_node ?s)\<lparr>nd_exec := aw_world w\<rparr>\<rparr>"
  have "system_step ?A (execution_client reth_env) synced_da 1 (length (remdups (sc_validators rc))) ?s ?s1"
    by (rule message_turn [OF w(1)])
  then have runs: "node_runs (ka_public demo_keys) remdups ?A (execution_client reth_env) synced_da rc n ?s1"
    by (simp add: node_runs_def index r_into_rtranclp)
  have "fc_head (nd_forkchoice (sy_node ?s1)) \<in> insert (sc_initial_hash rc) (nd_executed_blocks (sy_node ?s1))"
    using started_node_sound [OF start runs] by blast
  moreover have "app_verified (sy_app ?s1) = {0}" using w(2) by simp
  ultimately show ?case using start runs executed by blast
qed

text \<open>
  C3: reth's finalized block was published. From every successful start with batching enabled, and
  after any sequence of turns of the application, the finalization loop, the batch task, the finality
  tracker and the event loop, whatever messages and headers arrive and whatever reth and Celestia
  answer: the finalized block, in the sequencer's forkchoice and in the one that the client has cached, is
  genesis or a block that this node led, that the application reported as final, that reth executed,
  and that Celestia has taken in a batch of this node.
\<close>

theorem finalized_block_was_published:
  assumes "start_sequencer CL K A F J E D hs c x w = Some (Inr (E1, D1, rc, n))"
    and "ce_batch_interval_ms (cg_celestia c) > 0"
    and "node_runs pub dedup (client_app_env E1 sha256 show_epoch) (execution_client E1) D1 rc n s"
  shows "\<forall>f \<in> {nd_forkchoice (sy_node s), ew_forkchoice (nd_exec (sy_node s))}.
    fc_finalized f = sc_initial_hash rc \<or>
    (\<exists>b \<in> set (sy_submitted s). blk_block_hash b = fc_finalized f \<and> leads_block pub dedup rc b \<and>
       b \<in> set (app_block_sender (sy_app s)) \<and> blk_block_hash b \<in> nd_executed_blocks (sy_node s))"
proof (intro ballI disjCI)
  fix f
  assume f: "f \<in> {nd_forkchoice (sy_node s), ew_forkchoice (nd_exec (sy_node s))}"
    and new: "\<not> (\<exists>b \<in> set (sy_submitted s). blk_block_hash b = fc_finalized f \<and>
      leads_block pub dedup rc b \<and> b \<in> set (app_block_sender (sy_app s)) \<and>
      blk_block_hash b \<in> nd_executed_blocks (sy_node s))"
  note inv = node_runs_inv [OF assms]
  show "fc_finalized f = sc_initial_hash rc"
  proof (rule ccontr)
    assume "fc_finalized f \<noteq> sc_initial_hash rc"
    moreover from f have "f = nd_forkchoice (sy_node s) \<or> f = ew_forkchoice (nd_exec (sy_node s))"
      by simp
    ultimately obtain b where "b \<in> set (sy_submitted s)" "blk_block_hash b = fc_finalized f"
      using pointer_published [OF inv(2)] by blast
    with submitted_block [OF inv(1)] new show False by blast
  qed
qed

text \<open>
  C8: the order of finalization is the order of publication. What Celestia has taken, followed by
  the pending batch, is what the batch task has received from the queue; the queue is a subsequence
  of the blocks that the application reported as final; so the submitted blocks have increasing
  heights, as long as heights do not wrap around.
\<close>

theorem published_in_order:
  assumes "start_sequencer CL K A F J E D hs c x w = Some (Inr (E1, D1, rc, n))"
    and "ce_batch_interval_ms (cg_celestia c) > 0"
    and "node_runs pub dedup (client_app_env E1 sha256 show_epoch) (execution_client E1) D1 rc n s"
  shows "sy_submitted s @ bt_pending_blocks (sy_batch s) =
      take (sy_queue_read s) (nd_batch_queue (sy_node s)) \<and>
    subseq (nd_batch_queue (sy_node s)) (app_block_sender (sy_app s)) \<and>
    (length (app_block_sender (sy_app s)) < 2 ^ 64 - 1 \<longrightarrow>
      sorted_wrt (<) (map block_height (sy_submitted s)))"
proof -
  note inv = node_runs_inv [OF assms]
  have "sorted_wrt (<) (map block_height (sy_submitted s))" if "length (app_block_sender (sy_app s)) < 2 ^ 64 - 1"
  proof -
    have "subseq (sy_submitted s) (app_block_sender (sy_app s))"
      using submitted_subseq [OF inv(1)] queue_subseq [OF inv(1)] by (rule subseq_order.trans)
    then have "subseq (map block_height (sy_submitted s)) (map block_height (app_block_sender (sy_app s)))"
      by (rule subseq_map)
    then show ?thesis
      using consecutive_sorted [OF inv(3) that] by (rule sorted_wrt_subseq)
  qed
  then show ?thesis
    using inv(1) queue_subseq [OF inv(1)] by (simp add: queue_inv_def)
qed

text \<open>
  C10: a node implements its ledger. The abstract ledger only knows the blocks that are final, those
  the node led, those it published and the one that is finalized, and has five steps: a block of the
  next height becomes final, the next final block is passed over or is led, the next led blocks are
  published, a published block is finalized. Whatever turns the tasks of a started node with batching
  take, the ledger of the state that is reached is one that these steps reach from the empty ledger.
\<close>

theorem node_refines_ledger:
  assumes "start_sequencer CL K A F J E D hs c x w = Some (Inr (E1, D1, rc, n))"
    and "ce_batch_interval_ms (cg_celestia c) > 0"
    and "node_runs pub dedup (client_app_env E1 sha256 show_epoch) (execution_client E1) D1 rc n s"
  shows "(ledger_step (leads_block pub dedup rc))\<^sup>*\<^sup>*
    (ledger_start (sc_initial_hash rc)) (ledger_of s)"
proof -
  let ?A = "client_app_env E1 sha256 show_epoch" and ?X = "execution_client E1"
  let ?k = "length (dedup (sc_validators rc))"
  let ?led = "leads_block pub dedup rc"
  from assms(3) obtain i where i: "validator_index pub rc = Some i"
    and run: "system_run ?A ?X D1 i ?k (system_start (da_config D1) rc n) s"
    by (auto simp: node_runs_def split: option.splits)
  have batching: "ce_batch_interval_ms (da_config D1) > 0"
    using assms(2) started_system(1) [OF assms(1)] by simp
  have led: "?led = (\<lambda>b. unat (block_height b) mod ?k = i)"
    by (auto simp: leads_block_def i)
  from run show ?thesis
  proof (induction rule: rtranclp_induct)
    case base
    then show ?case by (simp add: started_ledger [OF assms(1)])
  next
    case (step s1 s2)
    have runs: "node_runs pub dedup ?A ?X D1 rc n s1" "node_runs pub dedup ?A ?X D1 rc n s2"
      using step.hyps by (auto simp: node_runs_def i intro: rtranclp.rtrancl_into_rtrancl)
    note inv1 = node_runs_inv [OF assms(1,2) runs(1)] and inv2 = node_runs_inv [OF assms(1,2) runs(2)]
    have "ledger_of s2 = ledger_of s1 \<or> ledger_step ?led (ledger_of s1) (ledger_of s2)"
      unfolding led
      by (rule sc.system_step_ledger [OF batching step.hyps(2) inv2(1) [unfolded led] inv1(2)])
        (use inv2(3) in \<open>simp add: counted_def\<close>)
    then show ?case
    proof
      assume "ledger_of s2 = ledger_of s1"
      with step.IH show ?case by simp
    next
      assume "ledger_step ?led (ledger_of s1) (ledger_of s2)"
      with step.IH show ?case by (rule rtranclp.rtrancl_into_rtrancl)
    qed
  qed
qed

text \<open>A node that led height 1, published its block and saw it confirmed.\<close>

lemma led_node:
  obtains rc n s where
    "start_sequencer demo_libs demo_keys demo_addrs node_files plain_codec reth_env encoding_da
      ([], [], []) (seeded_config [1, 0]) (ew_outside reth_world) empty_node = Some (Inr (reth_env, started_da, rc, n))"
    "node_runs (ka_public demo_keys) remdups (client_app_env reth_env (\<lambda>bs. 0) (\<lambda>e. []))
      (execution_client reth_env) started_da rc n s"
    "validator_index (ka_public demo_keys) rc = Some 1" "sc_validators rc = [1, 0]"
    "sy_submitted s = [first_block]" "fc_finalized (nd_forkchoice (sy_node s)) = 1000"
    "ce_batch_interval_ms (cg_celestia (seeded_config [1, 0])) > 0"
proof -
  have "ce_batch_interval_ms (cg_celestia (seeded_config [1, 0])) > 0"
    by (simp add: batching_default)
  moreover have "(0 :: u64) \<in> set [1, 0]" by simp
  from seeded_start [OF this] obtain rc n where
    start: "start_sequencer demo_libs demo_keys demo_addrs node_files plain_codec reth_env encoding_da
      ([], [], []) (seeded_config [1, 0]) (ew_outside reth_world) empty_node = Some (Inr (reth_env, started_da, rc, n))"
      "validator_index (ka_public demo_keys) rc = Some 1" "sc_validators rc = [1, 0]"
      "nd_batch_open n" "nd_batch_queue n = []" "nd_da n = da_initial" "nd_world n = empty_node"
    by auto
  moreover from demo_node_runs [OF start(2-7)] obtain s where
    "node_runs (ka_public demo_keys) remdups (client_app_env reth_env (\<lambda>bs. 0) (\<lambda>e. []))
      (execution_client reth_env) started_da rc n s"
    "sy_submitted s = [first_block]" "fc_finalized (nd_forkchoice (sy_node s)) = 1000" by blast
  ultimately show ?thesis by (intro that)
qed

text \<open>The same node before its batch task takes the block.\<close>

lemma queueing_node:
  obtains rc n s where
    "start_sequencer demo_libs demo_keys demo_addrs node_files plain_codec reth_env encoding_da
      ([], [], []) (seeded_config [1, 0]) (ew_outside reth_world) empty_node = Some (Inr (reth_env, started_da, rc, n))"
    "node_runs (ka_public demo_keys) remdups (client_app_env reth_env (\<lambda>bs. 0) (\<lambda>e. []))
      (execution_client reth_env) started_da rc n s"
    "sy_submitted s = []" "sy_batch_running s" "nd_batch_queue (sy_node s) = [first_block]"
    "ce_batch_interval_ms (cg_celestia (seeded_config [1, 0])) > 0"
proof -
  have "(0 :: u64) \<in> set [1, 0]" by simp
  from seeded_start [OF this] obtain rc n where
    start: "start_sequencer demo_libs demo_keys demo_addrs node_files plain_codec reth_env encoding_da
      ([], [], []) (seeded_config [1, 0]) (ew_outside reth_world) empty_node = Some (Inr (reth_env, started_da, rc, n))"
      "validator_index (ka_public demo_keys) rc = Some 1" "sc_validators rc = [1, 0]"
      "nd_batch_open n" "nd_batch_queue n = []" "nd_da n = da_initial" "nd_world n = empty_node"
    by auto
  from demo_node_queues [OF start(2-7)] start(1) that batching_default show ?thesis by auto
qed

theorem finalized_block_was_published_witness:
  "\<exists>rc n s. start_sequencer demo_libs demo_keys demo_addrs node_files plain_codec reth_env encoding_da ([], [], [])
      (seeded_config [1, 0]) (ew_outside reth_world) empty_node = Some (Inr (reth_env, started_da, rc, n)) \<and>
    node_runs (ka_public demo_keys) remdups (client_app_env reth_env (\<lambda>bs. 0) (\<lambda>e. []))
      (execution_client reth_env) started_da rc n s \<and>
    fc_finalized (nd_forkchoice (sy_node s)) = 1000 \<and>
    (sc_initial_hash rc = 1000 \<or> (\<exists>b \<in> set (sy_submitted s). blk_block_hash b = 1000))"
proof (rule led_node, goal_cases)
  case (1 rc n s)
  from finalized_block_was_published [OF 1(1,7,2)] 1 show ?case by auto
qed

theorem published_in_order_witness:
  "\<exists>rc n s. start_sequencer demo_libs demo_keys demo_addrs node_files plain_codec reth_env encoding_da ([], [], [])
      (seeded_config [1, 0]) (ew_outside reth_world) empty_node = Some (Inr (reth_env, started_da, rc, n)) \<and>
    node_runs (ka_public demo_keys) remdups (client_app_env reth_env (\<lambda>bs. 0) (\<lambda>e. []))
      (execution_client reth_env) started_da rc n s \<and> sy_submitted s = [first_block] \<and>
    subseq (nd_batch_queue (sy_node s)) (app_block_sender (sy_app s))"
proof (rule led_node, goal_cases)
  case (1 rc n s)
  from published_in_order [OF 1(1,7,2)] 1 show ?case by auto
qed

theorem node_refines_ledger_witness:
  "\<exists>rc n s. start_sequencer demo_libs demo_keys demo_addrs node_files plain_codec reth_env encoding_da ([], [], [])
      (seeded_config [1, 0]) (ew_outside reth_world) empty_node = Some (Inr (reth_env, started_da, rc, n)) \<and>
    node_runs (ka_public demo_keys) remdups (client_app_env reth_env (\<lambda>bs. 0) (\<lambda>e. []))
      (execution_client reth_env) started_da rc n s \<and>
    lg_published (ledger_of s) = [first_block] \<and> lg_finalized (ledger_of s) = 1000 \<and>
    (ledger_step (leads_block (ka_public demo_keys) remdups rc))\<^sup>*\<^sup>*
      (ledger_start (sc_initial_hash rc)) (ledger_of s)"
proof (rule led_node, goal_cases)
  case (1 rc n s)
  from node_refines_ledger [OF 1(1,7,2)]
  have "(ledger_step (leads_block (ka_public demo_keys) remdups rc))\<^sup>*\<^sup>*
      (ledger_start (sc_initial_hash rc)) (ledger_of s)" .
  moreover have "lg_published (ledger_of s) = [first_block]" "lg_finalized (ledger_of s) = 1000"
    using 1(5,6) by simp_all
  ultimately show ?case using 1(1,2) by (intro exI conjI)
qed

text \<open>
  C24: nothing queued is stuck while the batch task runs. From every state of a started node with
  batching in which the batch task has not ended, turns of the batch task alone lead to a state in which
  everything that was queued has been submitted, if Celestia takes the batches; the task is still
  running then.
\<close>

theorem queue_can_be_submitted:
  assumes "start_sequencer CL K A F J E D hs c x w = Some (Inr (E1, D1, rc, n))"
    and "ce_batch_interval_ms (cg_celestia c) > 0"
    and "node_runs pub dedup (client_app_env E1 sha256 show_epoch) (execution_client E1) D1 rc n s"
    and "sy_batch_running s" "accepts_batches D1"
  shows "\<exists>s'. (batch_step D1)\<^sup>*\<^sup>* s s' \<and>
    sy_batch_running s' \<and> sy_app s' = sy_app s \<and>
    nd_batch_queue (sy_node s') = nd_batch_queue (sy_node s) \<and>
    sy_submitted s' = nd_batch_queue (sy_node s)"
proof -
  from assms(3) obtain i where i: "validator_index pub rc = Some i"
    by (auto simp: node_runs_def split: option.splits)
  have batching: "ce_batch_interval_ms (da_config D1) > 0"
    using assms(2) started_system(1) [OF assms(1)] by simp
  have led: "leads_block pub dedup rc =
      (\<lambda>b. unat (block_height b) mod length (dedup (sc_validators rc)) = i)"
    by (auto simp: leads_block_def i)
  show ?thesis
    by (rule sc.queue_drains [OF batching assms(5) node_runs_inv(1) [OF assms(1-3), unfolded led] assms(4)])
qed


section \<open>Two validators\<close>

text \<open>
  C9: no height is published by two validators. Two nodes that configure the same number of
  validators and have different indices, each with its own reth and its own Celestia client, have
  never had blocks of the same height taken by Celestia.
\<close>

theorem no_height_published_twice:
  assumes "start_sequencer CL1 K1 A1 F1 J1 E1 D1 hs1 c1 x1 w1 = Some (Inr (E1', D1', rc1, n1))"
    and "start_sequencer CL2 K2 A2 F2 J2 E2 D2 hs2 c2 x2 w2 = Some (Inr (E2', D2', rc2, n2))"
    and "ce_batch_interval_ms (cg_celestia c1) > 0" "ce_batch_interval_ms (cg_celestia c2) > 0"
    and "node_runs pub1 dedup1 (client_app_env E1' sha1 show1) (execution_client E1') D1' rc1 n1 s1"
    and "node_runs pub2 dedup2 (client_app_env E2' sha2 show2) (execution_client E2') D2' rc2 n2 s2"
    and "validator_index pub1 rc1 \<noteq> validator_index pub2 rc2"
    and "length (dedup1 (sc_validators rc1)) = length (dedup2 (sc_validators rc2))"
  shows "\<forall>b1 \<in> set (sy_submitted s1). \<forall>b2 \<in> set (sy_submitted s2). block_height b1 \<noteq> block_height b2"
proof (intro ballI notI)
  fix b1 b2
  assume b: "b1 \<in> set (sy_submitted s1)" "b2 \<in> set (sy_submitted s2)" "block_height b1 = block_height b2"
  have "leads_block pub1 dedup1 rc1 b1"
    by (rule submitted_block_led [OF node_runs_inv(1) [OF assms(1,3,5)] b(1)])
  moreover have "leads_block pub2 dedup2 rc2 b2"
    by (rule submitted_block_led [OF node_runs_inv(1) [OF assms(2,4,6)] b(2)])
  ultimately show False
    using assms(7,8) b(3) by (simp add: leads_block_def)
qed

text \<open>A node that has just started, as the first of two validators.\<close>

lemma first_node:
  obtains rc n where
    "start_sequencer demo_libs demo_keys demo_addrs node_files plain_codec reth_env encoding_da
      ([], [], []) (seeded_config [0, 1]) (ew_outside reth_world) empty_node = Some (Inr (reth_env, started_da, rc, n))"
    "node_runs (ka_public demo_keys) remdups (client_app_env reth_env (\<lambda>bs. 0) (\<lambda>e. []))
      (execution_client reth_env) started_da rc n (system_start default_celestia rc n)"
    "validator_index (ka_public demo_keys) rc = Some 0" "sc_validators rc = [0, 1]"
    "ce_batch_interval_ms (cg_celestia (seeded_config [0, 1])) > 0"
proof -
  have "(0 :: u64) \<in> set [0, 1]" by simp
  from seeded_start [OF this] obtain rc n where
    start: "start_sequencer demo_libs demo_keys demo_addrs node_files plain_codec reth_env encoding_da ([], [], [])
      (seeded_config [0, 1]) (ew_outside reth_world) empty_node = Some (Inr (reth_env, started_da, rc, n))"
      "validator_index (ka_public demo_keys) rc = Some 0" "sc_validators rc = [0, 1]"
    by auto
  then have "node_runs (ka_public demo_keys) remdups (client_app_env reth_env (\<lambda>bs. 0) (\<lambda>e. []))
      (execution_client reth_env) started_da rc n (system_start default_celestia rc n)"
    by (simp add: node_runs_def)
  with start show ?thesis by (intro that) (simp_all add: batching_default)
qed

theorem queue_can_be_submitted_witness:
  "\<exists>rc n s s'. start_sequencer demo_libs demo_keys demo_addrs node_files plain_codec reth_env encoding_da
      ([], [], []) (seeded_config [1, 0]) (ew_outside reth_world) empty_node = Some (Inr (reth_env, started_da, rc, n)) \<and>
    node_runs (ka_public demo_keys) remdups (client_app_env reth_env (\<lambda>bs. 0) (\<lambda>e. []))
      (execution_client reth_env) started_da rc n s \<and> sy_submitted s = [] \<and>
    (batch_step started_da)\<^sup>*\<^sup>* s s' \<and> sy_submitted s' = [first_block]"
proof (rule queueing_node, goal_cases)
  case (1 rc n s)
  from queue_can_be_submitted [OF 1(1,6,2,4) started_accepts] 1 show ?case by auto
qed

theorem no_height_published_twice_witness:
  "\<exists>(rc1 :: (u64, u64, string) simplex_config) n1 s1 (rc2 :: (u64, u64, string) simplex_config) n2 s2.
    node_runs (ka_public demo_keys) remdups (client_app_env reth_env (\<lambda>bs. 0) (\<lambda>e. []))
      (execution_client reth_env) started_da rc1 n1 s1 \<and>
    node_runs (ka_public demo_keys) remdups (client_app_env reth_env (\<lambda>bs. 0) (\<lambda>e. []))
      (execution_client reth_env) started_da rc2 n2 s2 \<and>
    sy_submitted s1 = [first_block] \<and>
    (\<forall>b1 \<in> set (sy_submitted s1). \<forall>b2 \<in> set (sy_submitted s2). block_height b1 \<noteq> block_height b2)"
proof (rule led_node, rule first_node, goal_cases)
  case (1 rc n s rc' n')
  have "validator_index (ka_public demo_keys) rc \<noteq> validator_index (ka_public demo_keys) rc'"
    "length (remdups (sc_validators rc)) = length (remdups (sc_validators rc'))"
    using 1 by simp_all
  note apart = no_height_published_twice [OF 1(1,8,7,12,2,9) this]
  show ?case
    by (intro exI conjI) (rule 1(2), rule 1(9), rule 1(5), rule apart)
qed

section \<open>All validators\<close>

text \<open>
  C4: the applications replicate the engine's decisions. As long as no validator has missed a decision
  and no two relayed blocks share a digest, the blocks that a validator reports as final are computed
  from the decisions it has read and nothing else: each decided block that has the next height, in
  their order. This holds at every moment, for every order of proposals, relayed blocks, decisions and
  turns of the tasks, also when the engine decides several blocks of a height or a block twice.
\<close>

theorem validators_replicate_log:
  assumes "cluster_runs pub dedup sha256 show_epoch V c" "names_blocks T c" "\<not> cl_missed c"
  shows "\<forall>v. app_block_sender (cl_app c v) = chain T (take (cl_read c v) (cl_decided c))"
  using cluster_runs_follows [OF assms(1,2)] assms(3) by (simp add: follows_def)

theorem validators_replicate_log_witness:
  "\<exists>(V :: bool \<Rightarrow> (reth, celestia_node, bytes, bytes, u64, u64, string) validator) c d b.
    cluster_runs (ka_public demo_keys) remdups (\<lambda>bs. 0) (\<lambda>e. []) V c \<and> cl_decided c = [d] \<and> block_height b = 1 \<and>
    app_block_sender (cl_app c True) = [b] \<and>
    (\<forall>v. app_block_sender (cl_app c v) = chain (\<lambda>_. b) (take (cl_read c v) [d]))"
proof (rule demo_cluster_runs [where h = "\<lambda>bs. 0" and e = "\<lambda>e. []"], goal_cases)
  case (1 V c d b)
  have "\<forall>v. app_block_sender (cl_app c v) = chain (\<lambda>_. b) (take (cl_read c v) [d])"
    using validators_replicate_log [OF 1(2-4)] by (simp add: 1(5))
  with 1(2,5,7,8) show ?case by (intro exI conjI)
qed

text \<open>
  C5: agreement. Of the chains of two validators one is a prefix of the other, at every moment of every
  run, if no validator has missed a decision and no two relayed blocks share a digest, or if the engine
  never decides two blocks of one height.
\<close>

theorem validators_agree:
  assumes "cluster_runs pub dedup sha256 show_epoch V c"
    and "names_blocks T c \<and> \<not> cl_missed c \<or> one_per_height c"
  shows "prefix (app_block_sender (cl_app c u)) (app_block_sender (cl_app c v)) \<or>
    prefix (app_block_sender (cl_app c v)) (app_block_sender (cl_app c u))"
  by (rule cluster_agreement [OF assms(1)]) (use assms(2) in \<open>simp add: agrees_def\<close>)

theorem validators_agree_witness:
  "\<exists>(V :: bool \<Rightarrow> (reth, celestia_node, bytes, bytes, u64, u64, string) validator) c b.
    cluster_runs (ka_public demo_keys) remdups (\<lambda>bs. 0) (\<lambda>e. []) V c \<and> app_block_sender (cl_app c True) = [b] \<and>
    (prefix (app_block_sender (cl_app c True)) (app_block_sender (cl_app c False)) \<or>
     prefix (app_block_sender (cl_app c False)) (app_block_sender (cl_app c True)))"
proof (rule demo_cluster_runs [where h = "\<lambda>bs. 0" and e = "\<lambda>e. []"], goal_cases)
  case (1 V c d b)
  from 1(3,4) have "names_blocks (\<lambda>_. b) c \<and> \<not> cl_missed c \<or> one_per_height c" by simp
  from validators_agree [OF 1(2) this, of True False] 1(2,8) show ?case by blast
qed



text \<open>
  C7: what is published is on the chain of everybody. If no validator has missed a decision and no two
  relayed blocks share a digest, or if the engine never decides two blocks of one height, and every
  validator batches: a block that any validator has published on Celestia is, in the chain of every
  validator that has come that far, the block of its height; so whoever follows Celestia sees blocks
  of one chain only. The bound excludes heights that wrap around.
\<close>

theorem published_on_every_chain:
  assumes "\<And>v. start_sequencer (CL v) (K v) (A v) (F v) (J v) (E v) (D v) (hs v) (cc v) (x v) (w v) =
      Some (Inr (va_exec (V v), va_da (V v), va_config (V v), va_node (V v)))"
    and "\<And>v. ce_batch_interval_ms (cg_celestia (cc v)) > 0"
    and "cluster_runs pub dedup sha256 show_epoch V c"
    and "names_blocks T c \<and> \<not> cl_missed c \<or> one_per_height c"
    and "b \<in> set (sy_submitted (cl_system c u))"
    and "length (app_block_sender (cl_app c u)) < 2 ^ 64 - 1"
    and "unat (block_height b) \<le> length (app_block_sender (cl_app c v))"
  shows "app_block_sender (cl_app c v) ! (unat (block_height b) - 1) = b"
proof -
  let ?us = "app_block_sender (cl_app c u)" and ?vs = "app_block_sender (cl_app c v)"
  note inv = node_runs_inv [OF assms(1,2) cluster_runs_nodes [OF assms(3)], of u]
  have "b \<in> set ?us" using submitted_block [OF inv(1) assms(5)] by simp
  then obtain i where i: "i < length ?us" "?us ! i = b" by (auto simp: in_set_conv_nth)
  have height: "unat (block_height b) = Suc i"
    using counted_height [of ?us i] inv(3) i assms(6) by (simp add: counted_def)
  then have "?us ! i = ?vs ! i"
    by (intro prefix_either_nth [OF _ i(1)])
      (use assms(4,7) cluster_agreement [OF assms(3)] in \<open>auto simp: agrees_def\<close>)
  with i(2) height show ?thesis by simp
qed

theorem published_on_every_chain_witness:
  "\<exists>(V :: bool \<Rightarrow> (reth, celestia_node, bytes, bytes, u64, u64, string) validator) c b.
    cluster_runs (ka_public demo_keys) remdups (\<lambda>bs. 0) (\<lambda>e. []) V c \<and> sy_submitted (cl_system c True) = [b] \<and>
    app_block_sender (cl_app c False) ! 0 = b"
proof (rule demo_cluster_runs [where h = "\<lambda>bs. 0" and e = "\<lambda>e. []"], goal_cases)
  case (1 V c d b)
  have "ce_batch_interval_ms (cg_celestia (demo_config_of v)) > 0" for v
    by (simp add: demo_config_of_def batching_default)
  note published = published_on_every_chain [OF 1(1) this 1(2), of "\<lambda>_. b" b True False]
  have "app_block_sender (cl_app c False) ! 0 = b"
    using published 1(3,4,7-9) by simp
  with 1(2,9) show ?case by (intro exI conjI)
qed

text \<open>
  C16: without the condition there are forks. The engine decides two blocks of one height, which
  happens when the leader of the next view proposes before it is told that the last proposal is
  final. A validator that has both finalizes the first; one that did not get the first over the relay,
  which is best effort, ignores its finalization and then finalizes the second at the same height.
  Nothing in the application notices that the two chains differ from there on.
\<close>

theorem missed_block_forks:
  assumes "app_pending_blocks (aw_app w1) d1 = Some b1" "app_pending_blocks (aw_app w1) d2 \<in> {None, Some b2}"
    and "app_pending_blocks (aw_app w2) d1 = None" "app_pending_blocks (aw_app w2) d2 = Some b2"
    and "block_height b1 = app_height (aw_app w1)" "block_height b2 = app_height (aw_app w2)"
    and "app_height (aw_app w1) = app_height (aw_app w2)"
    and "run_app E1 [M_Finalize d1, M_Finalize d2] w1 = Some (rs1, w1')"
    and "run_app E2 [M_Finalize d1, M_Finalize d2] w2 = Some (rs2, w2')"
  shows "app_block_sender (aw_app w1') = app_block_sender (aw_app w1) @ [b1] \<and>
    app_block_sender (aw_app w2') = app_block_sender (aw_app w2) @ [b2] \<and>
    app_height (aw_app w1') = app_height (aw_app w2')"
proof -
  from assms(8) obtain r1 v1 r1' where m1: "process_message E1 (M_Finalize d1) w1 = Some (r1, v1)"
    "process_message E1 (M_Finalize d2) v1 = Some (r1', w1')"
    by (auto simp del: process_message.simps elim!: act_elims)
  from assms(9) obtain r2 v2 r2' where m2: "process_message E2 (M_Finalize d1) w2 = Some (r2, v2)"
    "process_message E2 (M_Finalize d2) v2 = Some (r2', w2')"
    by (auto simp del: process_message.simps elim!: act_elims)
  note e1 = finalization_effect [OF m1(1)] and e1' = finalization_effect [OF m1(2)]
  note e2 = finalization_effect [OF m2(1)] and e2' = finalization_effect [OF m2(2)]
  have first: "app_block_sender (aw_app v1) = app_block_sender (aw_app w1) @ [b1]"
    "app_height (aw_app v1) = app_height (aw_app w1) + 1"
    using e1(3) assms(1,5) by simp_all
  have "app_pending_blocks (aw_app v1) d2 \<in> {None, Some b2}"
    using e1(2) assms(2) by (force simp: map_le_def dom_def)
  then have last: "app_block_sender (aw_app w1') = app_block_sender (aw_app w1) @ [b1]"
    "app_height (aw_app w1') = app_height (aw_app w1) + 1"
    using e1'(3) first assms(6,7) by auto
  have missed: "app_block_sender (aw_app v2) = app_block_sender (aw_app w2)"
    "app_height (aw_app v2) = app_height (aw_app w2)"
    using e2(3) assms(3) by simp_all
  have "app_pending_blocks (aw_app v2) d2 = Some b2"
    by (rule finalize_unknown_keeps [OF m2(1) assms(3,4)])
  then have "app_block_sender (aw_app w2') = app_block_sender (aw_app w2) @ [b2]"
    "app_height (aw_app w2') = app_height (aw_app w2) + 1"
    using e2'(3) missed assms(6) by simp_all
  with last assms(7) show ?thesis by simp
qed

theorem missed_block_forks_witness:
  "\<exists>rs1 w1 rs2 w2.
    run_app reth_app_env [M_Finalize first_digest, M_Finalize (first_digest + 1)] after_first_proposal = Some (rs1, w1) \<and>
    run_app reth_app_env [M_Finalize first_digest, M_Finalize (first_digest + 1)] received_other = Some (rs2, w2) \<and>
    map blk_block_hash (app_block_sender (aw_app w1)) = [1000] \<and>
    map blk_block_hash (app_block_sender (aw_app w2)) = [2000] \<and>
    app_height (aw_app w1) = app_height (aw_app w2)"
proof -
  from first_then_other_run obtain rs1 w1 where r1: "run_app reth_app_env
    [M_Finalize first_digest, M_Finalize (first_digest + 1)] after_first_proposal = Some (rs1, w1)" by blast
  from other_run obtain rs2 w2 where r2: "run_app reth_app_env
    [M_Finalize first_digest, M_Finalize (first_digest + 1)] received_other = Some (rs2, w2)" by blast
  have start: "app_height (aw_app after_first_proposal) = 1" "app_block_sender (aw_app after_first_proposal) = []"
    "app_pending_blocks (aw_app after_first_proposal) = [first_digest \<mapsto> first_block]"
    by (simp_all add: after_first_proposal_def app_update_simps application_new_def reth_config_def first_block_def)
  have "app_block_sender (aw_app w1) = [first_block] \<and>
    app_block_sender (aw_app w2) = [build_block_from_payload other_payload] \<and>
    app_height (aw_app w1) = app_height (aw_app w2)"
    using missed_block_forks [OF _ _ _ _ _ _ _ r1 r2, of first_block "build_block_from_payload other_payload"]
    by (simp add: start received_other_app)
  then have "map blk_block_hash (app_block_sender (aw_app w1)) = [1000] \<and>
    map blk_block_hash (app_block_sender (aw_app w2)) = [2000] \<and> app_height (aw_app w1) = app_height (aw_app w2)"
    by (simp add: received_other_app)
  with r1 r2 show ?thesis by (intro exI conjI) (assumption | elim conjE)+
qed

end
